theory Spec2Isabelle
  imports Complex_Main
begin

section \<open>Python values and failures\<close>

text \<open>
  The simulator is Python. Its \<^verbatim>\<open>int\<close> is modelled by \<^typ>\<open>int\<close>. Objects that are
  shared by reference (operators, enemies, tiles) live in stores indexed by natural
  numbers, and a reference is the index. An exception is the left summand of a result.
\<close>

datatype py_error = IndexError | ValueError | AttributeError | ZeroDivisionError | OverflowError

definition and_then :: "py_error + 'a \<Rightarrow> ('a \<Rightarrow> py_error + 'b) \<Rightarrow> py_error + 'b" where
  "and_then m f = (case m of Inl e \<Rightarrow> Inl e | Inr x \<Rightarrow> f x)"

definition py_index :: "'a list \<Rightarrow> int \<Rightarrow> py_error + 'a" where
  \<comment> \<open>\<^verbatim>\<open>xs[i]\<close>: a negative index counts from the end, anything else out of range raises.\<close>
  "py_index xs i =
     (if 0 \<le> i \<and> i < int (length xs) then Inr (xs ! nat i)
      else if i < 0 \<and> - int (length xs) \<le> i then Inr (xs ! nat (int (length xs) + i))
      else Inl IndexError)"

definition py_int :: "real \<Rightarrow> int" where
  \<comment> \<open>\<^verbatim>\<open>int(x)\<close> on a float truncates toward zero.\<close>
  "py_int x = (if 0 \<le> x then \<lfloor>x\<rfloor> else \<lceil>x\<rceil>)"

definition py_div :: "real \<Rightarrow> real \<Rightarrow> py_error + real" where
  "py_div a b = (if b = 0 then Inl ZeroDivisionError else Inr (a / b))"

subsection \<open>Floats\<close>

text \<open>
  A Python \<^verbatim>\<open>float\<close> is an IEEE 754 binary64 number. A field that holds a float has type
  \<^typ>\<open>real\<close> and holds the number the float stands for; the infinities and NaN are
  outside the model. The finite floats are the reals \<open>m * 2 ^ k\<close> with \<open>\<bar>m\<bar> < 2 ^ 53\<close> and
  \<open>- 1074 \<le> k\<close>, below \<open>2 ^ 1024\<close> in size. An operation on floats yields the float
  nearest to the exact result, the one with the even significand when two are equally
  near: \<open>fl\<close> is that rounding, and an exact result for which \<open>overflows\<close> holds is rounded
  by the machine to an infinity.

  The arithmetic whose rounding decides a statement of this theory is rounded: the
  product of \<^verbatim>\<open>take_damage\<close> and the countdown of \<^verbatim>\<open>update_duration\<close>. The other
  float arithmetic (game time, cost, SP, cooldowns, progress along a path) is exact; what
  is proved of those parts does not depend on the values computed there.
\<close>

fun bit_length :: "nat \<Rightarrow> nat" where
  \<comment> \<open>The number of binary digits, as \<^verbatim>\<open>int.bit_length\<close>.\<close>
  "bit_length n = (if n = 0 then 0 else Suc (bit_length (n div 2)))"

declare bit_length.simps [simp del]

definition pow2 :: "int \<Rightarrow> real" where
  "pow2 k = (if 0 \<le> k then 2 ^ nat k else 1 / 2 ^ nat (- k))"

definition binade :: "real \<Rightarrow> int" where
  \<comment> \<open>For \<open>0 < x\<close>, the exponent \<open>e\<close> with \<open>2 ^ e \<le> x < 2 ^ (e + 1)\<close>.\<close>
  "binade x =
     (if 1 \<le> x then int (bit_length (nat \<lfloor>x\<rfloor>)) - 1
      else - int (bit_length (nat (\<lceil>1 / x\<rceil> - 1))))"

definition round_half_even :: "real \<Rightarrow> int" where
  "round_half_even y =
     (let f = \<lfloor>y\<rfloor>; d = y - of_int f
      in if d < 1 / 2 then f else if 1 / 2 < d then f + 1 else if even f then f else f + 1)"

definition ulp_exponent :: "real \<Rightarrow> int" where
  \<comment> \<open>The exponent of the spacing of the floats around \<open>x\<close>: 53 significant bits, and
      no spacing finer than \<open>2 ^ - 1074\<close> (the subnormal floats).\<close>
  "ulp_exponent x = max (binade \<bar>x\<bar> - 52) (- 1074)"

definition fl :: "real \<Rightarrow> real" where
  "fl x = (if x = 0 then 0
           else of_int (round_half_even (x / pow2 (ulp_exponent x))) * pow2 (ulp_exponent x))"

definition overflows :: "real \<Rightarrow> bool" where
  "overflows x = (pow2 1024 \<le> \<bar>fl x\<bar>)"

definition float_of_int :: "int \<Rightarrow> py_error + real" where
  \<comment> \<open>The conversion of an \<^verbatim>\<open>int\<close> operand of a float operation: rounded, and
      \<^verbatim>\<open>OverflowError\<close> for an integer beyond the floats.\<close>
  "float_of_int i = (if overflows (of_int i) then Inl OverflowError else Inr (fl (of_int i)))"

definition int_of_product :: "real \<Rightarrow> real \<Rightarrow> py_error + int" where
  \<comment> \<open>\<^verbatim>\<open>int(a * b)\<close> on floats: a product beyond the floats is an infinity, which
      \<^verbatim>\<open>int\<close> refuses with \<^verbatim>\<open>OverflowError\<close>.\<close>
  "int_of_product a b =
     (if overflows (a * b) then Inl OverflowError else Inr (py_int (fl (a * b))))"


section \<open>skill\_system.py\<close>

datatype SPType = INCREASE_WITH_TIME | INCREASE_WHEN_ATTACK | INCREASE_WHEN_TAKEN_DAMAGE

datatype SkillType = MANUAL | AUTO | PASSIVE

datatype DurationType = DURATION_NONE | SECONDS | AMMO

text \<open>
  \<^verbatim>\<open>SkillLevel\<close>. The field \<open>effects\<close> is the dictionary of \<^verbatim>\<open>SkillEffect\<close>;
  \<open>level_name\<close> is the attribute \<^verbatim>\<open>name\<close>.
\<close>

record SkillLevel =
  level_name :: string
  skill_type :: SkillType
  duration_type :: DurationType
  duration :: real
  sp_type :: SPType
  sp_cost :: real
  init_sp :: real
  max_charge_time :: int
  increment :: real
  effects :: "string \<rightharpoonup> real"

definition get_effect :: "(string \<rightharpoonup> real) \<Rightarrow> string \<Rightarrow> real \<Rightarrow> real" where
  "get_effect eff key dflt = (case eff key of None \<Rightarrow> dflt | Some v \<Rightarrow> v)"

record Skill =
  skill_id :: string
  levels :: "SkillLevel list"
  current_level :: int
  current_sp :: real
  charge_count :: int
  is_active :: bool
  remaining_duration :: real
  remaining_ammo :: int

definition get_current_level :: "Skill \<Rightarrow> py_error + SkillLevel" where
  "get_current_level s =
     (if levels s = [] then Inl ValueError else py_index (levels s) (current_level s))"

definition can_activate :: "Skill \<Rightarrow> py_error + bool" where
  "can_activate s =
     and_then (get_current_level s) (\<lambda>level.
       if skill_type level = PASSIVE then Inr False
       else if max_charge_time level > 1 then Inr (charge_count s > 0)
       else Inr (current_sp s \<ge> sp_cost level))"

definition should_auto_activate :: "Skill \<Rightarrow> py_error + bool" where
  "should_auto_activate s =
     and_then (get_current_level s) (\<lambda>level.
       if skill_type level \<noteq> AUTO then Inr False
       else if max_charge_time level > 1 then Inr (charge_count s \<ge> max_charge_time level)
       else Inr (current_sp s \<ge> sp_cost level))"

definition activate_now :: "Skill \<Rightarrow> py_error + bool \<times> Skill" where
  \<comment> \<open>The body of \<^verbatim>\<open>activate\<close> after its guard.\<close>
  "activate_now s =
     and_then (get_current_level s) (\<lambda>level.
       let s1 = (if max_charge_time level > 1 then s\<lparr>charge_count := charge_count s - 1\<rparr>
                 else s\<lparr>current_sp := 0\<rparr>);
           s2 = s1\<lparr>is_active := True\<rparr>
       in if duration_type level = SECONDS then
            Inr (True, s2\<lparr>remaining_duration := duration level\<rparr>)
          else if duration_type level = AMMO then
            Inr (True, s2\<lparr>remaining_ammo :=
                   py_int (get_effect (effects level) ''times'' (duration level))\<rparr>)
          else Inr (True, s2))"

definition activate :: "Skill \<Rightarrow> py_error + bool \<times> Skill" where
  "activate s =
     and_then (can_activate s) (\<lambda>can.
       if can then activate_now s
       else and_then (should_auto_activate s) (\<lambda>auto.
         if auto then activate_now s else Inr (False, s)))"

function bank_charges :: "SkillLevel \<Rightarrow> Skill \<Rightarrow> Skill" where
  \<comment> \<open>The \<^verbatim>\<open>while\<close> loop of \<^verbatim>\<open>update_sp\<close> that turns SP into charges.\<close>
  "bank_charges level s =
     (if current_sp s \<ge> sp_cost level \<and> charge_count s < max_charge_time level
      then bank_charges level
             (s\<lparr>current_sp := current_sp s - sp_cost level, charge_count := charge_count s + 1\<rparr>)
      else s)"
  by pat_completeness auto
termination
  by (relation "measure (\<lambda>(level, s). nat (max_charge_time level - charge_count s))") auto

definition update_sp :: "real \<Rightarrow> real \<Rightarrow> Skill \<Rightarrow> py_error + Skill" where
  "update_sp delta_time sp_gain_rate s =
     (if levels s = [] then Inr s
      else and_then (get_current_level s) (\<lambda>level.
        if sp_type level = INCREASE_WITH_TIME then
          (let sp_gain = increment level * delta_time * sp_gain_rate
           in if max_charge_time level > 1
              then Inr (bank_charges level (s\<lparr>current_sp := current_sp s + sp_gain\<rparr>))
              else Inr (s\<lparr>current_sp := min (current_sp s + sp_gain) (sp_cost level)\<rparr>))
        else Inr s))"

definition deactivate :: "Skill \<Rightarrow> Skill" where
  "deactivate s = s\<lparr>is_active := False, remaining_duration := 0, remaining_ammo := 0\<rparr>"

definition update_duration :: "real \<Rightarrow> Skill \<Rightarrow> py_error + Skill" where
  \<comment> \<open>\<^verbatim>\<open>self.remaining_duration -= delta_time\<close> is a float subtraction.\<close>
  "update_duration delta_time s =
     (if \<not> is_active s then Inr s
      else and_then (get_current_level s) (\<lambda>level.
        if duration_type level = SECONDS then
          (let s1 = s\<lparr>remaining_duration := fl (remaining_duration s - delta_time)\<rparr>
           in if remaining_duration s1 \<le> 0 then Inr (deactivate s1) else Inr s1)
        else if duration_type level = DURATION_NONE then Inr (deactivate s)
        else Inr s))"

fun update_durations :: "real list \<Rightarrow> Skill \<Rightarrow> py_error + Skill" where
  \<comment> \<open>One \<^verbatim>\<open>update_duration\<close> call per tick, the ticks in order.\<close>
  "update_durations [] s = Inr s"
| "update_durations (dt # dts) s = and_then (update_duration dt s) (update_durations dts)"


section \<open>game\_entities.py\<close>

record Position =
  row :: int
  col :: int

datatype Direction = RIGHT | DOWN | LEFT | UP

text \<open>
  The attribute \<^verbatim>\<open>position\<close> of an entity holds \<^verbatim>\<open>None\<close> or a \<^verbatim>\<open>Position\<close>;
  \<^verbatim>\<open>Operator.__init__\<close> stores the placement class of the operator, a string such as
  \<^verbatim>\<open>"MELEE"\<close>, in the same attribute.
\<close>

datatype position_value = NoPosition | AtPosition Position | PlacementClass string

definition truthy :: "position_value \<Rightarrow> bool" where
  \<comment> \<open>Python's truth value: \<^verbatim>\<open>None\<close> and the empty string are false.\<close>
  "truthy p = (case p of NoPosition \<Rightarrow> False | AtPosition _ \<Rightarrow> True | PlacementClass s \<Rightarrow> s \<noteq> [])"

definition distance_to :: "Position \<Rightarrow> Position \<Rightarrow> real" where
  "distance_to p other = sqrt (real_of_int ((row p - row other)\<^sup>2 + (col p - col other)\<^sup>2))"

record Buff =
  buff_id :: string
  buff_duration :: real
  buff_remaining_duration :: real
  buff_is_active :: bool

definition buff_update :: "real \<Rightarrow> Buff \<Rightarrow> Buff" where
  "buff_update delta_time b =
     (if buff_is_active b \<and> buff_duration b > 0 then
        (let b1 = b\<lparr>buff_remaining_duration := buff_remaining_duration b - delta_time\<rparr>
         in if buff_remaining_duration b1 \<le> 0 then b1\<lparr>buff_is_active := False\<rparr> else b1)
      else b)"

text \<open>
  \<^verbatim>\<open>GameEntity\<close>, the base class of operators and enemies. Both subclasses declare
  \<^verbatim>\<open>target\<close> and \<^verbatim>\<open>attack_cooldown\<close>; they are kept here once. The field
  \<open>defense\<close> is the attribute \<^verbatim>\<open>def_\<close>. A reference to
  another entity is its index in the store of the world.
\<close>

record GameEntity =
  entity_id :: string
  name :: string
  position :: position_value
  max_hp :: int
  current_hp :: int
  atk :: int
  defense :: int
  magic_resistance :: real
  move_speed :: real
  attack_speed :: real
  base_attack_time :: real
  block_count :: int
  is_alive :: bool
  buffs :: "Buff list"
  debuffs :: "Buff list"
  target :: "nat option"
  attack_cooldown :: real

definition lose_hp :: "int \<Rightarrow> 'a GameEntity_scheme \<Rightarrow> 'a GameEntity_scheme" where
  \<comment> \<open>The end of \<^verbatim>\<open>take_damage\<close>: the hit points are clamped at 0, where the entity
      dies.\<close>
  "lose_hp actual_damage e =
     (let e1 = e\<lparr>current_hp := max 0 (current_hp e - actual_damage)\<rparr>
      in if current_hp e1 \<le> 0 then e1\<lparr>is_alive := False\<rparr> else e1)"

definition take_damage ::
  "int \<Rightarrow> bool \<Rightarrow> 'a GameEntity_scheme \<Rightarrow> py_error + int \<times> 'a GameEntity_scheme" where
  \<comment> \<open>\<^verbatim>\<open>damage * (1 - self.magic_resistance)\<close> is float arithmetic: the difference is
      rounded, \<^verbatim>\<open>damage\<close> is converted, the product is rounded.\<close>
  "take_damage damage is_arts e =
     and_then
       (if is_arts then
          and_then (float_of_int damage) (\<lambda>d.
          and_then (int_of_product d (fl (1 - magic_resistance e))) (\<lambda>p. Inr (max 1 p)))
        else Inr (max 1 (damage - defense e)))
       (\<lambda>actual_damage. Inr (actual_damage, lose_hp actual_damage e))"

definition update_buffs :: "real \<Rightarrow> 'a GameEntity_scheme \<Rightarrow> 'a GameEntity_scheme" where
  \<comment> \<open>\<^verbatim>\<open>Buff.remove\<close> does nothing, so an expired effect is only dropped.\<close>
  "update_buffs delta_time e =
     e\<lparr>buffs := filter buff_is_active (map (buff_update delta_time) (buffs e)),
       debuffs := filter buff_is_active (map (buff_update delta_time) (debuffs e))\<rparr>"

text \<open>
  \<^verbatim>\<open>Operator\<close>. \<open>operator_current_sp\<close> is the attribute \<^verbatim>\<open>current_sp\<close> that
  \<^verbatim>\<open>retreat\<close> creates on the operator itself (absent until then).
\<close>

record Operator = GameEntity +
  skills :: "Skill list"
  active_skill_index :: int
  direction :: Direction
  deploy_cost :: int
  is_deployed :: bool
  deploy_time :: real
  blocked_enemies :: "nat list"
  max_block_count :: int
  operator_current_sp :: "int option"

definition deploy :: "Position \<Rightarrow> Direction \<Rightarrow> Operator \<Rightarrow> Operator" where
  "deploy pos dir op =
     op\<lparr>position := AtPosition pos, direction := dir, is_deployed := True, deploy_time := 0\<rparr>"

definition retreat :: "Operator \<Rightarrow> Operator" where
  "retreat op =
     op\<lparr>is_deployed := False, position := NoPosition, target := None,
        blocked_enemies := [], operator_current_sp := Some 0\<rparr>"

definition get_rotated_attack_range :: "Operator \<Rightarrow> (int \<times> int) list list" where
  "get_rotated_attack_range op =
     (if position op = PlacementClass ''MELEE'' then [[(0, 1), (0, -1), (1, 0), (-1, 0)]]
      else [[(1, 0), (2, 0), (3, 0)]])"

definition can_attack :: "Operator \<Rightarrow> position_value \<Rightarrow> py_error + bool" where
  \<comment> \<open>Reading \<^verbatim>\<open>.row\<close> of a string or of \<^verbatim>\<open>None\<close> raises \<^verbatim>\<open>AttributeError\<close>.\<close>
  "can_attack op target_pos =
     (if \<not> truthy (position op) \<or> \<not> is_deployed op then Inr False
      else case (target_pos, position op) of
        (AtPosition t, AtPosition p) \<Rightarrow>
          (let rel_row = row t - row p; rel_col = col t - col p
           in Inr (\<exists>range_row \<in> set (get_rotated_attack_range op).
                     \<exists>range_col \<in> set range_row. rel_row = fst range_col \<and> rel_col = snd range_col))
      | _ \<Rightarrow> Inl AttributeError)"

fun update_skills :: "real \<Rightarrow> Skill list \<Rightarrow> py_error + Skill list" where
  \<comment> \<open>The loop of \<^verbatim>\<open>Operator.update_skills\<close>; each skill object stands once in the list,
      so \<^verbatim>\<open>activate_skill_by_index(self.skills.index(skill))\<close> acts on the skill at hand:
      it asks \<^verbatim>\<open>can_activate\<close> and then \<^verbatim>\<open>activate\<close>, and drops the result.\<close>
  "update_skills delta_time [] = Inr []"
| "update_skills delta_time (skill # rest) =
     and_then (update_sp delta_time 1 skill) (\<lambda>s1.
     and_then (update_duration delta_time s1) (\<lambda>s2.
     and_then (should_auto_activate s2) (\<lambda>auto.
     and_then (if auto
               then and_then (can_activate s2) (\<lambda>can.
                      if can then and_then (activate s2) (\<lambda>r. Inr (snd r))
                      else and_then (get_current_level s2) (\<lambda>_. Inr s2))
               else Inr s2) (\<lambda>s3.
     and_then (update_skills delta_time rest) (\<lambda>rest'. Inr (s3 # rest'))))))"

definition operator_update :: "real \<Rightarrow> Operator \<Rightarrow> py_error + Operator" where
  "operator_update delta_time op =
     (if \<not> is_deployed op then Inr op
      else
        let op1 = update_buffs delta_time op
        in and_then (update_skills delta_time (skills op1)) (\<lambda>sk.
             let op2 = op1\<lparr>skills := sk\<rparr>;
                 op3 = (if attack_cooldown op2 > 0
                        then op2\<lparr>attack_cooldown := attack_cooldown op2 - delta_time\<rparr> else op2)
             in Inr (op3\<lparr>deploy_time := deploy_time op3 + delta_time\<rparr>)))"

text \<open>\<^verbatim>\<open>Enemy\<close>. \<open>enemy_path\<close> is the attribute \<^verbatim>\<open>path\<close>.\<close>

record Enemy = GameEntity +
  unique_id :: nat
  enemy_path :: "Position list"
  path_index :: int
  move_progress :: real
  is_blocked :: bool
  blocked_by :: "nat option"
  has_reached_goal :: bool

text \<open>
  The attributes \<^verbatim>\<open>Enemy.__init__\<close> reads from the enemy table, defaults applied.
\<close>

record EnemyData =
  data_name :: string
  data_max_hp :: int
  data_atk :: int
  data_def :: int
  data_magic_resistance :: real
  data_move_speed :: real
  data_attack_speed :: real
  data_base_attack_time :: real

definition Enemy_init :: "nat \<Rightarrow> string \<Rightarrow> EnemyData \<Rightarrow> Enemy" where
  "Enemy_init uid enemy_id d =
     \<lparr>entity_id = enemy_id, name = data_name d, position = NoPosition,
      max_hp = data_max_hp d, current_hp = data_max_hp d, atk = data_atk d,
      defense = data_def d, magic_resistance = data_magic_resistance d,
      move_speed = data_move_speed d, attack_speed = data_attack_speed d,
      base_attack_time = data_base_attack_time d, block_count = 0, is_alive = True,
      buffs = [], debuffs = [], target = None, attack_cooldown = 0,
      unique_id = uid, enemy_path = [], path_index = 0, move_progress = 0,
      is_blocked = False, blocked_by = None, has_reached_goal = False\<rparr>"

definition set_path :: "Position list \<Rightarrow> Enemy \<Rightarrow> Enemy" where
  "set_path p e =
     (let e1 = e\<lparr>enemy_path := p, path_index := 0, move_progress := 0\<rparr>
      in case p of [] \<Rightarrow> e1 | first # _ \<Rightarrow> e1\<lparr>position := AtPosition first\<rparr>)"

function move_loop :: "Enemy \<Rightarrow> py_error + bool \<times> Enemy" where
  \<comment> \<open>The \<^verbatim>\<open>while\<close> loop of \<^verbatim>\<open>Enemy.move\<close>.\<close>
  "move_loop e =
     (if move_progress e \<ge> 1 \<and> path_index e < int (length (enemy_path e)) - 1 then
        (let e1 = e\<lparr>move_progress := move_progress e - 1, path_index := path_index e + 1\<rparr>
         in case py_index (enemy_path e1) (path_index e1) of
              Inl err \<Rightarrow> Inl err
            | Inr p \<Rightarrow>
                (let e2 = e1\<lparr>position := AtPosition p\<rparr>
                 in if path_index e2 = int (length (enemy_path e2)) - 1
                    then Inr (True, e2\<lparr>has_reached_goal := True\<rparr>)
                    else move_loop e2))
      else Inr (False, e))"
  by pat_completeness auto
termination
  by (relation "measure (\<lambda>e. nat (int (length (enemy_path e)) - path_index e))") auto

definition move :: "real \<Rightarrow> Enemy \<Rightarrow> py_error + bool \<times> Enemy" where
  "move delta_time e =
     (if is_blocked e \<or> enemy_path e = [] \<or> path_index e \<ge> int (length (enemy_path e)) - 1
      then Inr (False, e)
      else move_loop (e\<lparr>move_progress := move_progress e + move_speed e * delta_time\<rparr>))"

definition get_blocked_by :: "nat \<Rightarrow> Enemy \<Rightarrow> Enemy" where
  "get_blocked_by operator e = e\<lparr>is_blocked := True, blocked_by := Some operator, target := Some operator\<rparr>"

definition release_block :: "Enemy \<Rightarrow> Enemy" where
  "release_block e = e\<lparr>is_blocked := False, blocked_by := None, target := None\<rparr>"

definition enemy_update :: "real \<Rightarrow> Enemy \<Rightarrow> py_error + Enemy" where
  "enemy_update delta_time e =
     (let e1 = update_buffs delta_time e;
          e2 = (if attack_cooldown e1 > 0
                then e1\<lparr>attack_cooldown := attack_cooldown e1 - delta_time\<rparr> else e1)
      in if \<not> is_blocked e2 then and_then (move delta_time e2) (\<lambda>r. Inr (snd r)) else Inr e2)"


section \<open>operation\_result.py\<close>

datatype BuildableType = Buildable_NONE | Buildable_MELEE | Buildable_RANGED | Buildable_ALL

text \<open>
  The reason of a failure is a formatted message in the source. It is modelled by the kind
  of message together with the values the message prints:
  \<^item> \<open>PositionInvalid row col\<close>: the position is not on the map;
  \<^item> \<open>NoTileInfo row col\<close>: the map has no tile for the position;
  \<^item> \<open>PositionOccupied row col\<close>: the tile holds an operator;
  \<^item> \<open>TypeMismatch name position tile_type\<close>: the operator's class does not fit the tile;
  \<^item> \<open>InsufficientCost needed current\<close>: the deploy cost exceeds the current cost;
  \<^item> \<open>CharacterLimitReached limit\<close>: the roster is full;
  \<^item> \<open>TileRefused\<close>: \<^verbatim>\<open>Tile.deploy_operator\<close> returned false.
\<close>

datatype failure_reason =
    PositionInvalid int int
  | NoTileInfo int int
  | PositionOccupied int int
  | TypeMismatch string position_value BuildableType
  | InsufficientCost int real
  | CharacterLimitReached int
  | TileRefused

record OperationResult =
  success :: bool
  reason :: "failure_reason option"

definition success_result :: OperationResult where
  "success_result = \<lparr>success = True, reason = None\<rparr>"

definition failure_result :: "failure_reason \<Rightarrow> OperationResult" where
  "failure_result r = \<lparr>success = False, reason = Some r\<rparr>"


section \<open>game\_map.py\<close>

subsection \<open>Tiles\<close>

text \<open>\<^verbatim>\<open>Tile\<close>; \<open>deployed_operator\<close> refers to an operator of the world's store.\<close>

record Tile =
  buildable_type :: BuildableType
  deployed_operator :: "nat option"

definition can_deploy_operator :: "Tile \<Rightarrow> Operator \<Rightarrow> bool" where
  "can_deploy_operator tile operator =
     (if deployed_operator tile \<noteq> None then False
      else if buildable_type tile = Buildable_NONE then False
      else if buildable_type tile = Buildable_MELEE \<and> position operator \<noteq> PlacementClass ''MELEE''
        then False
      else if buildable_type tile = Buildable_RANGED \<and> position operator \<noteq> PlacementClass ''RANGED''
        then False
      else True)"

definition tile_deploy_operator :: "Tile \<Rightarrow> nat \<Rightarrow> Operator \<Rightarrow> bool \<times> Tile" where
  \<comment> \<open>\<^verbatim>\<open>Tile.deploy_operator\<close>; the operator is passed with its reference.\<close>
  "tile_deploy_operator tile oid operator =
     (if \<not> can_deploy_operator tile operator then (False, tile)
      else (True, tile\<lparr>deployed_operator := Some oid\<rparr>))"

subsection \<open>Routes\<close>

text \<open>
  \<^verbatim>\<open>Route\<close>. \<open>checkpoints\<close> holds the position of each checkpoint as
  \<^verbatim>\<open>_generate_path\<close> reads it (row and column default to 0), or \<open>None\<close> for a missing list.
\<close>

record Route =
  start_position :: Position
  end_position :: Position
  checkpoints :: "Position list option"
  allow_diagonal_move :: bool
  path :: "Position list"

definition next_step :: "Position \<Rightarrow> Position \<Rightarrow> Position" where
  \<comment> \<open>The \<^verbatim>\<open>if\<close>/\<^verbatim>\<open>elif\<close> chain inside the loop of \<^verbatim>\<open>_find_path\<close>.\<close>
  "next_step current end_pos =
     (if row current < row end_pos then current\<lparr>row := row current + 1\<rparr>
      else if row current > row end_pos then current\<lparr>row := row current - 1\<rparr>
      else if col current < col end_pos then current\<lparr>col := col current + 1\<rparr>
      else if col current > col end_pos then current\<lparr>col := col current - 1\<rparr>
      else current)"

function walk :: "Position \<Rightarrow> Position \<Rightarrow> Position list" where
  \<comment> \<open>The \<^verbatim>\<open>while current != end\<close> loop of \<^verbatim>\<open>_find_path\<close>.\<close>
  "walk current end_pos =
     (if current \<noteq> end_pos
      then next_step current end_pos # walk (next_step current end_pos) end_pos
      else [])"
  by pat_completeness auto
termination
proof (relation "measure (\<lambda>(c, e). nat (\<bar>row e - row c\<bar> + \<bar>col e - col c\<bar>))")
  show "wf (measure (\<lambda>(c, e). nat (\<bar>row e - row c\<bar> + \<bar>col e - col c\<bar>)))"
    by simp
next
  fix current end_pos :: Position
  assume "current \<noteq> end_pos"
  then have "row current \<noteq> row end_pos \<or> col current \<noteq> col end_pos"
    by (auto simp: Position.equality)
  then show "((next_step current end_pos, end_pos), (current, end_pos))
               \<in> measure (\<lambda>(c, e). nat (\<bar>row e - row c\<bar> + \<bar>col e - col c\<bar>))"
    by (auto simp: next_step_def)
qed

partial_function (option) line_loop ::
  "int \<Rightarrow> int \<Rightarrow> int \<Rightarrow> int \<Rightarrow> int \<Rightarrow> int \<Rightarrow> int \<Rightarrow> int \<Rightarrow> int \<Rightarrow> int \<Rightarrow> int
     \<Rightarrow> Position list \<Rightarrow> Position list option" where
  \<comment> \<open>The \<^verbatim>\<open>while True\<close> loop of \<^verbatim>\<open>_generate_line_path\<close>; \<open>None\<close> when it never breaks.\<close>
  "line_loop x0 y0 x1 y1 dx dy sx sy err x y acc =
     (let acc1 = (if x \<noteq> x0 \<or> y \<noteq> y0 then acc @ [\<lparr>row = y, col = x\<rparr>] else acc)
      in if x = x1 \<and> y = y1 then Some acc1
         else
           let e2 = 2 * err;
               err1 = (if e2 > - dy then err - dy else err);
               xn = (if e2 > - dy then x + sx else x);
               err2 = (if e2 < dx then err1 + dx else err1);
               yn = (if e2 < dx then y + sy else y)
           in line_loop x0 y0 x1 y1 dx dy sx sy err2 xn yn acc1)"

definition generate_line_path :: "Position \<Rightarrow> Position \<Rightarrow> Position list option" where
  "generate_line_path start end_pos =
     (let x0 = col start; y0 = row start; x1 = col end_pos; y1 = row end_pos;
          dx = \<bar>x1 - x0\<bar>; dy = \<bar>y1 - y0\<bar>;
          sx = (if x0 < x1 then 1 else - 1); sy = (if y0 < y1 then 1 else - 1)
      in line_loop x0 y0 x1 y1 dx dy sx sy (dx - dy) x0 y0 [])"

definition find_path :: "bool \<Rightarrow> Position \<Rightarrow> Position \<Rightarrow> Position list option" where
  \<comment> \<open>\<^verbatim>\<open>_find_path\<close>; its first argument is \<^verbatim>\<open>self.allow_diagonal_move\<close>.\<close>
  "find_path diagonal start end_pos =
     (if diagonal then generate_line_path start end_pos else Some (walk start end_pos))"

fun through_checkpoints ::
  "bool \<Rightarrow> Position list \<Rightarrow> Position \<Rightarrow> Position list \<Rightarrow> (Position list \<times> Position) option" where
  \<comment> \<open>The \<^verbatim>\<open>for checkpoint in checkpoints\<close> loop of \<^verbatim>\<open>_generate_path\<close>; it returns the
      path so far and \<^verbatim>\<open>current_pos\<close>.\<close>
  "through_checkpoints diagonal acc current_pos [] = Some (acc, current_pos)"
| "through_checkpoints diagonal acc current_pos (checkpoint_pos # rest) =
     (case find_path diagonal current_pos checkpoint_pos of
        None \<Rightarrow> None
      | Some seg \<Rightarrow> through_checkpoints diagonal (acc @ seg) checkpoint_pos rest)"

definition generate_path :: "Route \<Rightarrow> Position list option" where
  "generate_path r =
     (case through_checkpoints (allow_diagonal_move r) [start_position r] (start_position r)
             (case checkpoints r of None \<Rightarrow> [] | Some cs \<Rightarrow> cs) of
        None \<Rightarrow> None
      | Some (acc, current_pos) \<Rightarrow>
          (case find_path (allow_diagonal_move r) current_pos (end_position r) of
             None \<Rightarrow> None
           | Some seg \<Rightarrow> Some (acc @ seg)))"

text \<open>
  The orthogonal step mode in the words of the specification: reduce the coordinate with
  the larger remaining gap by one step, the row first when the gaps are equal.
\<close>

definition spec_next_step :: "Position \<Rightarrow> Position \<Rightarrow> Position" where
  "spec_next_step current end_pos =
     (if \<bar>row end_pos - row current\<bar> \<ge> \<bar>col end_pos - col current\<bar> then
        (if row current < row end_pos then current\<lparr>row := row current + 1\<rparr>
         else if row current > row end_pos then current\<lparr>row := row current - 1\<rparr>
         else current)
      else
        (if col current < col end_pos then current\<lparr>col := col current + 1\<rparr>
         else current\<lparr>col := col current - 1\<rparr>))"

function spec_walk :: "Position \<Rightarrow> Position \<Rightarrow> Position list" where
  "spec_walk current end_pos =
     (if current \<noteq> end_pos
      then spec_next_step current end_pos # spec_walk (spec_next_step current end_pos) end_pos
      else [])"
  by pat_completeness auto
termination
proof (relation "measure (\<lambda>(c, e). nat (\<bar>row e - row c\<bar> + \<bar>col e - col c\<bar>))")
  show "wf (measure (\<lambda>(c, e). nat (\<bar>row e - row c\<bar> + \<bar>col e - col c\<bar>)))"
    by simp
next
  fix current end_pos :: Position
  assume "current \<noteq> end_pos"
  then have "row current \<noteq> row end_pos \<or> col current \<noteq> col end_pos"
    by (auto simp: Position.equality)
  then show "((spec_next_step current end_pos, end_pos), (current, end_pos))
               \<in> measure (\<lambda>(c, e). nat (\<bar>row e - row c\<bar> + \<bar>col e - col c\<bar>))"
    by (auto simp: spec_next_step_def)
qed

definition adjacent :: "Position \<Rightarrow> Position \<Rightarrow> bool" where
  \<comment> \<open>Exactly one row apart or exactly one column apart, never both.\<close>
  "adjacent p q =
     ((\<bar>row q - row p\<bar> = 1 \<and> col q = col p) \<or> (row q = row p \<and> \<bar>col q - col p\<bar> = 1))"


subsection \<open>Waves\<close>

text \<open>
  \<^verbatim>\<open>WaveAction\<close>, \<^verbatim>\<open>WaveFragment\<close> and \<^verbatim>\<open>Wave\<close>, with the attributes the scheduler
  reads. Each class has its own \<^verbatim>\<open>pre_delay\<close>, \<^verbatim>\<open>is_active\<close>, \<^verbatim>\<open>is_completed\<close> and
  \<^verbatim>\<open>current_time\<close>; the fields carry the class as a prefix.
\<close>

record WaveAction =
  action_type :: string
  enemy_key :: string
  count :: int
  action_pre_delay :: real
  route_index :: int
  action_is_completed :: bool
  spawned_count :: int
  action_current_time :: real

record WaveFragment =
  fragment_pre_delay :: real
  actions :: "WaveAction list"
  fragment_is_active :: bool
  fragment_is_completed :: bool
  fragment_current_time :: real

record Wave =
  fragments :: "WaveFragment list"
  wave_is_active :: bool
  wave_is_completed :: bool
  wave_current_time :: real

subsection \<open>The world\<close>

text \<open>
  \<^verbatim>\<open>GameMap\<close>. \<open>tiles\<close> is the dictionary the constructor fills with the keys
  \<open>0, 1, ...\<close>; \<open>operators\<close> and \<open>enemies\<close> are the stores of the objects the world refers
  to, \<open>next_enemy_id\<close> is the class counter \<^verbatim>\<open>Enemy._next_id\<close>, which names the next enemy
  object, and \<open>enemy_database\<close> is \<^verbatim>\<open>data_loader.get_enemy_by_id(key, 0)\<close>, the lookup in
  the content tables.
\<close>

record GameMap =
  map_layout :: "int list list"
  rows :: int
  cols :: int
  tiles :: "Tile list"
  routes :: "Route list"
  waves :: "Wave list"
  character_limit :: int
  max_cost :: real
  cost_increase_time :: real
  current_cost :: real
  current_life_points :: int
  deployed_operators :: "nat list"
  active_enemies :: "nat list"
  current_wave_index :: int
  game_time :: real
  is_victory :: bool
  is_defeat :: bool
  operators :: "nat \<Rightarrow> Operator"
  enemies :: "nat \<Rightarrow> Enemy"
  next_enemy_id :: nat
  enemy_database :: "string \<Rightarrow> EnemyData option"

definition is_valid_position :: "Position \<Rightarrow> GameMap \<Rightarrow> bool" where
  "is_valid_position pos w = (0 \<le> row pos \<and> row pos < rows w \<and> 0 \<le> col pos \<and> col pos < cols w)"

definition tiles_get :: "Tile list \<Rightarrow> int \<Rightarrow> nat option" where
  \<comment> \<open>\<^verbatim>\<open>self.tiles.get(tile_index)\<close>: the tile of that key, as its place in the store.\<close>
  "tiles_get ts i = (if 0 \<le> i \<and> i < int (length ts) then Some (nat i) else None)"

definition get_tile_at :: "Position \<Rightarrow> GameMap \<Rightarrow> py_error + nat option" where
  "get_tile_at pos w =
     (if \<not> is_valid_position pos w then Inr None
      else
        let corrected_row = rows w - 1 - row pos
        in and_then (py_index (map_layout w) corrected_row) (\<lambda>layout_row.
           and_then (py_index layout_row (col pos)) (\<lambda>tile_index.
           Inr (tiles_get (tiles w) tile_index))))"

definition can_deploy_at :: "Position \<Rightarrow> nat \<Rightarrow> GameMap \<Rightarrow> py_error + bool" where
  "can_deploy_at pos oid w =
     and_then (get_tile_at pos w) (\<lambda>tile.
       case tile of
         None \<Rightarrow> Inr False
       | Some i \<Rightarrow> Inr (can_deploy_operator (tiles w ! i) (operators w oid)))"

definition check_operator_tile_compatibility :: "Operator \<Rightarrow> Tile \<Rightarrow> bool" where
  "check_operator_tile_compatibility operator tile =
     (let operator_position = position operator
      in if buildable_type tile = Buildable_NONE then False
         else if buildable_type tile = Buildable_ALL then True
         else if buildable_type tile = Buildable_MELEE
           then operator_position = PlacementClass ''MELEE''
         else if buildable_type tile = Buildable_RANGED
           then operator_position = PlacementClass ''RANGED''
         else False)"

definition deploy_operator ::
  "nat \<Rightarrow> Position \<Rightarrow> Direction \<Rightarrow> GameMap \<Rightarrow> py_error + OperationResult \<times> GameMap" where
  "deploy_operator oid pos dir w =
     (let operator = operators w oid
      in if \<not> is_valid_position pos w
         then Inr (failure_result (PositionInvalid (row pos) (col pos)), w)
         else and_then (get_tile_at pos w) (\<lambda>found.
           case found of
             None \<Rightarrow> Inr (failure_result (NoTileInfo (row pos) (col pos)), w)
           | Some i \<Rightarrow>
               (let tile = tiles w ! i
                in if deployed_operator tile \<noteq> None
                   then Inr (failure_result (PositionOccupied (row pos) (col pos)), w)
                   else if \<not> check_operator_tile_compatibility operator tile
                   then Inr (failure_result
                          (TypeMismatch (name operator) (position operator) (buildable_type tile)), w)
                   else if current_cost w < real_of_int (deploy_cost operator)
                   then Inr (failure_result
                          (InsufficientCost (deploy_cost operator) (current_cost w)), w)
                   else if int (length (deployed_operators w)) \<ge> character_limit w
                   then Inr (failure_result (CharacterLimitReached (character_limit w)), w)
                   else
                     (case tile_deploy_operator tile oid operator of
                        (True, tile') \<Rightarrow>
                          Inr (success_result,
                               w\<lparr>tiles := (tiles w)[i := tile'],
                                 operators := (operators w)(oid := deploy pos dir operator),
                                 deployed_operators := deployed_operators w @ [oid],
                                 current_cost := current_cost w - real_of_int (deploy_cost operator)\<rparr>)
                      | (False, _) \<Rightarrow> Inr (failure_result TileRefused, w)))))"

definition remove_operator :: "nat \<Rightarrow> GameMap \<Rightarrow> GameMap" where
  \<comment> \<open>\<^verbatim>\<open>Tile.remove_operator\<close> on the tile at place \<open>i\<close> of the store.\<close>
  "remove_operator i w =
     (case deployed_operator (tiles w ! i) of
        None \<Rightarrow> w
      | Some oid \<Rightarrow>
          w\<lparr>operators := (operators w)(oid := retreat (operators w oid)),
            tiles := (tiles w)[i := (tiles w ! i)\<lparr>deployed_operator := None\<rparr>]\<rparr>)"

definition retreat_operator :: "nat \<Rightarrow> GameMap \<Rightarrow> py_error + bool \<times> GameMap" where
  \<comment> \<open>\<^verbatim>\<open>get_tile_at\<close> reads \<^verbatim>\<open>.row\<close> of its argument, which a string does not have.\<close>
  "retreat_operator oid w =
     (if oid \<notin> set (deployed_operators w) then Inr (False, w)
      else
        and_then
          (if truthy (position (operators w oid)) then
             (case position (operators w oid) of
                AtPosition pos \<Rightarrow>
                  and_then (get_tile_at pos w) (\<lambda>tile.
                    case tile of None \<Rightarrow> Inr w | Some i \<Rightarrow> Inr (remove_operator i w))
              | _ \<Rightarrow> Inl AttributeError)
           else Inr w) (\<lambda>w1.
        let w2 = w1\<lparr>deployed_operators := remove1 oid (deployed_operators w1)\<rparr>
        in Inr (True, w2\<lparr>operators := (operators w2)(oid := retreat (operators w2 oid))\<rparr>)))"

definition spawn_enemy :: "string \<Rightarrow> int \<Rightarrow> GameMap \<Rightarrow> py_error + nat option \<times> GameMap" where
  "spawn_enemy enemy_id route_idx w =
     (case enemy_database w enemy_id of
        None \<Rightarrow> Inr (None, w)
      | Some enemy_data \<Rightarrow>
          (let uid = next_enemy_id w;
               enemy = Enemy_init uid enemy_id enemy_data
           in and_then
                (if route_idx < int (length (routes w))
                 then and_then (py_index (routes w) route_idx) (\<lambda>route. Inr (set_path (path route) enemy))
                 else Inr enemy) (\<lambda>enemy1.
              Inr (Some uid,
                   w\<lparr>enemies := (enemies w)(uid := enemy1), next_enemy_id := Suc uid,
                     active_enemies := active_enemies w @ [uid]\<rparr>))))"

definition row_first_step :: "Position \<Rightarrow> Position \<Rightarrow> Position \<Rightarrow> bool" where
  \<comment> \<open>From \<open>p\<close> to \<open>q\<close> is one step toward \<open>end_pos\<close>: along the row while the row differs
      from the row of \<open>end_pos\<close>, along the column otherwise.\<close>
  "row_first_step end_pos p q =
     (if row p \<noteq> row end_pos
      then col q = col p \<and> \<bar>row q - row p\<bar> = 1 \<and> \<bar>row end_pos - row q\<bar> = \<bar>row end_pos - row p\<bar> - 1
      else row q = row p \<and> \<bar>col q - col p\<bar> = 1 \<and> \<bar>col end_pos - col q\<bar> = \<bar>col end_pos - col p\<bar> - 1)"

fun linked :: "(Position \<Rightarrow> Position \<Rightarrow> bool) \<Rightarrow> Position list \<Rightarrow> bool" where
  \<comment> \<open>Every pair of consecutive waypoints is related.\<close>
  "linked R [] = True"
| "linked R [p] = True"
| "linked R (p # q # rest) = (R p q \<and> linked R (q # rest))"

subsection \<open>Loops\<close>

fun for_each :: "('a \<Rightarrow> 's \<Rightarrow> py_error + 's) \<Rightarrow> 'a list \<Rightarrow> 's \<Rightarrow> py_error + 's" where
  \<comment> \<open>\<^verbatim>\<open>for x in xs: body\<close>, the body acting on the state; an exception ends the loop.\<close>
  "for_each body [] s = Inr s"
| "for_each body (x # xs) s = and_then (body x s) (\<lambda>s1. for_each body xs s1)"

fun for_each_object ::
  "('a \<Rightarrow> 's \<Rightarrow> py_error + 'a \<times> 's) \<Rightarrow> 'a list \<Rightarrow> 's \<Rightarrow> py_error + 'a list \<times> 's" where
  \<comment> \<open>A loop whose body also changes the object at hand: the objects come back as the
      loop leaves them.\<close>
  "for_each_object body [] s = Inr ([], s)"
| "for_each_object body (x # xs) s =
     and_then (body x s) (\<lambda>r1.
       and_then (for_each_object body xs (snd r1)) (\<lambda>r2. Inr (fst r1 # fst r2, snd r2)))"

subsection \<open>The tick\<close>

definition list_remove :: "nat \<Rightarrow> nat list \<Rightarrow> py_error + nat list" where
  \<comment> \<open>\<^verbatim>\<open>xs.remove(x)\<close> drops the first occurrence and raises when there is none.\<close>
  "list_remove x xs = (if x \<in> set xs then Inr (remove1 x xs) else Inl ValueError)"

definition py_place :: "nat \<Rightarrow> int \<Rightarrow> py_error + nat" where
  \<comment> \<open>The place that \<^verbatim>\<open>xs[i]\<close> reads in a list of the given length.\<close>
  "py_place n i =
     (if 0 \<le> i \<and> i < int n then Inr (nat i)
      else if i < 0 \<and> - int n \<le> i then Inr (nat (int n + i))
      else Inl IndexError)"

definition operator_step :: "real \<Rightarrow> nat \<Rightarrow> GameMap \<Rightarrow> py_error + GameMap" where
  \<comment> \<open>The body of \<^verbatim>\<open>for operator in self.deployed_operators[:]\<close>.\<close>
  "operator_step delta_time oid w =
     and_then (operator_update delta_time (operators w oid)) (\<lambda>operator.
       let w1 = w\<lparr>operators := (operators w)(oid := operator)\<rparr>
       in if \<not> is_alive operator
          then and_then (retreat_operator oid w1) (\<lambda>r. Inr (snd r))
          else Inr w1)"

definition enemy_step :: "real \<Rightarrow> nat \<Rightarrow> GameMap \<Rightarrow> py_error + GameMap" where
  \<comment> \<open>The body of \<^verbatim>\<open>for enemy in self.active_enemies[:]\<close>.\<close>
  "enemy_step delta_time eid w =
     and_then (enemy_update delta_time (enemies w eid)) (\<lambda>enemy.
       let w1 = w\<lparr>enemies := (enemies w)(eid := enemy)\<rparr>
       in if has_reached_goal enemy then
            and_then (list_remove eid (active_enemies w1)) (\<lambda>remaining.
              let w2 = w1\<lparr>current_life_points := current_life_points w1 - 1,
                          active_enemies := remaining\<rparr>
              in Inr (if current_life_points w2 \<le> 0 then w2\<lparr>is_defeat := True\<rparr> else w2))
          else if \<not> is_alive enemy then
            and_then (list_remove eid (active_enemies w1)) (\<lambda>remaining.
              Inr (w1\<lparr>active_enemies := remaining\<rparr>))
          else Inr w1)"

fun closest_in_range ::
  "GameMap \<Rightarrow> Operator \<Rightarrow> nat list \<Rightarrow> nat option \<times> real option \<Rightarrow> py_error + nat option" where
  \<comment> \<open>The second loop of \<^verbatim>\<open>_find_attack_target\<close>; the pair is \<^verbatim>\<open>closest_enemy\<close> and
      \<^verbatim>\<open>closest_distance\<close>, with \<open>None\<close> for the infinite distance.\<close>
  "closest_in_range w operator [] best = Inr (fst best)"
| "closest_in_range w operator (eid # rest) best =
     (let enemy = enemies w eid
      in if \<not> is_alive enemy \<or> \<not> truthy (position enemy)
         then closest_in_range w operator rest best
         else and_then (can_attack operator (position enemy)) (\<lambda>can.
           if can then
             (case (position operator, position enemy) of
                (AtPosition p, AtPosition q) \<Rightarrow>
                  (let distance = distance_to p q
                   in if (case snd best of None \<Rightarrow> True | Some closest \<Rightarrow> distance < closest)
                      then closest_in_range w operator rest (Some eid, Some distance)
                      else closest_in_range w operator rest best)
              | _ \<Rightarrow> Inl AttributeError)
           else closest_in_range w operator rest best))"

definition find_attack_target :: "nat \<Rightarrow> GameMap \<Rightarrow> py_error + nat option" where
  "find_attack_target oid w =
     (let operator = operators w oid
      in if \<not> truthy (position operator) then Inr None
         else case find (\<lambda>eid. is_alive (enemies w eid)) (blocked_enemies operator) of
                Some eid \<Rightarrow> Inr (Some eid)
              | None \<Rightarrow> closest_in_range w operator (active_enemies w) (None, None))"

definition operator_attack :: "nat \<Rightarrow> GameMap \<Rightarrow> py_error + GameMap" where
  \<comment> \<open>The body of the first loop of \<^verbatim>\<open>_process_combat\<close>.\<close>
  "operator_attack oid w =
     (if attack_cooldown (operators w oid) \<le> 0 then
        and_then (find_attack_target oid w) (\<lambda>found.
          case found of
            None \<Rightarrow> Inr w
          | Some eid \<Rightarrow>
              and_then (take_damage (atk (operators w oid)) False (enemies w eid)) (\<lambda>hit.
                let w1 = w\<lparr>enemies := (enemies w)(eid := snd hit)\<rparr>
                in and_then (py_div (base_attack_time (operators w1 oid))
                                    (attack_speed (operators w1 oid))) (\<lambda>cooldown.
                     Inr (w1\<lparr>operators := (operators w1)
                               (oid := (operators w1 oid)\<lparr>attack_cooldown := cooldown\<rparr>)\<rparr>))))
      else Inr w)"

definition enemy_attack :: "nat \<Rightarrow> GameMap \<Rightarrow> py_error + GameMap" where
  \<comment> \<open>The body of the second loop of \<^verbatim>\<open>_process_combat\<close>.\<close>
  "enemy_attack eid w =
     (if is_blocked (enemies w eid) \<and> attack_cooldown (enemies w eid) \<le> 0 then
        (case blocked_by (enemies w eid) of
           None \<Rightarrow> Inr w
         | Some oid \<Rightarrow>
             and_then (take_damage (atk (enemies w eid)) False (operators w oid)) (\<lambda>hit.
               let w1 = w\<lparr>operators := (operators w)(oid := snd hit)\<rparr>
               in and_then (py_div (base_attack_time (enemies w1 eid))
                                   (attack_speed (enemies w1 eid))) (\<lambda>cooldown.
                    Inr (w1\<lparr>enemies := (enemies w1)
                              (eid := (enemies w1 eid)\<lparr>attack_cooldown := cooldown\<rparr>)\<rparr>))))
      else Inr w)"

definition process_combat :: "real \<Rightarrow> GameMap \<Rightarrow> py_error + GameMap" where
  "process_combat delta_time w =
     and_then (for_each operator_attack (deployed_operators w) w) (\<lambda>w1.
       for_each enemy_attack (active_enemies w1) w1)"

definition block_enemy :: "nat \<Rightarrow> GameMap \<Rightarrow> py_error + GameMap" where
  \<comment> \<open>The body of the first loop of \<^verbatim>\<open>_process_blocking\<close>.\<close>
  "block_enemy eid w =
     (if is_blocked (enemies w eid) \<or> \<not> truthy (position (enemies w eid)) then Inr w
      else case position (enemies w eid) of
        AtPosition pos \<Rightarrow>
          and_then (get_tile_at pos w) (\<lambda>tile.
            case tile of
              None \<Rightarrow> Inr w
            | Some i \<Rightarrow>
                (case deployed_operator (tiles w ! i) of
                   None \<Rightarrow> Inr w
                 | Some oid \<Rightarrow>
                     if int (length (blocked_enemies (operators w oid)))
                          < max_block_count (operators w oid)
                     then Inr (w\<lparr>enemies := (enemies w)(eid := get_blocked_by oid (enemies w eid)),
                                 operators := (operators w)
                                   (oid := (operators w oid)
                                      \<lparr>blocked_enemies := blocked_enemies (operators w oid) @ [eid]\<rparr>)\<rparr>)
                     else Inr w))
      | _ \<Rightarrow> Inl AttributeError)"

definition purge_dead_enemies :: "nat \<Rightarrow> GameMap \<Rightarrow> py_error + GameMap" where
  \<comment> \<open>The body of the second loop of \<^verbatim>\<open>_process_blocking\<close>.\<close>
  "purge_dead_enemies oid w =
     Inr (w\<lparr>operators := (operators w)
            (oid := (operators w oid)
               \<lparr>blocked_enemies :=
                  filter (\<lambda>e. is_alive (enemies w e)) (blocked_enemies (operators w oid))\<rparr>)\<rparr>)"

definition release_orphan :: "nat \<Rightarrow> GameMap \<Rightarrow> py_error + GameMap" where
  \<comment> \<open>The body of the third loop of \<^verbatim>\<open>_process_blocking\<close>.\<close>
  "release_orphan eid w =
     (case blocked_by (enemies w eid) of
        None \<Rightarrow> Inr w
      | Some oid \<Rightarrow>
          if is_blocked (enemies w eid)
             \<and> (oid \<notin> set (deployed_operators w) \<or> \<not> is_alive (operators w oid))
          then Inr (w\<lparr>enemies := (enemies w)(eid := release_block (enemies w eid))\<rparr>)
          else Inr w)"

definition process_blocking :: "GameMap \<Rightarrow> py_error + GameMap" where
  "process_blocking w =
     and_then (for_each block_enemy (active_enemies w) w) (\<lambda>w1.
     and_then (for_each purge_dead_enemies (deployed_operators w1) w1) (\<lambda>w2.
     for_each release_orphan (active_enemies w2) w2))"

definition action_step :: "real \<Rightarrow> WaveAction \<Rightarrow> GameMap \<Rightarrow> py_error + WaveAction \<times> GameMap" where
  \<comment> \<open>The body of \<^verbatim>\<open>for action in fragment.actions\<close>.\<close>
  "action_step delta_time action w =
     (if \<not> action_is_completed action then
        (let a1 = action\<lparr>action_current_time := action_current_time action + delta_time\<rparr>
         in if action_current_time a1 \<ge> action_pre_delay a1 then
              (if action_type a1 = ''SPAWN'' then
                 (if spawned_count a1 < count a1 then
                    and_then (spawn_enemy (enemy_key a1) (route_index a1) w) (\<lambda>spawned.
                      let a2 = a1\<lparr>spawned_count := spawned_count a1 + 1\<rparr>
                      in Inr (if spawned_count a2 \<ge> count a2
                              then a2\<lparr>action_is_completed := True\<rparr> else a2,
                              snd spawned))
                  else Inr (a1, w))
               else Inr (a1\<lparr>action_is_completed := True\<rparr>, w))
            else Inr (a1, w))
      else Inr (action, w))"

definition fragment_step ::
  "real \<Rightarrow> real \<Rightarrow> WaveFragment \<Rightarrow> GameMap \<Rightarrow> py_error + WaveFragment \<times> GameMap" where
  \<comment> \<open>The body of \<^verbatim>\<open>for fragment in current_wave.fragments\<close>; the second argument is
      \<^verbatim>\<open>current_wave.current_time\<close>.\<close>
  "fragment_step delta_time wave_time fragment w =
     (let f1 = (if \<not> fragment_is_active fragment \<and> wave_time \<ge> fragment_pre_delay fragment
                then fragment\<lparr>fragment_is_active := True\<rparr> else fragment)
      in if fragment_is_active f1 \<and> \<not> fragment_is_completed f1 then
           (let f2 = f1\<lparr>fragment_current_time := fragment_current_time f1 + delta_time\<rparr>
            in and_then (for_each_object (action_step delta_time) (actions f2) w) (\<lambda>acted.
                 let f3 = f2\<lparr>actions := fst acted\<rparr>
                 in Inr (if list_all action_is_completed (fst acted)
                         then f3\<lparr>fragment_is_completed := True\<rparr> else f3,
                         snd acted)))
         else Inr (f1, w))"

definition advance_wave :: "real \<Rightarrow> Wave \<Rightarrow> Wave" where
  \<comment> \<open>The start of \<^verbatim>\<open>_update_waves\<close>: the current wave is made active and its clock
      advances.\<close>
  "advance_wave delta_time current_wave =
     (let wave1 = (if \<not> wave_is_active current_wave
                   then current_wave\<lparr>wave_is_active := True\<rparr> else current_wave)
      in wave1\<lparr>wave_current_time := wave_current_time wave1 + delta_time\<rparr>)"

definition finish_wave :: "nat \<Rightarrow> Wave \<Rightarrow> WaveFragment list \<Rightarrow> GameMap \<Rightarrow> GameMap" where
  \<comment> \<open>The end of \<^verbatim>\<open>_update_waves\<close>: the wave at place \<open>k\<close> holds its fragments as the
      loop left them, and is completed when all of them are.\<close>
  "finish_wave k wave frags w =
     (let wave3 = wave\<lparr>fragments := frags\<rparr>
      in if list_all fragment_is_completed frags
         then w\<lparr>waves := (waves w)[k := wave3\<lparr>wave_is_completed := True\<rparr>],
                current_wave_index := current_wave_index w + 1\<rparr>
         else w\<lparr>waves := (waves w)[k := wave3]\<rparr>)"

definition update_waves :: "real \<Rightarrow> GameMap \<Rightarrow> py_error + GameMap" where
  "update_waves delta_time w =
     (if current_wave_index w \<ge> int (length (waves w)) then Inr w
      else and_then (py_place (length (waves w)) (current_wave_index w)) (\<lambda>k.
        let wave2 = advance_wave delta_time (waves w ! k)
        in and_then (for_each_object (fragment_step delta_time (wave_current_time wave2))
                       (fragments wave2) w)
             (\<lambda>scheduled. Inr (finish_wave k wave2 (fst scheduled) (snd scheduled)))))"

definition check_victory :: "GameMap \<Rightarrow> GameMap" where
  \<comment> \<open>The last statement of \<^verbatim>\<open>update\<close>.\<close>
  "check_victory w =
     (if current_wave_index w \<ge> int (length (waves w)) \<and> active_enemies w = []
         \<and> current_life_points w > 0 \<and> \<not> is_defeat w
      then w\<lparr>is_victory := True\<rparr> else w)"

definition update_sequence :: "real \<Rightarrow> GameMap \<Rightarrow> py_error + GameMap" where
  \<comment> \<open>\<^verbatim>\<open>update\<close> up to the victory check. The loops over the operators and over the
      enemies run on copies of the rosters taken when they start.\<close>
  "update_sequence delta_time w =
     (let w1 = w\<lparr>game_time := game_time w + delta_time\<rparr>
      in and_then (py_div delta_time (cost_increase_time w1)) (\<lambda>gain.
         let w2 = w1\<lparr>current_cost := min (max_cost w1) (current_cost w1 + gain)\<rparr>
         in and_then (for_each (operator_step delta_time) (deployed_operators w2) w2) (\<lambda>w3.
            and_then (for_each (enemy_step delta_time) (active_enemies w3) w3) (\<lambda>w4.
            and_then (process_combat delta_time w4) (\<lambda>w5.
            and_then (process_blocking w5) (\<lambda>w6.
            update_waves delta_time w6))))))"

definition update :: "real \<Rightarrow> GameMap \<Rightarrow> py_error + GameMap" where
  "update delta_time w = and_then (update_sequence delta_time w) (\<lambda>w7. Inr (check_victory w7))"

text \<open>
  A run: the calls a script makes on the world between its ticks, and the ticks, in order.
\<close>

datatype command =
    Tick real
  | Deploy nat Position Direction
  | Retreat nat
  | Spawn string int

definition execute :: "command \<Rightarrow> GameMap \<Rightarrow> py_error + GameMap" where
  "execute c w =
     (case c of
        Tick delta_time \<Rightarrow> update delta_time w
      | Deploy oid pos dir \<Rightarrow> and_then (deploy_operator oid pos dir w) (\<lambda>r. Inr (snd r))
      | Retreat oid \<Rightarrow> and_then (retreat_operator oid w) (\<lambda>r. Inr (snd r))
      | Spawn enemy_id route_idx \<Rightarrow> and_then (spawn_enemy enemy_id route_idx w) (\<lambda>r. Inr (snd r)))"

definition run :: "command list \<Rightarrow> GameMap \<Rightarrow> py_error + GameMap" where
  "run cs w = for_each execute cs w"


section \<open>Example worlds\<close>

text \<open>
  A map of one row and three columns: a melee tile, a tile open to every class and a ranged
  tile, with one route along the row. Operator 1 costs more than the world holds, operator
  2 is ranged, every other operator is the melee operator \<open>demo_melee\<close>.
\<close>

definition demo_melee :: Operator where
  "demo_melee =
     \<lparr>entity_id = ''char_melee'', name = ''melee'', position = PlacementClass ''MELEE'',
      max_hp = 100, current_hp = 100, atk = 30, defense = 10, magic_resistance = 0,
      move_speed = 1, attack_speed = 100, base_attack_time = 1, block_count = 1,
      is_alive = True, buffs = [], debuffs = [], target = None, attack_cooldown = 0,
      skills = [], active_skill_index = 0, direction = RIGHT, deploy_cost = 3,
      is_deployed = False, deploy_time = 0, blocked_enemies = [], max_block_count = 1,
      operator_current_sp = None\<rparr>"

definition demo_costly :: Operator where
  "demo_costly = demo_melee\<lparr>deploy_cost := 20\<rparr>"

definition demo_ranged :: Operator where
  "demo_ranged = demo_melee\<lparr>position := PlacementClass ''RANGED'', max_block_count := 0\<rparr>"

definition demo_data :: EnemyData where
  "demo_data =
     \<lparr>data_name = ''slug'', data_max_hp = 50, data_atk = 20, data_def = 0,
      data_magic_resistance = 0, data_move_speed = 1, data_attack_speed = 1,
      data_base_attack_time = 1\<rparr>"

definition demo_route :: Route where
  "demo_route =
     \<lparr>start_position = \<lparr>row = 0, col = 0\<rparr>, end_position = \<lparr>row = 0, col = 2\<rparr>,
      checkpoints = None, allow_diagonal_move = False,
      path = [\<lparr>row = 0, col = 0\<rparr>, \<lparr>row = 0, col = 1\<rparr>, \<lparr>row = 0, col = 2\<rparr>]\<rparr>"

definition demo_world :: GameMap where
  "demo_world =
     \<lparr>map_layout = [[0, 1, 2]], rows = 1, cols = 3,
      tiles = [\<lparr>buildable_type = Buildable_MELEE, deployed_operator = None\<rparr>,
               \<lparr>buildable_type = Buildable_ALL, deployed_operator = None\<rparr>,
               \<lparr>buildable_type = Buildable_RANGED, deployed_operator = None\<rparr>],
      routes = [demo_route], waves = [], character_limit = 8, max_cost = 99,
      cost_increase_time = 1, current_cost = 10, current_life_points = 3,
      deployed_operators = [], active_enemies = [], current_wave_index = 0, game_time = 0,
      is_victory = False, is_defeat = False,
      operators = (\<lambda>_. demo_melee)(1 := demo_costly, 2 := demo_ranged),
      enemies = (\<lambda>_. Enemy_init 0 [] demo_data), next_enemy_id = 0,
      enemy_database = (\<lambda>_. None)(''slug'' := Some demo_data)\<rparr>"

definition demo_level :: SkillLevel where
  "demo_level =
     \<lparr>level_name = ''timed'', skill_type = MANUAL, duration_type = SECONDS, duration = 5,
      sp_type = INCREASE_WITH_TIME, sp_cost = 10, init_sp = 10, max_charge_time = 1,
      increment = 1, effects = Map.empty\<rparr>"

definition demo_skill :: Skill where
  "demo_skill =
     \<lparr>skill_id = ''skill_timed'', levels = [demo_level], current_level = 0, current_sp = 10,
      charge_count = 0, is_active = False, remaining_duration = 0, remaining_ammo = 0\<rparr>"

text \<open>
  The example world after operator 0 was deployed on the melee tile and operator 2 on the
  ranged tile.
\<close>

definition crowded_world :: GameMap where
  "crowded_world =
     demo_world
       \<lparr>tiles := [\<lparr>buildable_type = Buildable_MELEE, deployed_operator = Some 0\<rparr>,
                  \<lparr>buildable_type = Buildable_ALL, deployed_operator = None\<rparr>,
                  \<lparr>buildable_type = Buildable_RANGED, deployed_operator = Some 2\<rparr>],
        operators := (\<lambda>_. demo_melee)
          (1 := demo_costly,
           0 := deploy \<lparr>row = 0, col = 0\<rparr> RIGHT demo_melee,
           2 := deploy \<lparr>row = 0, col = 2\<rparr> LEFT demo_ranged),
        deployed_operators := [0, 2],
        current_cost := 4\<rparr>"

text \<open>A route with two checkpoints and diagonal movement disabled.\<close>

definition demo_checkpoint_route :: Route where
  "demo_checkpoint_route =
     \<lparr>start_position = \<lparr>row = 0, col = 0\<rparr>, end_position = \<lparr>row = 2, col = 2\<rparr>,
      checkpoints = Some [\<lparr>row = 1, col = 2\<rparr>, \<lparr>row = 2, col = 1\<rparr>],
      allow_diagonal_move = False, path = []\<rparr>"

text \<open>
  The enemy that \<^verbatim>\<open>spawn_enemy\<close> makes from the entry \<open>slug\<close> on the route of the example
  world, and the example world after its first tick and that spawn.
\<close>

definition demo_slug :: Enemy where
  "demo_slug = set_path (path demo_route) (Enemy_init 0 ''slug'' demo_data)"

definition slug_world :: GameMap where
  "slug_world = demo_world\<lparr>game_time := 1, current_cost := 11, is_victory := True,
              enemies := (enemies demo_world)(0 := demo_slug),
              next_enemy_id := 1, active_enemies := [0]\<rparr>"

text \<open>
  The example world with one life point after the same spawn, and that world after a tick
  of two seconds, in which the enemy walks the whole route.
\<close>

definition last_life_world :: GameMap where
  "last_life_world =
     demo_world\<lparr>current_life_points := 1, enemies := (enemies demo_world)(0 := demo_slug),
                next_enemy_id := 1, active_enemies := [0]\<rparr>"

definition breached_world :: GameMap where
  "breached_world =
     last_life_world
       \<lparr>game_time := 2, current_cost := 12, current_life_points := 0, active_enemies := [],
        is_defeat := True,
        enemies := (enemies last_life_world)
          (0 := demo_slug\<lparr>path_index := 2, position := AtPosition \<lparr>row = 0, col = 2\<rparr>,
                         has_reached_goal := True\<rparr>)\<rparr>"

text \<open>
  The crowded world after the same spawn: the enemy stands on the tile of operator 0. One
  tick later the operator blocks it.
\<close>

definition guarded_world :: GameMap where
  "guarded_world =
     crowded_world\<lparr>enemies := (enemies crowded_world)(0 := demo_slug),
                   next_enemy_id := 1, active_enemies := [0]\<rparr>"

definition engaged_world :: GameMap where
  "engaged_world =
     guarded_world
       \<lparr>game_time := 1/10, current_cost := 41/10,
        operators := (operators guarded_world)
          (0 := (operators guarded_world 0)\<lparr>deploy_time := 1/10, blocked_enemies := [0]\<rparr>,
           2 := (operators guarded_world 2)\<lparr>deploy_time := 1/10\<rparr>),
        enemies := (enemies guarded_world)
          (0 := get_blocked_by 0 (demo_slug\<lparr>move_progress := 1/10\<rparr>))\<rparr>"

text \<open>
  An outpost: the example world with one wave, which spawns one enemy on the route, and
  with operator 3, a melee operator of 10 hit points. The worlds that follow are the
  outpost after operator 3 was deployed on the tile where the route starts and after each
  of the next three ticks of a tenth of a second: the enemy appears, the operator blocks
  it, the enemy kills the operator.
\<close>

definition demo_recruit :: Operator where
  "demo_recruit = demo_melee\<lparr>max_hp := 10, current_hp := 10\<rparr>"

definition demo_wave :: Wave where
  "demo_wave =
     \<lparr>fragments =
        [\<lparr>fragment_pre_delay = 0,
          actions = [\<lparr>action_type = ''SPAWN'', enemy_key = ''slug'', count = 1,
                      action_pre_delay = 0, route_index = 0, action_is_completed = False,
                      spawned_count = 0, action_current_time = 0\<rparr>],
          fragment_is_active = False, fragment_is_completed = False,
          fragment_current_time = 0\<rparr>],
      wave_is_active = False, wave_is_completed = False, wave_current_time = 0\<rparr>"

definition outpost_world :: GameMap where
  "outpost_world =
     demo_world\<lparr>waves := [demo_wave], operators := (operators demo_world)(3 := demo_recruit)\<rparr>"

definition outpost_manned :: GameMap where
  "outpost_manned =
     outpost_world\<lparr>tiles := (tiles outpost_world)
                      [0 := \<lparr>buildable_type = Buildable_MELEE, deployed_operator = Some 3\<rparr>],
                   operators := (operators outpost_world)
                      (3 := deploy \<lparr>row = 0, col = 0\<rparr> RIGHT demo_recruit),
                   deployed_operators := [3], current_cost := 7\<rparr>"

definition outpost_reached :: GameMap where
  "outpost_reached =
     outpost_manned
       \<lparr>game_time := 1/10, current_cost := 71/10,
        operators := (operators outpost_manned)
          (3 := (deploy \<lparr>row = 0, col = 0\<rparr> RIGHT demo_recruit)\<lparr>deploy_time := 1/10\<rparr>),
        enemies := (enemies outpost_manned)(0 := demo_slug), next_enemy_id := 1,
        active_enemies := [0],
        waves := [demo_wave
          \<lparr>fragments :=
             [\<lparr>fragment_pre_delay = 0,
               actions = [\<lparr>action_type = ''SPAWN'', enemy_key = ''slug'', count = 1,
                           action_pre_delay = 0, route_index = 0, action_is_completed = True,
                           spawned_count = 1, action_current_time = 1/10\<rparr>],
               fragment_is_active = True, fragment_is_completed = True,
               fragment_current_time = 1/10\<rparr>],
           wave_is_active := True, wave_is_completed := True, wave_current_time := 1/10\<rparr>],
        current_wave_index := 1\<rparr>"

definition outpost_engaged :: GameMap where
  "outpost_engaged =
     outpost_reached
       \<lparr>game_time := 1/5, current_cost := 36/5,
        operators := (operators outpost_reached)
          (3 := (deploy \<lparr>row = 0, col = 0\<rparr> RIGHT demo_recruit)
                  \<lparr>deploy_time := 1/5, blocked_enemies := [0]\<rparr>),
        enemies := (enemies outpost_reached)
          (0 := get_blocked_by 3 (demo_slug\<lparr>move_progress := 1/10\<rparr>))\<rparr>"

definition outpost_fallen :: GameMap where
  "outpost_fallen =
     outpost_engaged
       \<lparr>game_time := 3/10, current_cost := 73/10,
        operators := (operators outpost_engaged)
          (3 := (deploy \<lparr>row = 0, col = 0\<rparr> RIGHT demo_recruit)
                  \<lparr>blocked_enemies := [0], deploy_time := 3/10, attack_cooldown := 1/100,
                   current_hp := 0, is_alive := False\<rparr>),
        enemies := (enemies outpost_engaged)
          (0 := release_block
                  ((get_blocked_by 3 (demo_slug\<lparr>move_progress := 1/10\<rparr>))
                     \<lparr>current_hp := 20, attack_cooldown := 1\<rparr>))\<rparr>"



section \<open>Predicates of the statements\<close>

definition ops_shrink :: "(nat \<Rightarrow> Operator) \<Rightarrow> (nat \<Rightarrow> Operator) \<Rightarrow> bool" where
  \<comment> \<open>From one store of operators to the other no block capacity changes and no list of
      blocked enemies grows.\<close>
  "ops_shrink ops ops' =
     (\<forall>oid. max_block_count (ops' oid) = max_block_count (ops oid)
          \<and> length (blocked_enemies (ops' oid)) \<le> length (blocked_enemies (ops oid)))"

definition operators_phase :: "GameMap \<Rightarrow> GameMap \<Rightarrow> bool" where
  "operators_phase w w' =
     (\<exists>T D ops. w' = w\<lparr>tiles := T, deployed_operators := D, operators := ops\<rparr>
        \<and> ops_shrink (operators w) ops)"

definition enemies_phase :: "GameMap \<Rightarrow> GameMap \<Rightarrow> bool" where
  "enemies_phase w w' =
     (\<exists>L A F E. w' = w\<lparr>current_life_points := L, active_enemies := A, is_defeat := F, enemies := E\<rparr>
        \<and> L \<le> current_life_points w
        \<and> (F \<longleftrightarrow> is_defeat w \<or> (L \<le> 0 \<and> L < current_life_points w)))"

definition fight_phase :: "GameMap \<Rightarrow> GameMap \<Rightarrow> bool" where
  "fight_phase w w' =
     (\<exists>ops E. w' = w\<lparr>operators := ops, enemies := E\<rparr>
        \<and> (\<forall>e. has_reached_goal (E e) = has_reached_goal (enemies w e)))"

definition ops_step :: "GameMap \<Rightarrow> GameMap \<Rightarrow> bool" where
  "ops_step w w' = ops_shrink (operators w) (operators w')"

definition within_capacity :: "GameMap \<Rightarrow> bool" where
  "within_capacity w =
     (\<forall>oid. int (length (blocked_enemies (operators w oid))) \<le> max_block_count (operators w oid))"

definition backref_ok :: "GameMap \<Rightarrow> nat \<Rightarrow> bool" where
  "backref_ok w eid =
     (\<forall>oid. is_blocked (enemies w eid) \<and> blocked_by (enemies w eid) = Some oid \<longrightarrow>
        oid \<in> set (deployed_operators w) \<and> is_alive (operators w oid))"

definition release_phase :: "GameMap \<Rightarrow> GameMap \<Rightarrow> bool" where
  "release_phase w w' =
     (operators w' = operators w \<and> deployed_operators w' = deployed_operators w
      \<and> (\<forall>e. enemies w' e = enemies w e \<or> \<not> is_blocked (enemies w' e)))"

definition spawn_phase :: "GameMap \<Rightarrow> GameMap \<Rightarrow> bool" where
  "spawn_phase w w' =
     (\<exists>W I E N. w' = w\<lparr>waves := W, active_enemies := active_enemies w @ [next_enemy_id w..<N],
                         current_wave_index := I, enemies := E, next_enemy_id := N\<rparr>
        \<and> next_enemy_id w \<le> N
        \<and> (\<forall>e. e < next_enemy_id w \<or> N \<le> e \<longrightarrow> E e = enemies w e)
        \<and> (\<forall>e. next_enemy_id w \<le> e \<and> e < N \<longrightarrow>
              \<not> is_blocked (E e) \<and> \<not> has_reached_goal (E e)))"

definition roster_ok :: "GameMap \<Rightarrow> bool" where
  "roster_ok w =
     (distinct (active_enemies w) \<and> (\<forall>e \<in> set (active_enemies w). e < next_enemy_id w))"

definition blocks :: "GameMap \<Rightarrow> nat \<Rightarrow> nat \<Rightarrow> bool" where
  \<comment> \<open>The enemy's side of the blocking relation: the enemy is blocked and its
      back-reference is the operator.\<close>
  "blocks w oid eid = (is_blocked (enemies w eid) \<and> blocked_by (enemies w eid) = Some oid)"

definition keeps_blocks :: "GameMap \<Rightarrow> GameMap \<Rightarrow> bool" where
  "keeps_blocks w w' = (\<forall>oid eid. blocks w oid eid \<longrightarrow> blocks w' oid eid)"

definition loosens_blocks :: "GameMap \<Rightarrow> GameMap \<Rightarrow> bool" where
  "loosens_blocks w w' = (\<forall>oid eid. blocks w' oid eid \<longrightarrow> blocks w oid eid)"

fun countdown :: "real \<Rightarrow> real list \<Rightarrow> real" where
  \<comment> \<open>What is left of a duration after the steps of time, each subtraction a float
      subtraction.\<close>
  "countdown r [] = r"
| "countdown r (dt # dts) = countdown (fl (r - dt)) dts"

fun exact_countdown :: "real \<Rightarrow> real list \<Rightarrow> bool" where
  \<comment> \<open>No subtraction of the countdown is changed by the rounding.\<close>
  "exact_countdown r [] = True"
| "exact_countdown r (dt # dts) = (fl (r - dt) = r - dt \<and> exact_countdown (r - dt) dts)"

definition victory_conditions :: "GameMap \<Rightarrow> bool" where
  \<comment> \<open>The condition that \<^verbatim>\<open>update\<close> tests before it sets the victory flag.\<close>
  "victory_conditions w =
     (current_wave_index w \<ge> int (length (waves w)) \<and> active_enemies w = []
      \<and> current_life_points w > 0 \<and> \<not> is_defeat w)"

definition scripted :: "command \<Rightarrow> bool" where
  \<comment> \<open>What \<^verbatim>\<open>run_simulation\<close> does to the map: ticks, and the deploys and retreats of the
      battle plan. Enemies are spawned by the waves only.\<close>
  "scripted c = (case c of Spawn enemy_id route_idx \<Rightarrow> False | _ \<Rightarrow> True)"

definition lives_kept :: "GameMap \<Rightarrow> GameMap \<Rightarrow> bool" where
  "lives_kept w w' = (\<forall>e. is_alive (enemies w e) \<longrightarrow> is_alive (enemies w' e))"

definition lists_follow :: "GameMap \<Rightarrow> GameMap \<Rightarrow> bool" where
  \<comment> \<open>No list of blocked enemies lost an entry, and an enemy that is blocked now was
      blocked by the same operator before or is in the list of its blocker.\<close>
  "lists_follow w w' =
     ((\<forall>oid. set (blocked_enemies (operators w oid)) \<subseteq> set (blocked_enemies (operators w' oid)))
      \<and> (\<forall>oid eid. blocks w' oid eid \<longrightarrow>
             blocks w oid eid \<or> eid \<in> set (blocked_enemies (operators w' oid))))"



section \<open>Results chained through \<open>and_then\<close>\<close>

lemma and_then_Inr [simp]: "and_then (Inr x) f = f x"
  by (simp add: and_then_def)

lemma and_then_Inl [simp]: "and_then (Inl e) f = Inl e"
  by (simp add: and_then_def)

lemma and_then_eq_Inr: "and_then m f = Inr y \<longleftrightarrow> (\<exists>x. m = Inr x \<and> f x = Inr y)"
  by (cases m) simp_all


section \<open>Floats\<close>

text \<open>
  \<open>binade\<close> is the exponent it is meant to be, \<open>fl\<close> is within half a spacing of its
  argument, and it leaves a float as it is.
\<close>

lemma bit_length_bounds:
  "0 < n \<Longrightarrow> 2 ^ (bit_length n - 1) \<le> n \<and> n < 2 ^ bit_length n"
proof (induction n rule: bit_length.induct)
  case (1 n)
  show ?case
  proof (cases "n div 2 = 0")
    case True
    with "1.prems" have "n = 1" by (auto simp: div_eq_0_iff)
    then show ?thesis by (simp add: bit_length.simps)
  next
    case False
    with "1.IH" "1.prems" have ih: "2 ^ (bit_length (n div 2) - 1) \<le> n div 2"
      "n div 2 < 2 ^ bit_length (n div 2)"
      by simp_all
    have len: "bit_length n = Suc (bit_length (n div 2))"
      using "1.prems" by (subst bit_length.simps) simp
    have pos: "0 < bit_length (n div 2)"
      using False by (subst bit_length.simps) simp
    from ih(1) have "2 * 2 ^ (bit_length (n div 2) - 1) \<le> n" by linarith
    moreover have "2 * 2 ^ (bit_length (n div 2) - 1) = (2::nat) ^ bit_length (n div 2)"
      using pos by (cases "bit_length (n div 2)") simp_all
    ultimately have low: "2 ^ bit_length (n div 2) \<le> n" by simp
    from ih(2) have "n < 2 * 2 ^ bit_length (n div 2)" by linarith
    with low len show ?thesis by simp
  qed
qed

lemma pow2_pos [simp]: "0 < pow2 k"
  by (simp add: pow2_def)

lemma pow2_nonzero [simp]: "pow2 k \<noteq> 0"
  by (simp add: pow2_def)

lemma abs_pow2 [simp]: "\<bar>pow2 k\<bar> = pow2 k"
  using pow2_pos [of k] by (simp only: abs_of_pos)

lemma pow2_add: "pow2 (a + b) = pow2 a * pow2 b"
proof -
  have "pow2 k = 2 powi k" for k
    by (cases "0 \<le> k") (simp_all add: pow2_def power_int_def power_one_over)
  then show ?thesis by (simp add: power_int_add)
qed

lemma pow2_nat: "pow2 (int n) = 2 ^ n"
  by (simp add: pow2_def)

lemma pow2_neg: "pow2 (- k) = 1 / pow2 k"
  using pow2_add [of k "- k"] by (simp add: field_simps pow2_def)

lemma pow2_mono: "a \<le> b \<Longrightarrow> pow2 a \<le> pow2 b"
proof -
  assume "a \<le> b"
  then have "pow2 (b - a) = 2 ^ nat (b - a)" by (simp add: pow2_def)
  then have "1 \<le> pow2 (b - a)" by simp
  moreover have "pow2 b = pow2 a * pow2 (b - a)"
    using pow2_add [of a "b - a"] by simp
  ultimately show ?thesis by simp
qed

lemma binade_bracket:
  assumes "0 < x"
  shows "pow2 (binade x) \<le> x \<and> x < pow2 (binade x + 1)"
proof (cases "1 \<le> x")
  case True
  define n where "n = nat \<lfloor>x\<rfloor>"
  from True have n: "0 < n" "real n \<le> x" "x < real n + 1"
    by (simp_all add: n_def)
  from bit_length_bounds [OF n(1)] have b: "2 ^ (bit_length n - 1) \<le> n" "n < 2 ^ bit_length n"
    by simp_all
  have pos: "0 < bit_length n" using n(1) by (subst bit_length.simps) simp
  have e: "binade x = int (bit_length n - 1)"
    using True pos by (simp add: binade_def n_def)
  have e1: "binade x + 1 = int (bit_length n)" using e pos by simp
  have r1: "(2::real) ^ (bit_length n - 1) \<le> real n"
    using of_nat_mono [OF b(1), where 'a = real] by simp
  have "n + 1 \<le> 2 ^ bit_length n" using b(2) by simp
  from of_nat_mono [OF this, where 'a = real]
  have r2: "real n + 1 \<le> 2 ^ bit_length n" by simp
  have low: "pow2 (binade x) \<le> x"
    using order_trans [OF r1 n(2)] by (simp only: e pow2_nat)
  have "x < pow2 (binade x + 1)"
    using less_le_trans [OF n(3) r2] by (simp only: e1 pow2_nat)
  with low show ?thesis by simp
next
  case False
  define y where "y = 1 / x"
  from False assms have y: "1 < y" by (simp add: y_def)
  have xy: "x = 1 / y" by (simp add: y_def)
  define m where "m = nat (\<lceil>y\<rceil> - 1)"
  from y have c: "2 \<le> \<lceil>y\<rceil>" by linarith
  have m0: "0 < m" using c by (simp add: m_def)
  have "real m = of_int \<lceil>y\<rceil> - 1" using c by (simp add: m_def)
  then have m: "real m < y" "y \<le> real m + 1" by linarith+
  from bit_length_bounds [OF m0] have b: "2 ^ (bit_length m - 1) \<le> m" "m < 2 ^ bit_length m"
    by simp_all
  have pos: "0 < bit_length m" using m0 by (subst bit_length.simps) simp
  have e: "binade x = - int (bit_length m)"
    using False by (simp add: binade_def m_def y_def)
  have e1: "binade x + 1 = - int (bit_length m - 1)" using e pos by simp
  have r1: "(2::real) ^ (bit_length m - 1) \<le> real m"
    using of_nat_mono [OF b(1), where 'a = real] by simp
  have "m + 1 \<le> 2 ^ bit_length m" using b(2) by simp
  from of_nat_mono [OF this, where 'a = real]
  have r2: "real m + 1 \<le> 2 ^ bit_length m" by simp
  from order_trans [OF m(2) r2] have "y \<le> 2 ^ bit_length m" .
  with y have "1 / 2 ^ bit_length m \<le> 1 / y"
    by (intro divide_left_mono) simp_all
  moreover have "pow2 (binade x) = 1 / 2 ^ bit_length m"
    by (simp only: e pow2_neg pow2_nat)
  ultimately have low: "pow2 (binade x) \<le> x"
    using xy by simp
  from le_less_trans [OF r1 m(1)] have "2 ^ (bit_length m - 1) < y" .
  with frac_less2 [of 1 1 "2 ^ (bit_length m - 1)" y]
  have "1 / y < 1 / 2 ^ (bit_length m - 1)"
    by simp
  moreover have "pow2 (binade x + 1) = 1 / 2 ^ (bit_length m - 1)"
    by (simp only: e1 pow2_neg pow2_nat)
  ultimately have "x < pow2 (binade x + 1)"
    using xy by simp
  with low show ?thesis by simp
qed

lemma round_half_even_nearest: "\<bar>y - of_int (round_half_even y)\<bar> \<le> 1 / 2"
proof -
  have "of_int \<lfloor>y\<rfloor> \<le> y" "y < of_int \<lfloor>y\<rfloor> + 1" by linarith+
  then show ?thesis by (auto simp: round_half_even_def Let_def)
qed

lemma round_half_even_of_int [simp]: "round_half_even (of_int i) = i"
  by (simp add: round_half_even_def)

lemma fl_error:
  "\<bar>fl x - x\<bar> \<le> pow2 (ulp_exponent x) / 2"
proof (cases "x = 0")
  case True
  then show ?thesis by (simp add: fl_def less_imp_le)
next
  case False
  define u where "u = pow2 (ulp_exponent x)"
  have u: "0 < u" by (simp add: u_def)
  have "fl x - x = (of_int (round_half_even (x / u)) - x / u) * u"
    using False u by (simp add: fl_def u_def field_simps)
  then have "\<bar>fl x - x\<bar> = \<bar>x / u - of_int (round_half_even (x / u))\<bar> * u"
    using u by (simp add: abs_mult abs_minus_commute)
  also have "\<dots> \<le> (1 / 2) * u"
    using round_half_even_nearest [of "x / u"] u by (intro mult_right_mono) simp_all
  finally show ?thesis by (simp add: u_def)
qed

lemma fl_representable:
  assumes "\<bar>m\<bar> < 2 ^ 53" and "- 1074 \<le> k"
  shows "fl (of_int m * pow2 k) = of_int m * pow2 k"
proof (cases "m = 0")
  case True
  then show ?thesis by (simp add: fl_def)
next
  case False
  define x where "x = of_int m * pow2 k"
  have x0: "x \<noteq> 0" using False by (simp add: x_def)
  have ax: "\<bar>x\<bar> = of_int \<bar>m\<bar> * pow2 k"
    by (simp add: x_def abs_mult)
  have "of_int \<bar>m\<bar> < (2::real) ^ 53"
    using assms(1) by (metis of_int_less_iff of_int_numeral of_int_power)
  then have "\<bar>x\<bar> < 2 ^ 53 * pow2 k"
    by (simp add: ax)
  also have "\<dots> = pow2 (53 + k)"
    using pow2_add [of 53 k] by (simp add: pow2_def)
  finally have up: "\<bar>x\<bar> < pow2 (53 + k)" .
  have "pow2 (binade \<bar>x\<bar>) \<le> \<bar>x\<bar>"
    using binade_bracket [of "\<bar>x\<bar>"] x0 by simp
  with up have "pow2 (binade \<bar>x\<bar>) < pow2 (53 + k)" by simp
  then have "binade \<bar>x\<bar> < 53 + k"
    using pow2_mono [of "53 + k" "binade \<bar>x\<bar>"] by (cases "binade \<bar>x\<bar> < 53 + k") simp_all
  with assms(2) have le: "ulp_exponent x \<le> k"
    by (simp add: ulp_exponent_def)
  define d where "d = nat (k - ulp_exponent x)"
  define u where "u = pow2 (ulp_exponent x)"
  have u0: "u \<noteq> 0" by (simp add: u_def)
  have "pow2 k = pow2 (ulp_exponent x) * pow2 (int d)"
    using pow2_add [of "ulp_exponent x" "int d"] le by (simp add: d_def)
  then have k: "pow2 k = u * 2 ^ d"
    by (simp add: pow2_nat u_def)
  have xm: "x = of_int (m * 2 ^ d) * u"
    by (simp add: x_def k)
  then have "x / u = of_int (m * 2 ^ d)"
    using u0 by simp
  then have "round_half_even (x / u) = m * 2 ^ d"
    by (simp only: round_half_even_of_int)
  then have "fl x = of_int (m * 2 ^ d) * u"
    using x0 by (simp only: fl_def u_def [symmetric] if_False)
  with xm have "fl x = x" by simp
  then show ?thesis by (simp only: x_def)
qed

text \<open>The definitions that the evaluation of a rounding unfolds.\<close>

lemmas float_simps =
  fl_def overflows_def ulp_exponent_def binade_def bit_length.simps pow2_def
  round_half_even_def Let_def

lemma fl_one_tenth: "fl (1/10) = 3602879701896397/36028797018963968"
  by (simp add: float_simps)

lemma fl_two_tenths: "fl (2/10) = 3602879701896397/18014398509481984"
  by (simp add: float_simps)

lemma fl_nine_tenths: "fl (9/10) = 8106479329266893/9007199254740992"
  by (simp add: float_simps)

lemma replicate_numeral: "replicate (numeral k) x = x # replicate (pred_numeral k) x"
  by (simp add: numeral_eq_Suc)


section \<open>Damage\<close>

lemma max_one_py_int: "max 1 (py_int x) = max 1 \<lfloor>x\<rfloor>"
proof (cases "0 \<le> x")
  case True
  then show ?thesis by (simp add: py_int_def)
next
  case False
  then have "\<lceil>x\<rceil> \<le> 0" and "\<lfloor>x\<rfloor> \<le> 0"
    by (simp_all add: ceiling_le_iff floor_le_iff)
  with False show ?thesis by (simp add: py_int_def)
qed

lemma take_damage_physical [simp]:
  "take_damage damage False e
     = Inr (max 1 (damage - defense e), lose_hp (max 1 (damage - defense e)) e)"
  by (simp add: take_damage_def)

lemma take_damage_arts:
  "take_damage damage True e =
     (if overflows (of_int damage)
           \<or> overflows (fl (of_int damage) * fl (1 - magic_resistance e))
      then Inl OverflowError
      else Inr (max 1 \<lfloor>fl (fl (of_int damage) * fl (1 - magic_resistance e))\<rfloor>,
                lose_hp (max 1 \<lfloor>fl (fl (of_int damage) * fl (1 - magic_resistance e))\<rfloor>) e))"
  by (simp add: take_damage_def float_of_int_def int_of_product_def max_one_py_int)

lemma take_damage_result:
  assumes "take_damage damage is_arts e = Inr (actual, e')"
  shows "1 \<le> actual" and "e' = lose_hp actual e"
  using assms by (auto simp: take_damage_def and_then_eq_Inr split: if_splits)

lemma lose_hp_fields:
  "current_hp (lose_hp actual e) = max 0 (current_hp e - actual)"
  "is_alive (lose_hp actual e) = (is_alive e \<and> current_hp (lose_hp actual e) \<noteq> 0)"
  by (auto simp: lose_hp_def Let_def max_def)

text \<open>
  Claim C3, amended. A physical hit inflicts \<open>max 1 (attack - defense)\<close>. An arts hit
  inflicts \<open>max 1 \<lfloor>p\<rfloor>\<close>, where \<open>p\<close> is the product of the attack and one less the
  resistance in float arithmetic: the difference, the conversion of the attack and the
  product are each rounded to the nearest float; it is the value of the claim whenever
  none of the three is changed by the rounding, and the call raises \<^verbatim>\<open>OverflowError\<close>
  when the attack or the product is beyond the floats. Whatever the defense or the
  resistance, the damage returned is at least 1, the hit points left are the old ones less
  the damage, clamped at 0, and the entity is marked dead exactly when they reach 0 (an
  entity that was alive stays alive otherwise).
\<close>

theorem take_damage_formula:
  "take_damage damage False e
     = Inr (max 1 (damage - defense e), lose_hp (max 1 (damage - defense e)) e)
   \<and> (\<not> overflows (of_int damage)
        \<and> \<not> overflows (fl (of_int damage) * fl (1 - magic_resistance e)) \<longrightarrow>
      (\<exists>e'. take_damage damage True e
               = Inr (max 1 \<lfloor>fl (fl (of_int damage) * fl (1 - magic_resistance e))\<rfloor>, e')))
   \<and> (\<not> overflows (of_int damage)
        \<and> fl (of_int damage) = of_int damage
        \<and> fl (1 - magic_resistance e) = 1 - magic_resistance e
        \<and> \<not> overflows (of_int damage * (1 - magic_resistance e))
        \<and> fl (of_int damage * (1 - magic_resistance e)) = of_int damage * (1 - magic_resistance e) \<longrightarrow>
      (\<exists>e'. take_damage damage True e
               = Inr (max 1 \<lfloor>of_int damage * (1 - magic_resistance e)\<rfloor>, e')))
   \<and> (overflows (of_int damage)
        \<or> overflows (fl (of_int damage) * fl (1 - magic_resistance e)) \<longrightarrow>
      take_damage damage True e = Inl OverflowError)
   \<and> (\<forall>actual e'. take_damage damage is_arts e = Inr (actual, e') \<longrightarrow>
        1 \<le> actual
        \<and> current_hp e' = max 0 (current_hp e - actual)
        \<and> is_alive e' = (is_alive e \<and> current_hp e' \<noteq> 0))"
proof -
  have result: "\<forall>actual e'. take_damage damage is_arts e = Inr (actual, e') \<longrightarrow>
        1 \<le> actual
        \<and> current_hp e' = max 0 (current_hp e - actual)
        \<and> is_alive e' = (is_alive e \<and> current_hp e' \<noteq> 0)"
    using take_damage_result [of damage is_arts e] lose_hp_fields by blast
  have exact: "\<not> overflows (of_int damage)
        \<and> fl (of_int damage) = of_int damage
        \<and> fl (1 - magic_resistance e) = 1 - magic_resistance e
        \<and> \<not> overflows (of_int damage * (1 - magic_resistance e))
        \<and> fl (of_int damage * (1 - magic_resistance e)) = of_int damage * (1 - magic_resistance e) \<longrightarrow>
      (\<exists>e'. take_damage damage True e
               = Inr (max 1 \<lfloor>of_int damage * (1 - magic_resistance e)\<rfloor>, e'))"
    by (simp add: take_damage_arts)
  from result exact show ?thesis
    by (simp add: take_damage_arts)
qed


theorem take_damage_formula_witness:
  "\<not> overflows (of_int 100) \<and> fl (of_int 100) = of_int 100
   \<and> fl (1 - magic_resistance (demo_melee\<lparr>magic_resistance := 1/2\<rparr>))
       = 1 - magic_resistance (demo_melee\<lparr>magic_resistance := 1/2\<rparr>)
   \<and> \<not> overflows (of_int 100 * (1 - magic_resistance (demo_melee\<lparr>magic_resistance := 1/2\<rparr>)))
   \<and> take_damage 100 True (demo_melee\<lparr>magic_resistance := 1/2\<rparr>)
       = Inr (50, demo_melee\<lparr>magic_resistance := 1/2, current_hp := 50\<rparr>)
   \<and> take_damage 100 True (demo_melee\<lparr>magic_resistance := 1/2, current_hp := 50\<rparr>)
       = Inr (50, demo_melee\<lparr>magic_resistance := 1/2, current_hp := 0, is_alive := False\<rparr>)"
  using take_damage_formula [of 100 "demo_melee\<lparr>magic_resistance := 1/2\<rparr>" True]
  by (simp add: take_damage_arts lose_hp_def demo_melee_def float_simps)

text \<open>
  The claim as stated takes the product exactly. With attack 100 against the float
  nearest to 0.9 the code inflicts 9, where \<open>\<lfloor>100 * (1 - 0.9)\<rfloor>\<close> is 10; with attack 5
  against the float nearest to 0.2 it inflicts 4, where the exact product with that float
  has the floor 3.
\<close>

theorem arts_damage_is_rounded:
  "take_damage 100 True (demo_melee\<lparr>magic_resistance := fl (9/10)\<rparr>)
     = Inr (9, demo_melee\<lparr>magic_resistance := fl (9/10), current_hp := 91\<rparr>)
   \<and> max 1 \<lfloor>of_int 100 * (1 - 9/10 :: real)\<rfloor> = 10
   \<and> take_damage 5 True (demo_melee\<lparr>magic_resistance := fl (2/10)\<rparr>)
     = Inr (4, demo_melee\<lparr>magic_resistance := fl (2/10), current_hp := 96\<rparr>)
   \<and> max 1 \<lfloor>of_int 5 * (1 - fl (2/10))\<rfloor> = 3"
  by (simp add: fl_nine_tenths fl_two_tenths take_damage_arts lose_hp_def demo_melee_def)
     (simp add: float_simps)


section \<open>Timed skills\<close>

lemma get_current_level_cong:
  "levels s' = levels s \<Longrightarrow> current_level s' = current_level s \<Longrightarrow>
   get_current_level s' = get_current_level s"
  by (simp add: get_current_level_def)

lemma update_durations_inactive:
  "\<not> is_active s \<Longrightarrow> update_durations dts s = Inr s"
  by (induction dts) (simp_all add: update_duration_def)

lemma countdown_steps:
  "(\<forall>n. 1 \<le> n \<and> n \<le> length (dt # dts) \<longrightarrow> 0 < countdown r (take n (dt # dts)))
   \<longleftrightarrow> 0 < fl (r - dt)
       \<and> (\<forall>n. 1 \<le> n \<and> n \<le> length dts \<longrightarrow> 0 < countdown (fl (r - dt)) (take n dts))"
  (is "?L \<longleftrightarrow> ?R")
proof
  assume L: ?L
  have "0 < countdown r (take 1 (dt # dts))"
    using L by force
  then have first: "0 < fl (r - dt)" by simp
  have "\<forall>n. 1 \<le> n \<and> n \<le> length dts \<longrightarrow> 0 < countdown (fl (r - dt)) (take n dts)"
  proof (intro allI impI)
    fix n assume "1 \<le> n \<and> n \<le> length dts"
    then have "1 \<le> Suc n \<and> Suc n \<le> length (dt # dts)" by simp
    with L have "0 < countdown r (take (Suc n) (dt # dts))" by blast
    then show "0 < countdown (fl (r - dt)) (take n dts)" by simp
  qed
  with first show ?R by simp
next
  assume R: ?R
  show ?L
  proof (intro allI impI)
    fix n assume n: "1 \<le> n \<and> n \<le> length (dt # dts)"
    then obtain m where m: "n = Suc m" by (cases n) auto
    show "0 < countdown r (take n (dt # dts))"
    proof (cases m)
      case 0
      with m R show ?thesis by simp
    next
      case (Suc k)
      with m n have "1 \<le> m \<and> m \<le> length dts" by simp
      with R have "0 < countdown (fl (r - dt)) (take m dts)" by blast
      with m show ?thesis by simp
    qed
  qed
qed

lemma update_durations_seconds:
  assumes "get_current_level s = Inr level" and "duration_type level = SECONDS"
    and "is_active s"
  shows "\<exists>s2. update_durations dts s = Inr s2 \<and>
           (is_active s2 \<longleftrightarrow>
              (\<forall>n. 1 \<le> n \<and> n \<le> length dts \<longrightarrow> 0 < countdown (remaining_duration s) (take n dts)))"
  using assms
proof (induction dts arbitrary: s)
  case Nil
  then show ?case by simp
next
  case (Cons dt dts)
  let ?s1 = "s\<lparr>remaining_duration := fl (remaining_duration s - dt)\<rparr>"
  have lvl1: "get_current_level ?s1 = Inr level"
    using Cons.prems(1) get_current_level_cong [of ?s1 s] by simp
  note steps = countdown_steps [of dt dts "remaining_duration s"]
  show ?case
  proof (cases "fl (remaining_duration s - dt) \<le> 0")
    case True
    then have step: "update_duration dt s = Inr (deactivate ?s1)"
      using Cons.prems by (simp add: update_duration_def Let_def)
    have "\<not> is_active (deactivate ?s1)" by (simp add: deactivate_def)
    then have "update_durations (dt # dts) s = Inr (deactivate ?s1)"
      using step by (simp add: update_durations_inactive)
    moreover have "\<not> (\<forall>n. 1 \<le> n \<and> n \<le> length (dt # dts) \<longrightarrow>
                      0 < countdown (remaining_duration s) (take n (dt # dts)))"
      using True steps by simp
    ultimately show ?thesis by (simp add: deactivate_def)
  next
    case False
    then have step: "update_duration dt s = Inr ?s1"
      using Cons.prems by (simp add: update_duration_def Let_def)
    from Cons.IH [OF lvl1 Cons.prems(2)] Cons.prems(3)
    obtain s2 where run: "update_durations dts ?s1 = Inr s2"
      and act: "is_active s2 \<longleftrightarrow>
         (\<forall>n. 1 \<le> n \<and> n \<le> length dts \<longrightarrow>
            0 < countdown (fl (remaining_duration s - dt)) (take n dts))"
      by auto
    from False have "0 < fl (remaining_duration s - dt)" by simp
    with steps act have "is_active s2 \<longleftrightarrow>
        (\<forall>n. 1 \<le> n \<and> n \<le> length (dt # dts) \<longrightarrow>
           0 < countdown (remaining_duration s) (take n (dt # dts)))"
      by simp
    with run step show ?thesis by simp
  qed
qed

lemma exact_countdown_sum:
  "exact_countdown r dts \<Longrightarrow> n \<le> length dts \<Longrightarrow>
   countdown r (take n dts) = r - sum_list (take n dts)"
proof (induction dts arbitrary: r n)
  case Nil
  then show ?case by simp
next
  case (Cons dt dts)
  show ?case
  proof (cases n)
    case 0
    then show ?thesis by simp
  next
    case (Suc m)
    with Cons.prems have "exact_countdown (r - dt) dts" "m \<le> length dts" "fl (r - dt) = r - dt"
      by simp_all
    with Cons.IH [of "r - dt" m] Suc show ?thesis by simp
  qed
qed

text \<open>
  Claim C10, amended. A skill whose current level has the duration type \<open>SECONDS\<close> and the
  duration \<open>D\<close> is, after a successful activation, active with a countdown of \<open>D\<close>. Each
  \<^verbatim>\<open>update_duration\<close> call takes its step of time off the countdown by a float
  subtraction. After any sequence of calls the skill is still active exactly when the
  countdown stayed positive at each of them: it is switched off by the first call at which
  the countdown reaches 0 or falls below, and stays off. When no subtraction is changed by
  the rounding, the countdown is \<open>D\<close> less the accumulated time, and the skill is active
  exactly when the accumulated time stayed strictly below \<open>D\<close>.
\<close>

theorem timed_skill_active_window:
  assumes "get_current_level s = Inr level" and "duration_type level = SECONDS"
    and "activate s = Inr (True, s1)"
  shows "is_active s1 \<and> remaining_duration s1 = duration level \<and>
         (\<exists>s2. update_durations dts s1 = Inr s2 \<and>
            (is_active s2 \<longleftrightarrow>
               (\<forall>n. 1 \<le> n \<and> n \<le> length dts \<longrightarrow> 0 < countdown (duration level) (take n dts))) \<and>
            (exact_countdown (duration level) dts \<longrightarrow>
               (is_active s2 \<longleftrightarrow>
                  (\<forall>n. 1 \<le> n \<and> n \<le> length dts \<longrightarrow> sum_list (take n dts) < duration level))))"
proof -
  have now: "activate_now s = Inr (True, s1)"
    using assms(3) by (auto simp: activate_def and_then_eq_Inr split: if_splits)
  then have s1: "is_active s1" "remaining_duration s1 = duration level"
    "levels s1 = levels s" "current_level s1 = current_level s"
    using assms(1,2) by (auto simp: activate_now_def Let_def split: if_splits)
  then have "get_current_level s1 = Inr level"
    using assms(1) get_current_level_cong [of s1 s] by simp
  from update_durations_seconds [OF this assms(2) s1(1), of dts] s1(2)
  obtain s2 where run: "update_durations dts s1 = Inr s2"
    and act: "is_active s2 \<longleftrightarrow>
       (\<forall>n. 1 \<le> n \<and> n \<le> length dts \<longrightarrow> 0 < countdown (duration level) (take n dts))"
    by auto
  have "is_active s2 \<longleftrightarrow>
          (\<forall>n. 1 \<le> n \<and> n \<le> length dts \<longrightarrow> sum_list (take n dts) < duration level)"
    if "exact_countdown (duration level) dts"
    using act exact_countdown_sum [OF that] by auto
  with run act s1 show ?thesis by blast
qed

theorem timed_skill_active_window_witness:
  "get_current_level demo_skill = Inr demo_level \<and> duration_type demo_level = SECONDS
   \<and> activate demo_skill
       = Inr (True, demo_skill\<lparr>current_sp := 0, is_active := True, remaining_duration := 5\<rparr>)
   \<and> exact_countdown (duration demo_level) [2, 2, 2]
   \<and> (\<exists>s2. update_durations [2, 2, 2]
               (demo_skill\<lparr>current_sp := 0, is_active := True, remaining_duration := 5\<rparr>) = Inr s2
          \<and> \<not> is_active s2)"
proof -
  have lvl: "get_current_level demo_skill = Inr demo_level"
    by (simp add: get_current_level_def demo_skill_def py_index_def)
  have sec: "duration_type demo_level = SECONDS"
    by (simp add: demo_level_def)
  have act: "activate demo_skill
       = Inr (True, demo_skill\<lparr>current_sp := 0, is_active := True, remaining_duration := 5\<rparr>)"
    by (simp add: activate_def can_activate_def activate_now_def lvl)
       (simp add: demo_level_def demo_skill_def)
  have exact: "exact_countdown (duration demo_level) [2, 2, 2]"
    by (simp add: demo_level_def float_simps)
  have "\<not> (\<forall>n. 1 \<le> n \<and> n \<le> length [2, 2, 2 :: real] \<longrightarrow>
             sum_list (take n [2, 2, 2]) < duration demo_level)"
  proof
    assume "\<forall>n. 1 \<le> n \<and> n \<le> length [2, 2, 2 :: real] \<longrightarrow>
             sum_list (take n [2, 2, 2]) < duration demo_level"
    then have "sum_list (take 3 [2, 2, 2 :: real]) < duration demo_level" by force
    then show False by (simp add: demo_level_def)
  qed
  with timed_skill_active_window [OF lvl sec act, of "[2, 2, 2]"] lvl sec act exact
  show ?thesis by auto
qed

text \<open>
  The claim as stated fails on the example of the specification, with the step of the
  simulator: after a skill of 5 seconds was activated and updated 50 times by the float
  nearest to 0.1, the accumulated time has reached the 5 seconds, and the skill is still
  active, with a countdown of \<open>37 / 2 ^ 55\<close> left.
\<close>

lemma demo_skill_step:
  "update_duration dt (demo_skill\<lparr>current_sp := 0, is_active := True, remaining_duration := r\<rparr>)
     = Inr (if fl (r - dt) \<le> 0
            then demo_skill\<lparr>current_sp := 0, is_active := False, remaining_duration := 0\<rparr>
            else demo_skill\<lparr>current_sp := 0, is_active := True, remaining_duration := fl (r - dt)\<rparr>)"
  by (simp add: update_duration_def get_current_level_def demo_skill_def demo_level_def
        py_index_def deactivate_def Let_def)

theorem timed_skill_outlasts_fifty_tenths:
  "activate demo_skill
     = Inr (True, demo_skill\<lparr>current_sp := 0, is_active := True, remaining_duration := 5\<rparr>)
   \<and> update_durations (replicate 50 (fl (1/10)))
         (demo_skill\<lparr>current_sp := 0, is_active := True, remaining_duration := 5\<rparr>)
       = Inr (demo_skill\<lparr>current_sp := 0, is_active := True,
                remaining_duration := 37/36028797018963968\<rparr>)
   \<and> duration demo_level \<le> sum_list (replicate 50 (fl (1/10)))
   \<and> duration demo_level \<le> 50 * (1/10)"
proof -
  have lvl: "get_current_level demo_skill = Inr demo_level"
    by (simp add: get_current_level_def demo_skill_def py_index_def)
  have act: "activate demo_skill
       = Inr (True, demo_skill\<lparr>current_sp := 0, is_active := True, remaining_duration := 5\<rparr>)"
    by (simp add: activate_def can_activate_def activate_now_def lvl)
       (simp add: demo_level_def demo_skill_def)
  have run: "update_durations (replicate 50 (3602879701896397/36028797018963968))
         (demo_skill\<lparr>current_sp := 0, is_active := True, remaining_duration := 5\<rparr>)
       = Inr (demo_skill\<lparr>current_sp := 0, is_active := True,
                remaining_duration := 37/36028797018963968\<rparr>)"
    by (simp add: replicate_numeral demo_skill_step float_simps)
  have sum: "duration demo_level \<le> sum_list (replicate 50 (3602879701896397/36028797018963968))"
    by (simp add: sum_list_replicate demo_level_def)
  have "duration demo_level \<le> 50 * (1/10)"
    by (simp add: demo_level_def)
  with act run sum show ?thesis
    by (simp only: fl_one_tenth)
qed



section \<open>Deployment\<close>

lemma can_deploy_operator_compatible:
  "can_deploy_operator tile operator \<longleftrightarrow>
     deployed_operator tile = None \<and> check_operator_tile_compatibility operator tile"
  by (cases "buildable_type tile")
     (simp_all add: can_deploy_operator_def check_operator_tile_compatibility_def)

lemma get_tile_at_Some_valid:
  "get_tile_at pos w = Inr (Some i) \<Longrightarrow> is_valid_position pos w \<and> i < length (tiles w)"
  by (auto simp: get_tile_at_def and_then_eq_Inr tiles_get_def Let_def split: if_splits)

lemma get_tile_at_invalid: "\<not> is_valid_position pos w \<Longrightarrow> get_tile_at pos w = Inr None"
  by (simp add: get_tile_at_def)

lemma get_tile_at_cong:
  "map_layout w' = map_layout w \<Longrightarrow> rows w' = rows w \<Longrightarrow> cols w' = cols w \<Longrightarrow>
   length (tiles w') = length (tiles w) \<Longrightarrow> get_tile_at pos w' = get_tile_at pos w"
  by (simp add: get_tile_at_def is_valid_position_def tiles_get_def)

lemma deploy_operator_success_iff:
  "(\<exists>res w'. deploy_operator oid pos dir w = Inr (res, w') \<and> success res) \<longleftrightarrow>
     can_deploy_at pos oid w = Inr True
     \<and> real_of_int (deploy_cost (operators w oid)) \<le> current_cost w
     \<and> int (length (deployed_operators w)) < character_limit w"
proof (cases "get_tile_at pos w")
  case (Inl e)
  then show ?thesis
    by (auto simp: deploy_operator_def can_deploy_at_def failure_result_def Let_def)
next
  case (Inr found)
  show ?thesis
  proof (cases found)
    case None
    with Inr show ?thesis
      by (auto simp: deploy_operator_def can_deploy_at_def failure_result_def Let_def)
  next
    case (Some i)
    with Inr have "is_valid_position pos w"
      using get_tile_at_Some_valid by blast
    with Inr Some show ?thesis
      by (auto simp: deploy_operator_def can_deploy_at_def failure_result_def success_result_def
            Let_def tile_deploy_operator_def can_deploy_operator_compatible)
  qed
qed

lemma deploy_operator_success_world:
  assumes "deploy_operator oid pos dir w = Inr (res, w')" and "success res"
  shows "\<exists>i. get_tile_at pos w = Inr (Some i) \<and> i < length (tiles w)
           \<and> deployed_operator (tiles w ! i) = None
           \<and> res = success_result
           \<and> w' = w\<lparr>tiles := (tiles w)[i := (tiles w ! i)\<lparr>deployed_operator := Some oid\<rparr>],
                     operators := (operators w)(oid := deploy pos dir (operators w oid)),
                     deployed_operators := deployed_operators w @ [oid],
                     current_cost := current_cost w - real_of_int (deploy_cost (operators w oid))\<rparr>"
proof (cases "get_tile_at pos w")
  case (Inl e)
  with assms show ?thesis
    by (auto simp: deploy_operator_def failure_result_def Let_def split: if_splits)
next
  case (Inr found)
  show ?thesis
  proof (cases found)
    case None
    with Inr assms show ?thesis
      by (auto simp: deploy_operator_def failure_result_def Let_def split: if_splits)
  next
    case (Some i)
    with Inr have "i < length (tiles w)"
      using get_tile_at_Some_valid by blast
    with Inr Some assms show ?thesis
      by (auto simp: deploy_operator_def failure_result_def success_result_def Let_def
            tile_deploy_operator_def split: if_splits)
  qed
qed

lemma deploy_operator_failure_world:
  assumes "deploy_operator oid pos dir w = Inr (res, w')" and "\<not> success res"
  shows "w' = w \<and> (\<exists>r. res = failure_result r)"
proof (cases "get_tile_at pos w")
  case (Inl e)
  with assms show ?thesis
    by (auto simp: deploy_operator_def Let_def split: if_splits)
next
  case (Inr found)
  show ?thesis
  proof (cases found)
    case None
    with Inr assms show ?thesis
      by (auto simp: deploy_operator_def Let_def split: if_splits)
  next
    case (Some i)
    with Inr assms show ?thesis
      by (auto simp: deploy_operator_def success_result_def Let_def
            tile_deploy_operator_def split: if_splits)
  qed
qed

lemma deploy_operator_raises:
  "deploy_operator oid pos dir w = Inl e \<Longrightarrow> is_valid_position pos w \<and> get_tile_at pos w = Inl e"
  by (cases "get_tile_at pos w")
     (auto simp: deploy_operator_def Let_def tile_deploy_operator_def
        split: if_splits option.splits)

text \<open>
  Claim C4. \<^verbatim>\<open>deploy_operator\<close> never succeeds where \<^verbatim>\<open>can_deploy_at\<close> returns false;
  and where \<^verbatim>\<open>can_deploy_at\<close> returns true, the current cost covers the deploy cost and
  the roster is below the character limit, \<^verbatim>\<open>deploy_operator\<close> succeeds.
\<close>

theorem can_deploy_at_agrees_with_deploy_operator:
  "(can_deploy_at pos oid w = Inr False \<longrightarrow>
      (\<forall>res w'. deploy_operator oid pos dir w = Inr (res, w') \<longrightarrow> \<not> success res))
   \<and> (can_deploy_at pos oid w = Inr True
        \<and> real_of_int (deploy_cost (operators w oid)) \<le> current_cost w
        \<and> int (length (deployed_operators w)) < character_limit w \<longrightarrow>
      (\<exists>w'. deploy_operator oid pos dir w = Inr (success_result, w')))"
proof (intro conjI impI allI)
  fix res w'
  assume "can_deploy_at pos oid w = Inr False" and "deploy_operator oid pos dir w = Inr (res, w')"
  then show "\<not> success res"
    using deploy_operator_success_iff [of oid pos dir w] by auto
next
  assume "can_deploy_at pos oid w = Inr True
        \<and> real_of_int (deploy_cost (operators w oid)) \<le> current_cost w
        \<and> int (length (deployed_operators w)) < character_limit w"
  then obtain res w' where ok: "deploy_operator oid pos dir w = Inr (res, w')" "success res"
    using deploy_operator_success_iff [of oid pos dir w] by blast
  then have "res = success_result"
    using deploy_operator_success_world by blast
  with ok show "\<exists>w'. deploy_operator oid pos dir w = Inr (success_result, w')" by blast
qed


lemma demo_tile_at:
  "get_tile_at \<lparr>row = 0, col = 0\<rparr> demo_world = Inr (Some 0)"
  "get_tile_at \<lparr>row = 0, col = 1\<rparr> demo_world = Inr (Some 1)"
  "get_tile_at \<lparr>row = 0, col = 2\<rparr> demo_world = Inr (Some 2)"
  by (simp_all add: get_tile_at_def is_valid_position_def demo_world_def py_index_def tiles_get_def)

theorem can_deploy_at_agrees_with_deploy_operator_witness:
  "can_deploy_at \<lparr>row = 0, col = 0\<rparr> 0 demo_world = Inr True
   \<and> real_of_int (deploy_cost (operators demo_world 0)) \<le> current_cost demo_world
   \<and> int (length (deployed_operators demo_world)) < character_limit demo_world
   \<and> (\<exists>w'. deploy_operator 0 \<lparr>row = 0, col = 0\<rparr> RIGHT demo_world = Inr (success_result, w'))
   \<and> can_deploy_at \<lparr>row = 0, col = 0\<rparr> 2 demo_world = Inr False"
proof -
  have a: "can_deploy_at \<lparr>row = 0, col = 0\<rparr> 0 demo_world = Inr True"
    by (simp add: can_deploy_at_def demo_tile_at)
       (simp add: demo_world_def can_deploy_operator_def demo_melee_def)
  have b: "real_of_int (deploy_cost (operators demo_world 0)) \<le> current_cost demo_world"
    "int (length (deployed_operators demo_world)) < character_limit demo_world"
    by (simp_all add: demo_world_def demo_melee_def)
  have c: "can_deploy_at \<lparr>row = 0, col = 0\<rparr> 2 demo_world = Inr False"
    by (simp add: can_deploy_at_def demo_tile_at)
       (simp add: demo_world_def can_deploy_operator_def demo_ranged_def demo_melee_def)
  from can_deploy_at_agrees_with_deploy_operator [of "\<lparr>row = 0, col = 0\<rparr>" 0 demo_world RIGHT] a b c
  show ?thesis by simp
qed

text \<open>
  Claim C5. A \<^verbatim>\<open>deploy_operator\<close> call that fails returns a result with a reason and the
  world it was given, unchanged as a whole (cost, roster, tiles, operators). Each
  business-rule violation is answered by such a result and not by an exception: a position
  off the map, a position without a tile, an occupied tile, an incompatible tile, a cost
  above the current cost, a full roster; the only exception the call can raise is the one
  of the layout lookup. An operator whose deploy cost exceeds the current cost never
  deploys, and where the cost is the only fault, that is where \<^verbatim>\<open>can_deploy_at\<close> holds
  for the tile, the reason is the insufficient cost.
\<close>

theorem failed_deploy_reports_and_changes_nothing:
  "(\<forall>res w'. deploy_operator oid pos dir w = Inr (res, w') \<and> \<not> success res \<longrightarrow>
       w' = w \<and> (\<exists>r. reason res = Some r))
   \<and> (\<forall>e. deploy_operator oid pos dir w = Inl e \<longrightarrow>
         is_valid_position pos w \<and> get_tile_at pos w = Inl e)
   \<and> (\<not> is_valid_position pos w \<longrightarrow>
         deploy_operator oid pos dir w = Inr (failure_result (PositionInvalid (row pos) (col pos)), w))
   \<and> (is_valid_position pos w \<and> get_tile_at pos w = Inr None \<longrightarrow>
         deploy_operator oid pos dir w = Inr (failure_result (NoTileInfo (row pos) (col pos)), w))
   \<and> (\<forall>i. get_tile_at pos w = Inr (Some i) \<and> deployed_operator (tiles w ! i) \<noteq> None \<longrightarrow>
         deploy_operator oid pos dir w = Inr (failure_result (PositionOccupied (row pos) (col pos)), w))
   \<and> (\<forall>i. get_tile_at pos w = Inr (Some i) \<and> deployed_operator (tiles w ! i) = None
           \<and> \<not> check_operator_tile_compatibility (operators w oid) (tiles w ! i) \<longrightarrow>
         deploy_operator oid pos dir w
           = Inr (failure_result (TypeMismatch (name (operators w oid)) (position (operators w oid))
                    (buildable_type (tiles w ! i))), w))
   \<and> (can_deploy_at pos oid w = Inr True
        \<and> current_cost w < real_of_int (deploy_cost (operators w oid)) \<longrightarrow>
         deploy_operator oid pos dir w
           = Inr (failure_result (InsufficientCost (deploy_cost (operators w oid)) (current_cost w)), w))
   \<and> (can_deploy_at pos oid w = Inr True
        \<and> real_of_int (deploy_cost (operators w oid)) \<le> current_cost w
        \<and> character_limit w \<le> int (length (deployed_operators w)) \<longrightarrow>
         deploy_operator oid pos dir w = Inr (failure_result (CharacterLimitReached (character_limit w)), w))
   \<and> (current_cost w < real_of_int (deploy_cost (operators w oid)) \<longrightarrow>
         (\<forall>res w'. deploy_operator oid pos dir w = Inr (res, w') \<longrightarrow> \<not> success res))"
proof (intro conjI allI impI)
  fix res w'
  assume a: "deploy_operator oid pos dir w = Inr (res, w') \<and> \<not> success res"
  then show "w' = w" using deploy_operator_failure_world by blast
  from a obtain r where "res = failure_result r" using deploy_operator_failure_world by blast
  then show "\<exists>r. reason res = Some r" by (simp add: failure_result_def)
next
  fix e assume "deploy_operator oid pos dir w = Inl e"
  then show "is_valid_position pos w" "get_tile_at pos w = Inl e"
    using deploy_operator_raises by blast+
next
  assume "\<not> is_valid_position pos w"
  then show "deploy_operator oid pos dir w = Inr (failure_result (PositionInvalid (row pos) (col pos)), w)"
    by (simp add: deploy_operator_def)
next
  assume "is_valid_position pos w \<and> get_tile_at pos w = Inr None"
  then show "deploy_operator oid pos dir w = Inr (failure_result (NoTileInfo (row pos) (col pos)), w)"
    by (simp add: deploy_operator_def)
next
  fix i assume a: "get_tile_at pos w = Inr (Some i) \<and> deployed_operator (tiles w ! i) \<noteq> None"
  then have "is_valid_position pos w" using get_tile_at_Some_valid by blast
  with a show "deploy_operator oid pos dir w
                 = Inr (failure_result (PositionOccupied (row pos) (col pos)), w)"
    by (auto simp: deploy_operator_def Let_def)
next
  fix i assume a: "get_tile_at pos w = Inr (Some i) \<and> deployed_operator (tiles w ! i) = None
           \<and> \<not> check_operator_tile_compatibility (operators w oid) (tiles w ! i)"
  then have "is_valid_position pos w" using get_tile_at_Some_valid by blast
  with a show "deploy_operator oid pos dir w
           = Inr (failure_result (TypeMismatch (name (operators w oid)) (position (operators w oid))
                    (buildable_type (tiles w ! i))), w)"
    by (auto simp: deploy_operator_def Let_def)
next
  assume a: "can_deploy_at pos oid w = Inr True
        \<and> current_cost w < real_of_int (deploy_cost (operators w oid))"
  then obtain i where i: "get_tile_at pos w = Inr (Some i)"
      "can_deploy_operator (tiles w ! i) (operators w oid)"
    by (auto simp: can_deploy_at_def and_then_eq_Inr split: option.splits)
  then have "is_valid_position pos w" using get_tile_at_Some_valid by blast
  with a i show "deploy_operator oid pos dir w
           = Inr (failure_result (InsufficientCost (deploy_cost (operators w oid)) (current_cost w)), w)"
    by (auto simp: deploy_operator_def Let_def can_deploy_operator_compatible)
next
  assume a: "can_deploy_at pos oid w = Inr True
        \<and> real_of_int (deploy_cost (operators w oid)) \<le> current_cost w
        \<and> character_limit w \<le> int (length (deployed_operators w))"
  then obtain i where i: "get_tile_at pos w = Inr (Some i)"
      "can_deploy_operator (tiles w ! i) (operators w oid)"
    by (auto simp: can_deploy_at_def and_then_eq_Inr split: option.splits)
  then have "is_valid_position pos w" using get_tile_at_Some_valid by blast
  with a i show "deploy_operator oid pos dir w
           = Inr (failure_result (CharacterLimitReached (character_limit w)), w)"
    by (auto simp: deploy_operator_def Let_def can_deploy_operator_compatible)
next
  fix res w'
  assume "current_cost w < real_of_int (deploy_cost (operators w oid))"
    and "deploy_operator oid pos dir w = Inr (res, w')"
  then show "\<not> success res"
    using deploy_operator_success_iff [of oid pos dir w] by auto
qed

theorem failed_deploy_reports_and_changes_nothing_witness:
  "\<not> is_deployed (operators demo_world 1)
   \<and> can_deploy_at \<lparr>row = 0, col = 0\<rparr> 1 demo_world = Inr True
   \<and> current_cost demo_world < real_of_int (deploy_cost (operators demo_world 1))
   \<and> deploy_operator 1 \<lparr>row = 0, col = 0\<rparr> RIGHT demo_world
       = Inr (failure_result (InsufficientCost 20 10), demo_world)"
proof -
  have a: "can_deploy_at \<lparr>row = 0, col = 0\<rparr> 1 demo_world = Inr True"
    by (simp add: can_deploy_at_def demo_tile_at)
       (simp add: demo_world_def can_deploy_operator_def demo_costly_def demo_melee_def)
  have b: "current_cost demo_world < real_of_int (deploy_cost (operators demo_world 1))"
    "deploy_cost (operators demo_world 1) = 20" "current_cost demo_world = 10"
    "\<not> is_deployed (operators demo_world 1)"
    by (simp_all add: demo_world_def demo_costly_def demo_melee_def)
  from failed_deploy_reports_and_changes_nothing [of 1 "\<lparr>row = 0, col = 0\<rparr>" RIGHT demo_world] a b
  show ?thesis by simp
qed

lemma tile_clear_free: "deployed_operator t = None \<Longrightarrow> t\<lparr>deployed_operator := None\<rparr> = t"
  by (cases t) simp

lemma deploy_then_retreat:
  assumes "deploy_operator oid pos dir w = Inr (res, w1)" and "success res"
  shows "\<exists>w2. retreat_operator oid w1 = Inr (True, w2)
           \<and> deployed_operators w2 = remove1 oid (deployed_operators w @ [oid])
           \<and> tiles w2 = tiles w
           \<and> current_cost w2 = current_cost w - real_of_int (deploy_cost (operators w oid))
           \<and> w2 = w\<lparr>operators := (operators w)
                            (oid := retreat (retreat (deploy pos dir (operators w oid)))),
                        deployed_operators := remove1 oid (deployed_operators w @ [oid]),
                        current_cost := current_cost w - real_of_int (deploy_cost (operators w oid))\<rparr>"
proof -
  from deploy_operator_success_world [OF assms]
  obtain i where i: "get_tile_at pos w = Inr (Some i)" "i < length (tiles w)"
      "deployed_operator (tiles w ! i) = None"
    and w1: "w1 = w\<lparr>tiles := (tiles w)[i := (tiles w ! i)\<lparr>deployed_operator := Some oid\<rparr>],
                     operators := (operators w)(oid := deploy pos dir (operators w oid)),
                     deployed_operators := deployed_operators w @ [oid],
                     current_cost := current_cost w - real_of_int (deploy_cost (operators w oid))\<rparr>"
    by blast
  have tile: "get_tile_at pos w1 = Inr (Some i)"
    using i(1) get_tile_at_cong [of w1 w pos] by (simp add: w1)
  have pos1: "position (operators w1 oid) = AtPosition pos"
    by (simp add: w1 deploy_def)
  have occ: "deployed_operator (tiles w1 ! i) = Some oid"
    using i(2) by (simp add: w1)
  have restored: "(tiles w1)[i := (tiles w1 ! i)\<lparr>deployed_operator := None\<rparr>] = tiles w"
    using i(2,3) by (simp add: w1 tile_clear_free)
  have "oid \<in> set (deployed_operators w1)" by (simp add: w1)
  then show ?thesis
    by (simp add: retreat_operator_def pos1 truthy_def tile remove_operator_def occ restored Let_def)
       (simp add: w1)
qed

text \<open>
  Claim C6, amended. When \<^verbatim>\<open>deploy_operator\<close> succeeds, the \<^verbatim>\<open>retreat_operator\<close> call
  that follows returns true, every tile is again what it was before the deploy, and the
  cost stays debited by the deploy cost. The roster is the old roster with the operator
  appended and its first entry removed: it is exactly the old roster when the operator was
  not in the roster before the deploy.
\<close>

theorem deploy_then_retreat_restores_roster_and_tiles:
  assumes "deploy_operator oid pos dir w = Inr (res, w1)" and "success res"
  shows "\<exists>w2. retreat_operator oid w1 = Inr (True, w2)
           \<and> tiles w2 = tiles w
           \<and> current_cost w2 = current_cost w - real_of_int (deploy_cost (operators w oid))
           \<and> deployed_operators w2 = remove1 oid (deployed_operators w @ [oid])
           \<and> (oid \<notin> set (deployed_operators w) \<longrightarrow> deployed_operators w2 = deployed_operators w)"
proof -
  from deploy_then_retreat [OF assms] obtain w2 where
    w2: "retreat_operator oid w1 = Inr (True, w2)"
      "deployed_operators w2 = remove1 oid (deployed_operators w @ [oid])"
      "tiles w2 = tiles w"
      "current_cost w2 = current_cost w - real_of_int (deploy_cost (operators w oid))"
    by blast
  have "oid \<notin> set (deployed_operators w) \<longrightarrow> remove1 oid (deployed_operators w @ [oid]) = deployed_operators w"
    by (simp add: remove1_append)
  with w2 show ?thesis by simp
qed

lemma demo_deploy_melee:
  "deploy_operator 0 \<lparr>row = 0, col = 0\<rparr> RIGHT demo_world
     = Inr (success_result,
            demo_world\<lparr>tiles := (tiles demo_world)
                          [0 := \<lparr>buildable_type = Buildable_MELEE, deployed_operator = Some 0\<rparr>],
                       operators := (operators demo_world)
                          (0 := deploy \<lparr>row = 0, col = 0\<rparr> RIGHT demo_melee),
                       deployed_operators := [0], current_cost := 7\<rparr>)"
  by (simp add: deploy_operator_def is_valid_position_def demo_tile_at Let_def)
     (simp add: demo_world_def check_operator_tile_compatibility_def demo_melee_def
        tile_deploy_operator_def can_deploy_operator_def)

theorem deploy_then_retreat_restores_roster_and_tiles_witness:
  "(\<exists>w1. deploy_operator 0 \<lparr>row = 0, col = 0\<rparr> RIGHT demo_world = Inr (success_result, w1)
      \<and> success success_result \<and> 0 \<notin> set (deployed_operators demo_world)
      \<and> (\<exists>w2. retreat_operator 0 w1 = Inr (True, w2)
            \<and> tiles w2 = tiles demo_world
            \<and> current_cost w2 = 7
            \<and> deployed_operators w2 = deployed_operators demo_world))"
proof -
  have ok: "success success_result" by (simp add: success_result_def)
  have out: "0 \<notin> set (deployed_operators demo_world)"
    "current_cost demo_world - real_of_int (deploy_cost (operators demo_world 0)) = 7"
    by (simp_all add: demo_world_def demo_melee_def)
  from deploy_then_retreat_restores_roster_and_tiles [OF demo_deploy_melee ok] out demo_deploy_melee ok
  show ?thesis by auto
qed

text \<open>
  The claim as stated fails where the operator is already in the roster: in the crowded
  example world operator 0 stands on the melee tile and the roster is \<open>[0, 2]\<close>; deploying
  it again, on the tile open to every class, succeeds, and the retreat that follows leaves
  the roster \<open>[2, 0]\<close>.
\<close>

theorem deploy_then_retreat_reorders_roster:
  "\<exists>w1 w2. deploy_operator 0 \<lparr>row = 0, col = 1\<rparr> RIGHT crowded_world = Inr (success_result, w1)
     \<and> retreat_operator 0 w1 = Inr (True, w2)
     \<and> deployed_operators crowded_world = [0, 2]
     \<and> deployed_operators w2 = [2, 0]"
proof -
  have tile: "get_tile_at \<lparr>row = 0, col = 1\<rparr> crowded_world = Inr (Some 1)"
    using demo_tile_at(2) get_tile_at_cong [of crowded_world demo_world "\<lparr>row = 0, col = 1\<rparr>"]
    by (simp add: crowded_world_def) (simp add: demo_world_def)
  have valid: "is_valid_position \<lparr>row = 0, col = 1\<rparr> crowded_world"
    using tile get_tile_at_Some_valid by blast
  have "\<exists>w1. deploy_operator 0 \<lparr>row = 0, col = 1\<rparr> RIGHT crowded_world = Inr (success_result, w1)"
    by (simp add: deploy_operator_def valid tile Let_def)
       (simp add: crowded_world_def demo_world_def check_operator_tile_compatibility_def
          demo_melee_def deploy_def tile_deploy_operator_def can_deploy_operator_def)
  then obtain w1 where
    w1: "deploy_operator 0 \<lparr>row = 0, col = 1\<rparr> RIGHT crowded_world = Inr (success_result, w1)"
    by blast
  have ok: "success success_result" by (simp add: success_result_def)
  from deploy_then_retreat [OF w1 ok] obtain w2 where
    "retreat_operator 0 w1 = Inr (True, w2)"
    "deployed_operators w2 = remove1 0 (deployed_operators crowded_world @ [0])"
    by blast
  moreover have "deployed_operators crowded_world = [0, 2]"
    by (simp add: crowded_world_def)
  ultimately show ?thesis using w1 by auto
qed

lemma crowded_world_reached:
  "\<exists>w1. deploy_operator 0 \<lparr>row = 0, col = 0\<rparr> RIGHT demo_world = Inr (success_result, w1)
     \<and> deploy_operator 2 \<lparr>row = 0, col = 2\<rparr> LEFT w1 = Inr (success_result, crowded_world)"
proof -
  let ?w1 = "demo_world\<lparr>tiles := (tiles demo_world)
                          [0 := \<lparr>buildable_type = Buildable_MELEE, deployed_operator = Some 0\<rparr>],
                       operators := (operators demo_world)
                          (0 := deploy \<lparr>row = 0, col = 0\<rparr> RIGHT demo_melee),
                       deployed_operators := [0], current_cost := 7\<rparr>"
  have tile: "get_tile_at \<lparr>row = 0, col = 2\<rparr> ?w1 = Inr (Some 2)"
    using demo_tile_at(3) get_tile_at_cong [of ?w1 demo_world "\<lparr>row = 0, col = 2\<rparr>"]
    by simp
  have valid: "is_valid_position \<lparr>row = 0, col = 2\<rparr> ?w1"
    using tile get_tile_at_Some_valid by blast
  have "deploy_operator 2 \<lparr>row = 0, col = 2\<rparr> LEFT ?w1 = Inr (success_result, crowded_world)"
    by (simp add: deploy_operator_def valid tile Let_def)
       (simp add: crowded_world_def demo_world_def check_operator_tile_compatibility_def
          demo_melee_def demo_ranged_def tile_deploy_operator_def can_deploy_operator_def
          fun_upd_twist)
  with demo_deploy_melee show ?thesis by blast
qed

text \<open>
  Claim C8. The deploy after a retreat is refused: \<^verbatim>\<open>deploy\<close> overwrote the attribute
  that held the operator's placement class with the position, and \<^verbatim>\<open>retreat\<close> cleared
  it, so the melee operator no longer fits the melee tile it stood on, although the tile is
  free, the cost suffices and the roster is empty. What the retreat does to the operator
  itself is as claimed: position cleared, blocked enemies released, skills untouched.
\<close>

theorem redeploy_after_retreat_is_refused:
  "\<exists>w1 w2. deploy_operator 0 \<lparr>row = 0, col = 0\<rparr> RIGHT demo_world = Inr (success_result, w1)
     \<and> retreat_operator 0 w1 = Inr (True, w2)
     \<and> position (operators demo_world 0) = PlacementClass ''MELEE''
     \<and> buildable_type (tiles w2 ! 0) = Buildable_MELEE
     \<and> deployed_operator (tiles w2 ! 0) = None
     \<and> real_of_int (deploy_cost (operators w2 0)) \<le> current_cost w2
     \<and> int (length (deployed_operators w2)) < character_limit w2
     \<and> position (operators w2 0) = NoPosition
     \<and> blocked_enemies (operators w2 0) = []
     \<and> skills (operators w2 0) = skills (operators demo_world 0)
     \<and> deploy_operator 0 \<lparr>row = 0, col = 0\<rparr> RIGHT w2
         = Inr (failure_result (TypeMismatch ''melee'' NoPosition Buildable_MELEE), w2)"
proof -
  have ok: "success success_result" by (simp add: success_result_def)
  define w2 where
    "w2 = demo_world\<lparr>operators := (operators demo_world)
             (0 := retreat (retreat (deploy \<lparr>row = 0, col = 0\<rparr> RIGHT (operators demo_world 0)))),
           deployed_operators := remove1 0 (deployed_operators demo_world @ [0]),
           current_cost := current_cost demo_world
              - real_of_int (deploy_cost (operators demo_world 0))\<rparr>"
  from deploy_then_retreat [OF demo_deploy_melee ok] obtain w1 where
    d1: "deploy_operator 0 \<lparr>row = 0, col = 0\<rparr> RIGHT demo_world = Inr (success_result, w1)"
    and r: "retreat_operator 0 w1 = Inr (True, w2)"
    unfolding w2_def using demo_deploy_melee by blast
  have tile2: "get_tile_at \<lparr>row = 0, col = 0\<rparr> w2 = Inr (Some 0)"
    using demo_tile_at(1) get_tile_at_cong [of w2 demo_world "\<lparr>row = 0, col = 0\<rparr>"]
    by (simp add: w2_def)
  have valid2: "is_valid_position \<lparr>row = 0, col = 0\<rparr> w2"
    using tile2 get_tile_at_Some_valid by blast
  have d2: "deploy_operator 0 \<lparr>row = 0, col = 0\<rparr> RIGHT w2
         = Inr (failure_result (TypeMismatch ''melee'' NoPosition Buildable_MELEE), w2)"
    by (simp add: deploy_operator_def valid2 tile2 Let_def)
       (simp add: w2_def demo_world_def check_operator_tile_compatibility_def
          demo_melee_def deploy_def retreat_def)
  have facts: "position (operators demo_world 0) = PlacementClass ''MELEE''"
     "buildable_type (tiles w2 ! 0) = Buildable_MELEE"
     "deployed_operator (tiles w2 ! 0) = None"
     "real_of_int (deploy_cost (operators w2 0)) \<le> current_cost w2"
     "int (length (deployed_operators w2)) < character_limit w2"
     "position (operators w2 0) = NoPosition"
     "blocked_enemies (operators w2 0) = []"
     "skills (operators w2 0) = skills (operators demo_world 0)"
    by (simp_all add: w2_def demo_world_def demo_melee_def deploy_def retreat_def)
  from d1 r d2 facts show ?thesis by blast
qed



section \<open>Routes\<close>

declare walk.simps [simp del] spec_walk.simps [simp del]

lemma linked_mono: "linked R ps \<Longrightarrow> (\<And>p q. R p q \<Longrightarrow> S p q) \<Longrightarrow> linked S ps"
  by (induction R ps rule: linked.induct) auto

lemma linked_append:
  "linked R xs \<Longrightarrow> xs \<noteq> [] \<Longrightarrow> linked R (last xs # ys) \<Longrightarrow> linked R (xs @ ys)"
proof (induction R xs rule: linked.induct)
  case (1 R)
  then show ?case by simp
next
  case (2 R p)
  then show ?case by simp
next
  case (3 R p q rest)
  then show ?case by simp
qed

lemma zip_shifted: "zip (x # xs) (xs @ [y]) = zip (x # xs) xs @ [(last (x # xs), y)]"
  by (induction xs arbitrary: x) simp_all

lemma next_step_row_first:
  "current \<noteq> end_pos \<Longrightarrow> row_first_step end_pos current (next_step current end_pos)"
  by (auto simp: row_first_step_def next_step_def Position.equality)

lemma row_first_step_adjacent: "row_first_step end_pos p q \<Longrightarrow> adjacent p q"
  by (auto simp: row_first_step_def adjacent_def split: if_splits)

lemma walk_row_first: "linked (row_first_step end_pos) (current # walk current end_pos)"
proof (induction current end_pos rule: walk.induct)
  case (1 current end_pos)
  show ?case
  proof (cases "current = end_pos")
    case True
    then show ?thesis by (simp add: walk.simps)
  next
    case False
    with "1.IH" have "linked (row_first_step end_pos)
        (next_step current end_pos # walk (next_step current end_pos) end_pos)"
      by simp
    with False show ?thesis
      by (subst walk.simps) (simp add: next_step_row_first)
  qed
qed

lemma walk_last: "last (current # walk current end_pos) = end_pos"
proof (induction current end_pos rule: walk.induct)
  case (1 current end_pos)
  show ?case
  proof (cases "current = end_pos")
    case True
    then show ?thesis by (simp add: walk.simps)
  next
    case False
    with "1.IH" have "last (next_step current end_pos # walk (next_step current end_pos) end_pos) = end_pos"
      by simp
    with False show ?thesis
      by (subst walk.simps) simp
  qed
qed

lemma walk_adjacent: "linked adjacent (current # walk current end_pos)"
  using walk_row_first linked_mono row_first_step_adjacent by blast

lemma through_checkpoints_walk:
  assumes "acc \<noteq> []" and "last acc = current_pos" and "linked adjacent acc"
  shows "\<exists>acc'. through_checkpoints False acc current_pos cs = Some (acc', last (current_pos # cs))
           \<and> acc' \<noteq> [] \<and> last acc' = last (current_pos # cs) \<and> linked adjacent acc'
           \<and> hd acc' = hd acc
           \<and> acc' = acc @ concat (map (\<lambda>(a, b). walk a b) (zip (current_pos # cs) cs))"
  using assms
proof (induction cs arbitrary: acc current_pos)
  case Nil
  then show ?case by simp
next
  case (Cons c cs)
  let ?acc = "acc @ walk current_pos c"
  have ne: "?acc \<noteq> []" using Cons.prems(1) by simp
  have la: "last ?acc = c"
    using walk_last [of current_pos c] Cons.prems(1,2)
    by (cases "walk current_pos c = []") (simp_all add: last_append)
  have li: "linked adjacent ?acc"
    using linked_append [OF Cons.prems(3) Cons.prems(1)] walk_adjacent [of current_pos c]
      Cons.prems(2) by simp
  from Cons.IH [OF ne la li] Cons.prems(1) show ?case
    by (auto simp: find_path_def)
qed

text \<open>
  Claim C9, amended. With diagonal movement disabled a route's path exists (the loops
  terminate) and is the start followed by the segments from each point to the next, through
  the checkpoints to the end. A segment takes one step at a time toward its endpoint: along
  the row as long as the row differs from the endpoint's row, whatever the gaps, and along
  the column only then; it ends at the endpoint. Consequently consecutive waypoints of the
  path differ by exactly one row or by exactly one column, never both.
\<close>

theorem orthogonal_route_steps:
  assumes "\<not> allow_diagonal_move r"
  shows "\<exists>p. generate_path r = Some p
           \<and> p = start_position r #
                   concat (map (\<lambda>(a, b). walk a b)
                     (zip (start_position r # (case checkpoints r of None \<Rightarrow> [] | Some cs \<Rightarrow> cs))
                          ((case checkpoints r of None \<Rightarrow> [] | Some cs \<Rightarrow> cs) @ [end_position r])))
           \<and> linked adjacent p
           \<and> (\<forall>a b. find_path False a b = Some (walk a b)
                  \<and> linked (row_first_step b) (a # walk a b) \<and> last (a # walk a b) = b)"
proof -
  define cs where "cs = (case checkpoints r of None \<Rightarrow> [] | Some cs \<Rightarrow> cs)"
  let ?s = "start_position r"
  from through_checkpoints_walk [of "[?s]" ?s cs]
  obtain acc where acc: "through_checkpoints False [?s] ?s cs = Some (acc, last (?s # cs))"
      "acc \<noteq> []" "last acc = last (?s # cs)" "linked adjacent acc"
      "acc = [?s] @ concat (map (\<lambda>(a, b). walk a b) (zip (?s # cs) cs))"
    by auto
  let ?p = "acc @ walk (last (?s # cs)) (end_position r)"
  have gen: "generate_path r = Some ?p"
    using assms acc(1) by (simp add: generate_path_def find_path_def cs_def)
  have link: "linked adjacent ?p"
    using linked_append [OF acc(4) acc(2)] walk_adjacent [of "last (?s # cs)" "end_position r"] acc(3)
    by simp
  have "zip (?s # cs) (cs @ [end_position r]) = zip (?s # cs) cs @ [(last (?s # cs), end_position r)]"
    by (rule zip_shifted)
  then have shape: "?p = ?s # concat (map (\<lambda>(a, b). walk a b) (zip (?s # cs) (cs @ [end_position r])))"
    using acc(5) by simp
  have seg: "\<forall>a b. find_path False a b = Some (walk a b)
                  \<and> linked (row_first_step b) (a # walk a b) \<and> last (a # walk a b) = b"
    using walk_row_first walk_last by (simp add: find_path_def)
  from gen link shape seg show ?thesis
    unfolding cs_def by blast
qed


lemma demo_checkpoint_path:
  "generate_path demo_checkpoint_route
     = Some [\<lparr>row = 0, col = 0\<rparr>, \<lparr>row = 1, col = 0\<rparr>, \<lparr>row = 1, col = 1\<rparr>, \<lparr>row = 1, col = 2\<rparr>,
             \<lparr>row = 2, col = 2\<rparr>, \<lparr>row = 2, col = 1\<rparr>, \<lparr>row = 2, col = 2\<rparr>]"
  by (simp add: generate_path_def demo_checkpoint_route_def find_path_def walk.simps next_step_def)

theorem orthogonal_route_steps_witness:
  "\<not> allow_diagonal_move demo_checkpoint_route
   \<and> generate_path demo_checkpoint_route
       = Some [\<lparr>row = 0, col = 0\<rparr>, \<lparr>row = 1, col = 0\<rparr>, \<lparr>row = 1, col = 1\<rparr>, \<lparr>row = 1, col = 2\<rparr>,
               \<lparr>row = 2, col = 2\<rparr>, \<lparr>row = 2, col = 1\<rparr>, \<lparr>row = 2, col = 2\<rparr>]
   \<and> linked adjacent
         [\<lparr>row = 0, col = 0\<rparr>, \<lparr>row = 1, col = 0\<rparr>, \<lparr>row = 1, col = 1\<rparr>, \<lparr>row = 1, col = 2\<rparr>,
          \<lparr>row = 2, col = 2\<rparr>, \<lparr>row = 2, col = 1\<rparr>, \<lparr>row = 2, col = 2\<rparr>]"
proof -
  have nd: "\<not> allow_diagonal_move demo_checkpoint_route"
    by (simp add: demo_checkpoint_route_def)
  from orthogonal_route_steps [OF nd] obtain p where
    p: "generate_path demo_checkpoint_route = Some p" "linked adjacent p"
    by blast
  from p(1) have "p = [\<lparr>row = 0, col = 0\<rparr>, \<lparr>row = 1, col = 0\<rparr>, \<lparr>row = 1, col = 1\<rparr>,
      \<lparr>row = 1, col = 2\<rparr>, \<lparr>row = 2, col = 2\<rparr>, \<lparr>row = 2, col = 1\<rparr>, \<lparr>row = 2, col = 2\<rparr>]"
    by (simp only: demo_checkpoint_path option.inject)
  with p nd show ?thesis by blast
qed

text \<open>
  The claim as stated fails: from \<open>(0, 0)\<close> to \<open>(1, 2)\<close> the column gap is the larger one,
  so reducing the coordinate with the larger remaining gap steps to \<open>(0, 1)\<close> first; the
  code steps along the row first, to \<open>(1, 0)\<close>.
\<close>

theorem orthogonal_route_row_before_larger_gap:
  "find_path False \<lparr>row = 0, col = 0\<rparr> \<lparr>row = 1, col = 2\<rparr>
     = Some [\<lparr>row = 1, col = 0\<rparr>, \<lparr>row = 1, col = 1\<rparr>, \<lparr>row = 1, col = 2\<rparr>]
   \<and> spec_walk \<lparr>row = 0, col = 0\<rparr> \<lparr>row = 1, col = 2\<rparr>
     = [\<lparr>row = 0, col = 1\<rparr>, \<lparr>row = 1, col = 1\<rparr>, \<lparr>row = 1, col = 2\<rparr>]
   \<and> find_path False \<lparr>row = 0, col = 0\<rparr> \<lparr>row = 1, col = 2\<rparr>
     \<noteq> Some (spec_walk \<lparr>row = 0, col = 0\<rparr> \<lparr>row = 1, col = 2\<rparr>)"
  by (simp add: find_path_def walk.simps next_step_def spec_walk.simps spec_next_step_def)



section \<open>Loops\<close>

lemma for_each_related:
  assumes step: "\<And>x s s'. x \<in> set xs \<Longrightarrow> body x s = Inr s' \<Longrightarrow> R s s'"
    and refl: "\<And>s. R s s"
    and trans: "\<And>a b c. R a b \<Longrightarrow> R b c \<Longrightarrow> R a c"
    and run: "for_each body xs s = Inr s'"
  shows "R s s'"
  using step run
proof (induction xs arbitrary: s)
  case Nil
  then show ?case using refl by simp
next
  case (Cons x xs)
  from Cons.prems(2) obtain s1 where s1: "body x s = Inr s1" "for_each body xs s1 = Inr s'"
    by (auto simp: and_then_eq_Inr)
  have "R s s1" by (rule Cons.prems(1) [of x]) (simp_all add: s1(1))
  moreover have "R s1 s'" by (rule Cons.IH [OF _ s1(2)], rule Cons.prems(1)) simp_all
  ultimately show ?case using trans by blast
qed

lemma for_each_invariant:
  assumes step: "\<And>x s s'. x \<in> set xs \<Longrightarrow> P s \<Longrightarrow> body x s = Inr s' \<Longrightarrow> P s'"
    and start: "P s"
    and run: "for_each body xs s = Inr s'"
  shows "P s'"
  using step start run
proof (induction xs arbitrary: s)
  case Nil
  then show ?case by simp
next
  case (Cons x xs)
  from Cons.prems(3) obtain s1 where s1: "body x s = Inr s1" "for_each body xs s1 = Inr s'"
    by (auto simp: and_then_eq_Inr)
  have "P s1" by (rule Cons.prems(1) [of x s]) (simp_all add: s1(1) Cons.prems(2))
  then show ?case by (rule Cons.IH [OF _ _ s1(2), rotated]) (rule Cons.prems(1), simp_all)
qed

lemma for_each_object_related:
  assumes step: "\<And>x s y s'. x \<in> set xs \<Longrightarrow> body x s = Inr (y, s') \<Longrightarrow> R s s'"
    and refl: "\<And>s. R s s"
    and trans: "\<And>a b c. R a b \<Longrightarrow> R b c \<Longrightarrow> R a c"
    and run: "for_each_object body xs s = Inr (ys, s')"
  shows "R s s'"
  using step run
proof (induction xs arbitrary: s ys)
  case Nil
  then show ?case using refl by simp
next
  case (Cons x xs)
  from Cons.prems(2) obtain y s1 ys1 where
    s1: "body x s = Inr (y, s1)" "for_each_object body xs s1 = Inr (ys1, s')"
    by (auto simp: and_then_eq_Inr)
  have "R s s1" by (rule Cons.prems(1) [of x]) (simp_all add: s1(1))
  moreover have "R s1 s'" by (rule Cons.IH [OF _ s1(2)], rule Cons.prems(1)) simp_all
  ultimately show ?case using trans by blast
qed

section \<open>The operators' turn\<close>

lemma ops_shrink_refl [simp]: "ops_shrink ops ops"
  by (simp add: ops_shrink_def)

lemma ops_shrink_trans:
  assumes "ops_shrink a b" and "ops_shrink b c"
  shows "ops_shrink a c"
  unfolding ops_shrink_def
proof (intro allI)
  fix oid
  from assms(1) have "max_block_count (b oid) = max_block_count (a oid)"
    "length (blocked_enemies (b oid)) \<le> length (blocked_enemies (a oid))"
    by (simp_all add: ops_shrink_def)
  moreover from assms(2) have "max_block_count (c oid) = max_block_count (b oid)"
    "length (blocked_enemies (c oid)) \<le> length (blocked_enemies (b oid))"
    by (simp_all add: ops_shrink_def)
  ultimately show "max_block_count (c oid) = max_block_count (a oid)
      \<and> length (blocked_enemies (c oid)) \<le> length (blocked_enemies (a oid))"
    by simp
qed

lemma ops_shrink_upd:
  "max_block_count op' = max_block_count (ops oid) \<Longrightarrow>
   length (blocked_enemies op') \<le> length (blocked_enemies (ops oid)) \<Longrightarrow>
   ops_shrink ops (ops(oid := op'))"
  by (simp add: ops_shrink_def)

lemma operators_phase_refl: "operators_phase w w"
proof -
  have "w = w\<lparr>tiles := tiles w, deployed_operators := deployed_operators w, operators := operators w\<rparr>"
    by simp
  then show ?thesis unfolding operators_phase_def using ops_shrink_refl by blast
qed

lemma operators_phase_trans:
  assumes "operators_phase a b" and "operators_phase b c"
  shows "operators_phase a c"
proof -
  from assms(1) obtain T D ops where
    ab: "b = a\<lparr>tiles := T, deployed_operators := D, operators := ops\<rparr>" "ops_shrink (operators a) ops"
    unfolding operators_phase_def by blast
  from assms(2) obtain T' D' ops' where
    bc: "c = b\<lparr>tiles := T', deployed_operators := D', operators := ops'\<rparr>" "ops_shrink (operators b) ops'"
    unfolding operators_phase_def by blast
  from ab(1) bc(1) have "c = a\<lparr>tiles := T', deployed_operators := D', operators := ops'\<rparr>"
    by simp
  moreover from ab bc(2) have "ops_shrink (operators a) ops'"
    by (simp add: ops_shrink_trans [of "operators a" ops ops'])
  ultimately show ?thesis unfolding operators_phase_def by blast
qed

lemma operator_update_frame:
  assumes "operator_update delta_time op = Inr op'"
  shows "max_block_count op' = max_block_count op \<and> blocked_enemies op' = blocked_enemies op"
proof (cases "is_deployed op")
  case False
  with assms show ?thesis by (simp add: operator_update_def)
next
  case True
  with assms obtain sk where
    "op' = (let op1 = update_buffs delta_time op; op2 = op1\<lparr>skills := sk\<rparr>;
                 op3 = (if attack_cooldown op2 > 0
                        then op2\<lparr>attack_cooldown := attack_cooldown op2 - delta_time\<rparr> else op2)
             in op3\<lparr>deploy_time := deploy_time op3 + delta_time\<rparr>)"
    by (auto simp: operator_update_def Let_def and_then_eq_Inr)
  then show ?thesis
    by (simp add: Let_def update_buffs_def)
qed

lemma remove_operator_phase: "operators_phase w (remove_operator i w)"
proof (cases "deployed_operator (tiles w ! i)")
  case None
  then show ?thesis by (simp add: remove_operator_def operators_phase_refl)
next
  case (Some o2)
  then have "remove_operator i w
      = w\<lparr>tiles := (tiles w)[i := (tiles w ! i)\<lparr>deployed_operator := None\<rparr>],
          deployed_operators := deployed_operators w,
          operators := (operators w)(o2 := retreat (operators w o2))\<rparr>"
    by (simp add: remove_operator_def)
  moreover have "ops_shrink (operators w) ((operators w)(o2 := retreat (operators w o2)))"
    by (rule ops_shrink_upd) (simp_all add: retreat_def)
  ultimately show ?thesis unfolding operators_phase_def by blast
qed

lemma retreat_operator_phase:
  assumes "retreat_operator oid w = Inr (b, w')"
  shows "operators_phase w w'"
proof (cases "oid \<in> set (deployed_operators w)")
  case False
  with assms show ?thesis by (simp add: retreat_operator_def operators_phase_refl)
next
  case True
  with assms obtain w1 where
    w1: "w1 = w \<or> (\<exists>i. w1 = remove_operator i w)"
    and w': "w' = w1\<lparr>deployed_operators := remove1 oid (deployed_operators w1),
                     operators := (operators w1)(oid := retreat (operators w1 oid))\<rparr>"
    by (auto simp: retreat_operator_def and_then_eq_Inr Let_def
          split: if_splits position_value.splits option.splits)
  from w1 have a: "operators_phase w w1"
  proof
    assume "w1 = w"
    then show ?thesis by (simp add: operators_phase_refl)
  next
    assume "\<exists>i. w1 = remove_operator i w"
    then show ?thesis using remove_operator_phase by blast
  qed
  have "ops_shrink (operators w1) ((operators w1)(oid := retreat (operators w1 oid)))"
    by (rule ops_shrink_upd) (simp_all add: retreat_def)
  moreover have "w' = w1\<lparr>tiles := tiles w1, deployed_operators := remove1 oid (deployed_operators w1),
                     operators := (operators w1)(oid := retreat (operators w1 oid))\<rparr>"
    by (simp add: w')
  ultimately have "operators_phase w1 w'" unfolding operators_phase_def by blast
  with a show ?thesis using operators_phase_trans by blast
qed

lemma operator_step_phase:
  assumes "operator_step delta_time oid w = Inr w'"
  shows "operators_phase w w'"
proof -
  from assms obtain op' where
    op': "operator_update delta_time (operators w oid) = Inr op'"
    and w': "(if \<not> is_alive op'
              then and_then (retreat_operator oid (w\<lparr>operators := (operators w)(oid := op')\<rparr>)) (\<lambda>r. Inr (snd r))
              else Inr (w\<lparr>operators := (operators w)(oid := op')\<rparr>)) = Inr w'"
    by (auto simp: operator_step_def and_then_eq_Inr Let_def)
  let ?w1 = "w\<lparr>operators := (operators w)(oid := op')\<rparr>"
  have "ops_shrink (operators w) ((operators w)(oid := op'))"
    using operator_update_frame [OF op'] by (simp add: ops_shrink_upd)
  moreover have "?w1 = w\<lparr>tiles := tiles w, deployed_operators := deployed_operators w,
                          operators := (operators w)(oid := op')\<rparr>" by simp
  ultimately have a: "operators_phase w ?w1" unfolding operators_phase_def by blast
  show ?thesis
  proof (cases "is_alive op'")
    case True
    with w' a show ?thesis by simp
  next
    case False
    with w' obtain b where "retreat_operator oid ?w1 = Inr (b, w')"
      by (auto simp: and_then_eq_Inr)
    from retreat_operator_phase [OF this] a show ?thesis
      using operators_phase_trans by blast
  qed
qed

lemma operators_loop_phase:
  "for_each (operator_step delta_time) xs w = Inr w' \<Longrightarrow> operators_phase w w'"
  by (rule for_each_related [where R = operators_phase and body = "operator_step delta_time" and xs = xs])
     (erule operator_step_phase, rule operators_phase_refl, erule operators_phase_trans, assumption+)

section \<open>The enemies' turn\<close>

lemma enemies_phaseI:
  "w' = w\<lparr>current_life_points := L, active_enemies := A, is_defeat := F, enemies := E\<rparr> \<Longrightarrow>
   L \<le> current_life_points w \<Longrightarrow>
   (F \<longleftrightarrow> is_defeat w \<or> (L \<le> 0 \<and> L < current_life_points w)) \<Longrightarrow>
   enemies_phase w w'"
  unfolding enemies_phase_def by blast

lemma enemies_phase_refl: "enemies_phase w w"
  by (rule enemies_phaseI [where L = "current_life_points w" and A = "active_enemies w"
        and F = "is_defeat w" and E = "enemies w"]) simp_all

lemma enemies_phase_trans:
  assumes "enemies_phase a b" and "enemies_phase b c"
  shows "enemies_phase a c"
proof -
  from assms(1) obtain L A F E where
    ab: "b = a\<lparr>current_life_points := L, active_enemies := A, is_defeat := F, enemies := E\<rparr>"
      "L \<le> current_life_points a" "F \<longleftrightarrow> is_defeat a \<or> (L \<le> 0 \<and> L < current_life_points a)"
    unfolding enemies_phase_def by blast
  from assms(2) obtain L' A' F' E' where
    bc: "c = b\<lparr>current_life_points := L', active_enemies := A', is_defeat := F', enemies := E'\<rparr>"
      "L' \<le> current_life_points b" "F' \<longleftrightarrow> is_defeat b \<or> (L' \<le> 0 \<and> L' < current_life_points b)"
    unfolding enemies_phase_def by blast
  have lb: "current_life_points b = L" "is_defeat b = F" by (simp_all add: ab(1))
  have "c = a\<lparr>current_life_points := L', active_enemies := A', is_defeat := F', enemies := E'\<rparr>"
    by (simp add: bc(1) ab(1))
  moreover have "L' \<le> current_life_points a" using bc(2) ab(2) lb by simp
  moreover have "F' \<longleftrightarrow> is_defeat a \<or> (L' \<le> 0 \<and> L' < current_life_points a)"
    using bc(2,3) ab(2,3) lb by auto
  ultimately show ?thesis unfolding enemies_phase_def by blast
qed

lemma enemy_step_cases:
  assumes "enemy_step delta_time eid w = Inr w'"
  obtains
    (goal) enemy where "enemy_update delta_time (enemies w eid) = Inr enemy"
      "has_reached_goal enemy" "eid \<in> set (active_enemies w)"
      "w' = w\<lparr>current_life_points := current_life_points w - 1,
              active_enemies := remove1 eid (active_enemies w),
              is_defeat := (is_defeat w \<or> current_life_points w - 1 \<le> 0),
              enemies := (enemies w)(eid := enemy)\<rparr>"
  | (dead) enemy where "enemy_update delta_time (enemies w eid) = Inr enemy"
      "\<not> has_reached_goal enemy" "\<not> is_alive enemy" "eid \<in> set (active_enemies w)"
      "w' = w\<lparr>active_enemies := remove1 eid (active_enemies w),
              enemies := (enemies w)(eid := enemy)\<rparr>"
  | (alive) enemy where "enemy_update delta_time (enemies w eid) = Inr enemy"
      "\<not> has_reached_goal enemy" "is_alive enemy"
      "w' = w\<lparr>enemies := (enemies w)(eid := enemy)\<rparr>"
proof -
  from assms obtain enemy where
    e: "enemy_update delta_time (enemies w eid) = Inr enemy"
    and body: "(let w1 = w\<lparr>enemies := (enemies w)(eid := enemy)\<rparr>
       in if has_reached_goal enemy then
            and_then (list_remove eid (active_enemies w1)) (\<lambda>remaining.
              let w2 = w1\<lparr>current_life_points := current_life_points w1 - 1,
                          active_enemies := remaining\<rparr>
              in Inr (if current_life_points w2 \<le> 0 then w2\<lparr>is_defeat := True\<rparr> else w2))
          else if \<not> is_alive enemy then
            and_then (list_remove eid (active_enemies w1)) (\<lambda>remaining.
              Inr (w1\<lparr>active_enemies := remaining\<rparr>))
          else Inr w1) = Inr w'"
    unfolding enemy_step_def and_then_eq_Inr by blast
  show thesis
  proof (cases "has_reached_goal enemy")
    case True
    with body have in_list: "eid \<in> set (active_enemies w)"
      by (simp add: Let_def list_remove_def and_then_eq_Inr split: if_splits)
    with body True have "w' = w\<lparr>current_life_points := current_life_points w - 1,
              active_enemies := remove1 eid (active_enemies w),
              is_defeat := (is_defeat w \<or> current_life_points w - 1 \<le> 0),
              enemies := (enemies w)(eid := enemy)\<rparr>"
      by (cases "current_life_points w - 1 \<le> 0") (auto simp: Let_def list_remove_def)
    with e True in_list show thesis by (rule goal)
  next
    case False
    show thesis
    proof (cases "is_alive enemy")
      case True
      with body False have "w' = w\<lparr>enemies := (enemies w)(eid := enemy)\<rparr>"
        by (simp add: Let_def)
      with e False True show thesis by (rule alive)
    next
      case dead_now: False
      with body False have in_list: "eid \<in> set (active_enemies w)"
        by (simp add: Let_def list_remove_def and_then_eq_Inr split: if_splits)
      with body False dead_now have "w' = w\<lparr>active_enemies := remove1 eid (active_enemies w),
              enemies := (enemies w)(eid := enemy)\<rparr>"
        by (auto simp: Let_def list_remove_def)
      with e False dead_now in_list show thesis by (rule dead)
    qed
  qed
qed

lemma enemy_step_phase:
  assumes "enemy_step delta_time eid w = Inr w'"
  shows "enemies_phase w w'"
  using assms
proof (cases rule: enemy_step_cases)
  case (goal enemy)
  show ?thesis
    by (rule enemies_phaseI [OF goal(4)]) auto
next
  case (dead enemy)
  then have "w' = w\<lparr>current_life_points := current_life_points w,
      active_enemies := remove1 eid (active_enemies w), is_defeat := is_defeat w,
      enemies := (enemies w)(eid := enemy)\<rparr>" by simp
  then show ?thesis
    by (rule enemies_phaseI) auto
next
  case (alive enemy)
  then have "w' = w\<lparr>current_life_points := current_life_points w,
      active_enemies := active_enemies w, is_defeat := is_defeat w,
      enemies := (enemies w)(eid := enemy)\<rparr>" by simp
  then show ?thesis
    by (rule enemies_phaseI) auto
qed

lemma enemies_loop_phase:
  "for_each (enemy_step delta_time) xs w = Inr w' \<Longrightarrow> enemies_phase w w'"
  by (rule for_each_related [where R = enemies_phase and body = "enemy_step delta_time" and xs = xs])
     (erule enemy_step_phase, rule enemies_phase_refl, erule enemies_phase_trans, assumption+)

lemma enemies_loop_count:
  "for_each (enemy_step delta_time) xs w = Inr w' \<Longrightarrow> distinct xs \<Longrightarrow> distinct (active_enemies w) \<Longrightarrow>
   current_life_points w'
     = current_life_points w - int (length (filter (\<lambda>e. has_reached_goal (enemies w' e)) xs))
   \<and> (\<forall>e. e \<notin> set xs \<longrightarrow> enemies w' e = enemies w e)
   \<and> active_enemies w'
       = filter (\<lambda>e. e \<notin> set xs \<or> (\<not> has_reached_goal (enemies w' e) \<and> is_alive (enemies w' e)))
           (active_enemies w)"
proof (induction xs arbitrary: w)
  case Nil
  then show ?case by simp
next
  case (Cons eid rest)
  from Cons.prems(1) obtain w2 where
    step: "enemy_step delta_time eid w = Inr w2"
    and rest: "for_each (enemy_step delta_time) rest w2 = Inr w'"
    by (auto simp: and_then_eq_Inr)
  have d: "distinct rest" "eid \<notin> set rest" using Cons.prems(2) by simp_all
  have rm: "remove1 eid (active_enemies w) = filter (\<lambda>e. e \<noteq> eid) (active_enemies w)"
    using Cons.prems(3) distinct_remove1_removeAll [of "active_enemies w" eid]
    by (simp add: removeAll_filter_not_eq) (rule filter_cong, auto)
  from step obtain enemy where
    stored: "enemies w2 eid = enemy"
    and others2: "\<forall>e. e \<noteq> eid \<longrightarrow> enemies w2 e = enemies w e"
    and shape: "(has_reached_goal enemy
                   \<and> current_life_points w2 = current_life_points w - 1
                   \<and> active_enemies w2 = filter (\<lambda>e. e \<noteq> eid) (active_enemies w))
                \<or> (\<not> has_reached_goal enemy \<and> \<not> is_alive enemy
                   \<and> current_life_points w2 = current_life_points w
                   \<and> active_enemies w2 = filter (\<lambda>e. e \<noteq> eid) (active_enemies w))
                \<or> (\<not> has_reached_goal enemy \<and> is_alive enemy
                   \<and> current_life_points w2 = current_life_points w
                   \<and> active_enemies w2 = active_enemies w)"
  proof (cases rule: enemy_step_cases)
    case (goal enemy)
    then have "enemies w2 eid = enemy" "\<forall>e. e \<noteq> eid \<longrightarrow> enemies w2 e = enemies w e"
      "has_reached_goal enemy
         \<and> current_life_points w2 = current_life_points w - 1
         \<and> active_enemies w2 = filter (\<lambda>e. e \<noteq> eid) (active_enemies w)"
      using rm by simp_all
    then show ?thesis using that by blast
  next
    case (dead enemy)
    then have "enemies w2 eid = enemy" "\<forall>e. e \<noteq> eid \<longrightarrow> enemies w2 e = enemies w e"
      "\<not> has_reached_goal enemy \<and> \<not> is_alive enemy
         \<and> current_life_points w2 = current_life_points w
         \<and> active_enemies w2 = filter (\<lambda>e. e \<noteq> eid) (active_enemies w)"
      using rm by simp_all
    then show ?thesis using that by blast
  next
    case (alive enemy)
    then have "enemies w2 eid = enemy" "\<forall>e. e \<noteq> eid \<longrightarrow> enemies w2 e = enemies w e"
      "\<not> has_reached_goal enemy \<and> is_alive enemy
         \<and> current_life_points w2 = current_life_points w
         \<and> active_enemies w2 = active_enemies w"
      by simp_all
    then show ?thesis using that by blast
  qed
  have d2: "distinct (active_enemies w2)"
    using shape Cons.prems(3) by auto
  from Cons.IH [OF rest d(1) d2] have
    ih1: "current_life_points w'
           = current_life_points w2 - int (length (filter (\<lambda>e. has_reached_goal (enemies w' e)) rest))"
    and ih2: "\<forall>e. e \<notin> set rest \<longrightarrow> enemies w' e = enemies w2 e"
    and ih3: "active_enemies w'
       = filter (\<lambda>e. e \<notin> set rest \<or> (\<not> has_reached_goal (enemies w' e) \<and> is_alive (enemies w' e)))
           (active_enemies w2)"
    by blast+
  from ih2 d(2) stored have final: "enemies w' eid = enemy" by simp
  have others: "\<forall>e. e \<notin> set (eid # rest) \<longrightarrow> enemies w' e = enemies w e"
    using ih2 others2 by simp
  have life: "current_life_points w'
     = current_life_points w - int (length (filter (\<lambda>e. has_reached_goal (enemies w' e)) (eid # rest)))"
    using ih1 shape final by auto
  have "active_enemies w'
       = filter (\<lambda>e. e \<notin> set (eid # rest) \<or> (\<not> has_reached_goal (enemies w' e) \<and> is_alive (enemies w' e)))
           (active_enemies w)"
  proof -
    { assume a: "active_enemies w2 = filter (\<lambda>e. e \<noteq> eid) (active_enemies w)"
        "has_reached_goal enemy \<or> \<not> is_alive enemy"
      have ?thesis
        unfolding ih3 a(1) filter_filter
        by (rule filter_cong) (use a(2) final in auto) }
    moreover
    { assume a: "active_enemies w2 = active_enemies w"
        "\<not> has_reached_goal enemy" "is_alive enemy"
      have ?thesis
        unfolding ih3 a(1)
        by (rule filter_cong) (use a(2,3) final d(2) in auto) }
    ultimately show ?thesis using shape by blast
  qed
  with life others show ?case by blast
qed

section \<open>Combat and blocking\<close>

lemma fight_phaseI:
  "w' = w\<lparr>operators := ops, enemies := E\<rparr> \<Longrightarrow>
   (\<And>e. has_reached_goal (E e) = has_reached_goal (enemies w e)) \<Longrightarrow> fight_phase w w'"
  unfolding fight_phase_def by blast

lemma fight_phase_refl: "fight_phase w w"
  by (rule fight_phaseI [where ops = "operators w" and E = "enemies w"]) simp_all

lemma fight_phase_trans:
  assumes "fight_phase a b" and "fight_phase b c"
  shows "fight_phase a c"
proof -
  from assms(1) obtain ops E where
    ab: "b = a\<lparr>operators := ops, enemies := E\<rparr>"
      "\<forall>e. has_reached_goal (E e) = has_reached_goal (enemies a e)"
    unfolding fight_phase_def by blast
  from assms(2) obtain ops' E' where
    bc: "c = b\<lparr>operators := ops', enemies := E'\<rparr>"
      "\<forall>e. has_reached_goal (E' e) = has_reached_goal (enemies b e)"
    unfolding fight_phase_def by blast
  have "enemies b = E" by (simp add: ab(1))
  with ab(2) bc(2) have "\<And>e. has_reached_goal (E' e) = has_reached_goal (enemies a e)" by simp
  moreover have "c = a\<lparr>operators := ops', enemies := E'\<rparr>" by (simp add: bc(1) ab(1))
  ultimately show ?thesis by (rule fight_phaseI [rotated])
qed

lemma ops_step_refl: "ops_step w w"
  by (simp add: ops_step_def)

lemma ops_step_trans: "ops_step a b \<Longrightarrow> ops_step b c \<Longrightarrow> ops_step a c"
  unfolding ops_step_def by (rule ops_shrink_trans)

lemma lose_hp_enemy [simp]:
  "has_reached_goal (lose_hp d e) = has_reached_goal e"
  "is_blocked (lose_hp d e) = is_blocked e"
  "blocked_by (lose_hp d e) = blocked_by e"
  by (simp_all add: lose_hp_def Let_def)

lemma lose_hp_operator [simp]:
  "max_block_count (lose_hp d op) = max_block_count op"
  "blocked_enemies (lose_hp d op) = blocked_enemies op"
  by (simp_all add: lose_hp_def Let_def)

lemma operator_attack_cases:
  assumes "operator_attack oid w = Inr w'"
  shows "w' = w \<or> (\<exists>eid cooldown.
           w' = w\<lparr>operators := (operators w)(oid := (operators w oid)\<lparr>attack_cooldown := cooldown\<rparr>),
                   enemies := (enemies w)
                     (eid := lose_hp (max 1 (atk (operators w oid) - defense (enemies w eid))) (enemies w eid))\<rparr>)"
proof (cases "attack_cooldown (operators w oid) \<le> 0")
  case False
  with assms show ?thesis by (simp add: operator_attack_def)
next
  case True
  with assms obtain found where
    body: "(case found of
            None \<Rightarrow> Inr w
          | Some eid \<Rightarrow>
              and_then (py_div (base_attack_time (operators w oid)) (attack_speed (operators w oid)))
                (\<lambda>cooldown.
                    Inr (w\<lparr>enemies := (enemies w)
                             (eid := lose_hp (max 1 (atk (operators w oid) - defense (enemies w eid))) (enemies w eid)),
                           operators := (operators w)
                             (oid := (operators w oid)\<lparr>attack_cooldown := cooldown\<rparr>)\<rparr>))) = Inr w'"
    by (auto simp: operator_attack_def and_then_eq_Inr)
  show ?thesis
  proof (cases found)
    case None
    with body show ?thesis by simp
  next
    case (Some eid)
    with body obtain cooldown where
      "w' = w\<lparr>enemies := (enemies w)
                 (eid := lose_hp (max 1 (atk (operators w oid) - defense (enemies w eid))) (enemies w eid)),
              operators := (operators w)(oid := (operators w oid)\<lparr>attack_cooldown := cooldown\<rparr>)\<rparr>"
      by (auto simp: Let_def and_then_eq_Inr)
    then have "w' = w\<lparr>operators := (operators w)(oid := (operators w oid)\<lparr>attack_cooldown := cooldown\<rparr>),
                   enemies := (enemies w)
                     (eid := lose_hp (max 1 (atk (operators w oid) - defense (enemies w eid))) (enemies w eid))\<rparr>"
      by simp
    then show ?thesis by blast
  qed
qed

lemma enemy_attack_cases:
  assumes "enemy_attack eid w = Inr w'"
  shows "w' = w \<or> (\<exists>oid cooldown.
           w' = w\<lparr>operators := (operators w)
                     (oid := lose_hp (max 1 (atk (enemies w eid) - defense (operators w oid))) (operators w oid)),
                   enemies := (enemies w)(eid := (enemies w eid)\<lparr>attack_cooldown := cooldown\<rparr>)\<rparr>)"
proof (cases "is_blocked (enemies w eid) \<and> attack_cooldown (enemies w eid) \<le> 0")
  case False
  with assms show ?thesis by (simp add: enemy_attack_def)
next
  case True
  show ?thesis
  proof (cases "blocked_by (enemies w eid)")
    case None
    with True assms show ?thesis by (simp add: enemy_attack_def)
  next
    case (Some oid)
    with True assms obtain cooldown where
      "w' = w\<lparr>operators := (operators w)
                     (oid := lose_hp (max 1 (atk (enemies w eid) - defense (operators w oid))) (operators w oid)),
                   enemies := (enemies w)(eid := (enemies w eid)\<lparr>attack_cooldown := cooldown\<rparr>)\<rparr>"
      by (auto simp: enemy_attack_def Let_def and_then_eq_Inr)
    then show ?thesis by blast
  qed
qed

lemma operator_attack_fight:
  assumes "operator_attack oid w = Inr w'"
  shows "fight_phase w w'"
  using operator_attack_cases [OF assms]
proof (elim disjE exE)
  assume "w' = w"
  then show ?thesis by (simp add: fight_phase_refl)
next
  fix eid cooldown
  assume eq: "w' = w\<lparr>operators := (operators w)(oid := (operators w oid)\<lparr>attack_cooldown := cooldown\<rparr>),
                   enemies := (enemies w)
                     (eid := lose_hp (max 1 (atk (operators w oid) - defense (enemies w eid))) (enemies w eid))\<rparr>"
  show ?thesis by (rule fight_phaseI [OF eq]) simp
qed

lemma enemy_attack_fight:
  assumes "enemy_attack eid w = Inr w'"
  shows "fight_phase w w'"
  using enemy_attack_cases [OF assms]
proof (elim disjE exE)
  assume "w' = w"
  then show ?thesis by (simp add: fight_phase_refl)
next
  fix oid cooldown
  assume eq: "w' = w\<lparr>operators := (operators w)
                     (oid := lose_hp (max 1 (atk (enemies w eid) - defense (operators w oid))) (operators w oid)),
                   enemies := (enemies w)(eid := (enemies w eid)\<lparr>attack_cooldown := cooldown\<rparr>)\<rparr>"
  show ?thesis by (rule fight_phaseI [OF eq]) simp
qed

lemma operator_attack_ops: "operator_attack oid w = Inr w' \<Longrightarrow> ops_step w w'"
  by (drule operator_attack_cases) (auto simp: ops_step_def ops_shrink_def)

lemma enemy_attack_ops: "enemy_attack eid w = Inr w' \<Longrightarrow> ops_step w w'"
  by (drule enemy_attack_cases) (auto simp: ops_step_def ops_shrink_def)

lemma process_combat_fight:
  assumes "process_combat delta_time w = Inr w'"
  shows "fight_phase w w'"
proof -
  from assms obtain w1 where
    a: "for_each operator_attack (deployed_operators w) w = Inr w1"
    and b: "for_each enemy_attack (active_enemies w1) w1 = Inr w'"
    by (auto simp: process_combat_def and_then_eq_Inr)
  have "fight_phase w w1"
    by (rule for_each_related [where R = fight_phase, OF _ _ _ a])
       (erule operator_attack_fight, rule fight_phase_refl, erule fight_phase_trans, assumption)
  moreover have "fight_phase w1 w'"
    by (rule for_each_related [where R = fight_phase, OF _ _ _ b])
       (erule enemy_attack_fight, rule fight_phase_refl, erule fight_phase_trans, assumption)
  ultimately show ?thesis by (rule fight_phase_trans)
qed

lemma process_combat_ops:
  assumes "process_combat delta_time w = Inr w'"
  shows "ops_step w w'"
proof -
  from assms obtain w1 where
    a: "for_each operator_attack (deployed_operators w) w = Inr w1"
    and b: "for_each enemy_attack (active_enemies w1) w1 = Inr w'"
    by (auto simp: process_combat_def and_then_eq_Inr)
  have "ops_step w w1"
    by (rule for_each_related [where R = ops_step, OF _ _ _ a])
       (erule operator_attack_ops, rule ops_step_refl, erule ops_step_trans, assumption)
  moreover have "ops_step w1 w'"
    by (rule for_each_related [where R = ops_step, OF _ _ _ b])
       (erule enemy_attack_ops, rule ops_step_refl, erule ops_step_trans, assumption)
  ultimately show ?thesis by (rule ops_step_trans)
qed

lemma within_capacity_ops_step: "within_capacity w \<Longrightarrow> ops_step w w' \<Longrightarrow> within_capacity w'"
  unfolding within_capacity_def ops_step_def ops_shrink_def
proof (intro allI)
  fix oid
  assume a: "\<forall>oid. int (length (blocked_enemies (operators w oid))) \<le> max_block_count (operators w oid)"
    and b: "\<forall>oid. max_block_count (operators w' oid) = max_block_count (operators w oid) \<and>
          length (blocked_enemies (operators w' oid)) \<le> length (blocked_enemies (operators w oid))"
  from a have "int (length (blocked_enemies (operators w oid))) \<le> max_block_count (operators w oid)"
    by blast
  moreover from b have "max_block_count (operators w' oid) = max_block_count (operators w oid)"
    "length (blocked_enemies (operators w' oid)) \<le> length (blocked_enemies (operators w oid))"
    by blast+
  ultimately show "int (length (blocked_enemies (operators w' oid))) \<le> max_block_count (operators w' oid)"
    by simp
qed

lemma block_enemy_cases:
  assumes "block_enemy eid w = Inr w'"
  shows "w' = w \<or> (\<exists>oid.
           int (length (blocked_enemies (operators w oid))) < max_block_count (operators w oid)
           \<and> \<not> is_blocked (enemies w eid)
           \<and> w' = w\<lparr>operators := (operators w)
                     (oid := (operators w oid)
                        \<lparr>blocked_enemies := blocked_enemies (operators w oid) @ [eid]\<rparr>),
                   enemies := (enemies w)(eid := get_blocked_by oid (enemies w eid))\<rparr>)"
proof (cases "is_blocked (enemies w eid) \<or> \<not> truthy (position (enemies w eid))")
  case True
  with assms show ?thesis by (simp add: block_enemy_def)
next
  case False
  then have nb: "\<not> is_blocked (enemies w eid)" by simp
  show ?thesis
  proof (cases "position (enemies w eid)")
    case NoPosition
    with False assms show ?thesis by (simp add: block_enemy_def)
  next
    case (PlacementClass s)
    with False assms show ?thesis by (simp add: block_enemy_def)
  next
    case (AtPosition pos)
    show ?thesis
    proof (cases "get_tile_at pos w")
      case (Inl err)
      with False AtPosition assms show ?thesis by (simp add: block_enemy_def)
    next
      case (Inr tile)
      show ?thesis
      proof (cases tile)
        case None
        with Inr False AtPosition assms show ?thesis by (simp add: block_enemy_def)
      next
        case (Some i)
        show ?thesis
        proof (cases "deployed_operator (tiles w ! i)")
          case None
          with Some Inr False AtPosition assms show ?thesis by (simp add: block_enemy_def)
        next
          case occupied: (Some oid)
          show ?thesis
          proof (cases "int (length (blocked_enemies (operators w oid))) < max_block_count (operators w oid)")
            case no_room: False
            with occupied Some Inr False AtPosition assms show ?thesis
              by (simp add: block_enemy_def)
          next
            case True
            with occupied Some Inr False AtPosition assms have
              "w' = w\<lparr>operators := (operators w)
                       (oid := (operators w oid)
                          \<lparr>blocked_enemies := blocked_enemies (operators w oid) @ [eid]\<rparr>),
                     enemies := (enemies w)(eid := get_blocked_by oid (enemies w eid))\<rparr>"
              by (auto simp: block_enemy_def)
            with True nb show ?thesis by blast
          qed
        qed
      qed
    qed
  qed
qed

lemma block_enemy_fight:
  assumes "block_enemy eid w = Inr w'"
  shows "fight_phase w w'"
  using block_enemy_cases [OF assms]
proof (elim disjE exE conjE)
  assume "w' = w"
  then show ?thesis by (simp add: fight_phase_refl)
next
  fix oid
  assume eq: "w' = w\<lparr>operators := (operators w)
                     (oid := (operators w oid)
                        \<lparr>blocked_enemies := blocked_enemies (operators w oid) @ [eid]\<rparr>),
                   enemies := (enemies w)(eid := get_blocked_by oid (enemies w eid))\<rparr>"
  show ?thesis by (rule fight_phaseI [OF eq]) (simp add: get_blocked_by_def)
qed

lemma block_enemy_capacity:
  assumes "within_capacity w" and "block_enemy eid w = Inr w'"
  shows "within_capacity w'"
  using block_enemy_cases [OF assms(2)]
proof (elim disjE exE conjE)
  assume "w' = w"
  with assms(1) show ?thesis by simp
next
  fix oid
  assume room: "int (length (blocked_enemies (operators w oid))) < max_block_count (operators w oid)"
    and eq: "w' = w\<lparr>operators := (operators w)
                     (oid := (operators w oid)
                        \<lparr>blocked_enemies := blocked_enemies (operators w oid) @ [eid]\<rparr>),
                   enemies := (enemies w)(eid := get_blocked_by oid (enemies w eid))\<rparr>"
  show ?thesis unfolding within_capacity_def
  proof (intro allI)
    fix o2
    from assms(1) have "int (length (blocked_enemies (operators w o2))) \<le> max_block_count (operators w o2)"
      unfolding within_capacity_def by blast
    with room show "int (length (blocked_enemies (operators w' o2))) \<le> max_block_count (operators w' o2)"
      by (cases "o2 = oid") (simp_all add: eq)
  qed
qed

lemma purge_dead_enemies_shape:
  "purge_dead_enemies oid w = Inr w' \<Longrightarrow>
   w' = w\<lparr>operators := (operators w)
            (oid := (operators w oid)
               \<lparr>blocked_enemies :=
                  filter (\<lambda>e. is_alive (enemies w e)) (blocked_enemies (operators w oid))\<rparr>),
          enemies := enemies w\<rparr>"
  by (auto simp: purge_dead_enemies_def)

lemma purge_dead_enemies_fight: "purge_dead_enemies oid w = Inr w' \<Longrightarrow> fight_phase w w'"
  by (rule fight_phaseI [OF purge_dead_enemies_shape]) simp_all

lemma purge_dead_enemies_ops: "purge_dead_enemies oid w = Inr w' \<Longrightarrow> ops_step w w'"
  by (drule purge_dead_enemies_shape) (simp add: ops_step_def ops_shrink_def)

lemma release_orphan_cases:
  assumes "release_orphan eid w = Inr w'"
  shows "(w' = w \<and> backref_ok w eid)
         \<or> w' = w\<lparr>operators := operators w, enemies := (enemies w)(eid := release_block (enemies w eid))\<rparr>"
proof (cases "blocked_by (enemies w eid)")
  case None
  with assms show ?thesis by (simp add: release_orphan_def backref_ok_def)
next
  case (Some oid)
  show ?thesis
  proof (cases "is_blocked (enemies w eid)
             \<and> (oid \<notin> set (deployed_operators w) \<or> \<not> is_alive (operators w oid))")
    case True
    with Some assms show ?thesis by (auto simp: release_orphan_def split: if_splits)
  next
    case False
    with Some assms have "w' = w" by (auto simp: release_orphan_def split: if_splits)
    moreover from False Some have "backref_ok w eid" by (auto simp: backref_ok_def)
    ultimately show ?thesis by blast
  qed
qed

lemma release_orphan_fight:
  assumes "release_orphan eid w = Inr w'"
  shows "fight_phase w w'"
  using release_orphan_cases [OF assms]
proof (elim disjE conjE)
  assume "w' = w"
  then show ?thesis by (simp add: fight_phase_refl)
next
  assume eq: "w' = w\<lparr>operators := operators w,
                     enemies := (enemies w)(eid := release_block (enemies w eid))\<rparr>"
  show ?thesis by (rule fight_phaseI [OF eq]) (simp add: release_block_def)
qed

lemma release_phase_refl: "release_phase w w"
  by (simp add: release_phase_def)

lemma release_phase_trans:
  assumes "release_phase a b" and "release_phase b c"
  shows "release_phase a c"
  unfolding release_phase_def
proof (intro conjI allI)
  from assms show "operators c = operators a" "deployed_operators c = deployed_operators a"
    by (simp_all add: release_phase_def)
  fix e
  from assms(1) have ab: "enemies b e = enemies a e \<or> \<not> is_blocked (enemies b e)"
    by (simp add: release_phase_def)
  from assms(2) have bc: "enemies c e = enemies b e \<or> \<not> is_blocked (enemies c e)"
    by (simp add: release_phase_def)
  from ab bc show "enemies c e = enemies a e \<or> \<not> is_blocked (enemies c e)"
    by auto
qed

lemma release_orphan_phase:
  assumes "release_orphan eid w = Inr w'"
  shows "release_phase w w'"
  using release_orphan_cases [OF assms]
proof (elim disjE conjE)
  assume "w' = w"
  then show ?thesis by (simp add: release_phase_refl)
next
  assume eq: "w' = w\<lparr>operators := operators w,
                     enemies := (enemies w)(eid := release_block (enemies w eid))\<rparr>"
  show ?thesis by (simp add: release_phase_def eq release_block_def)
qed

lemma release_loop_phase:
  "for_each release_orphan xs w = Inr w' \<Longrightarrow> release_phase w w'"
  by (rule for_each_related [where R = release_phase and body = release_orphan and xs = xs])
     (erule release_orphan_phase, rule release_phase_refl, erule release_phase_trans, assumption+)

lemma backref_ok_release_phase:
  assumes "release_phase w w'" and "backref_ok w eid \<or> \<not> is_blocked (enemies w eid)"
  shows "backref_ok w' eid"
proof -
  from assms(1) have same: "operators w' = operators w" "deployed_operators w' = deployed_operators w"
    and e: "enemies w' eid = enemies w eid \<or> \<not> is_blocked (enemies w' eid)"
    by (simp_all add: release_phase_def)
  from e show ?thesis
  proof
    assume "\<not> is_blocked (enemies w' eid)"
    then show ?thesis by (simp add: backref_ok_def)
  next
    assume "enemies w' eid = enemies w eid"
    with assms(2) same show ?thesis by (auto simp: backref_ok_def)
  qed
qed

lemma release_loop_backrefs:
  "for_each release_orphan xs w = Inr w' \<Longrightarrow> \<forall>eid \<in> set xs. backref_ok w' eid"
proof (induction xs arbitrary: w)
  case Nil
  then show ?case by simp
next
  case (Cons eid rest)
  from Cons.prems obtain w1 where
    step: "release_orphan eid w = Inr w1"
    and rest: "for_each release_orphan rest w1 = Inr w'"
    by (auto simp: and_then_eq_Inr)
  have "backref_ok w1 eid \<or> \<not> is_blocked (enemies w1 eid)"
    using release_orphan_cases [OF step] by (auto simp: release_block_def)
  with release_loop_phase [OF rest] have "backref_ok w' eid"
    by (rule backref_ok_release_phase)
  with Cons.IH [OF rest] show ?case by simp
qed

section \<open>The wave scheduler\<close>

lemma spawn_phaseI:
  "w' = w\<lparr>waves := W, active_enemies := active_enemies w @ [next_enemy_id w..<N],
           current_wave_index := I, enemies := E, next_enemy_id := N\<rparr> \<Longrightarrow>
   next_enemy_id w \<le> N \<Longrightarrow>
   (\<And>e. e < next_enemy_id w \<or> N \<le> e \<Longrightarrow> E e = enemies w e) \<Longrightarrow>
   (\<And>e. next_enemy_id w \<le> e \<Longrightarrow> e < N \<Longrightarrow> \<not> is_blocked (E e) \<and> \<not> has_reached_goal (E e)) \<Longrightarrow>
   spawn_phase w w'"
  unfolding spawn_phase_def by blast

lemma spawn_phase_refl: "spawn_phase w w"
  by (rule spawn_phaseI [where W = "waves w" and I = "current_wave_index w" and E = "enemies w"
        and N = "next_enemy_id w"]) simp_all

lemma spawn_phase_trans:
  assumes "spawn_phase a b" and "spawn_phase b c"
  shows "spawn_phase a c"
proof -
  from assms(1) obtain W I E N where
    ab: "b = a\<lparr>waves := W, active_enemies := active_enemies a @ [next_enemy_id a..<N],
               current_wave_index := I, enemies := E, next_enemy_id := N\<rparr>"
    and n1: "next_enemy_id a \<le> N"
    and old1: "\<forall>e. e < next_enemy_id a \<or> N \<le> e \<longrightarrow> E e = enemies a e"
    and new1: "\<forall>e. next_enemy_id a \<le> e \<and> e < N \<longrightarrow> \<not> is_blocked (E e) \<and> \<not> has_reached_goal (E e)"
    unfolding spawn_phase_def by blast
  from assms(2) obtain W' I' E' N' where
    bc: "c = b\<lparr>waves := W', active_enemies := active_enemies b @ [next_enemy_id b..<N'],
               current_wave_index := I', enemies := E', next_enemy_id := N'\<rparr>"
    and n2: "next_enemy_id b \<le> N'"
    and old2: "\<forall>e. e < next_enemy_id b \<or> N' \<le> e \<longrightarrow> E' e = enemies b e"
    and new2: "\<forall>e. next_enemy_id b \<le> e \<and> e < N' \<longrightarrow> \<not> is_blocked (E' e) \<and> \<not> has_reached_goal (E' e)"
    unfolding spawn_phase_def by blast
  have b: "next_enemy_id b = N" "enemies b = E"
    "active_enemies b = active_enemies a @ [next_enemy_id a..<N]"
    by (simp_all add: ab)
  have le: "N \<le> N'" using n2 b by simp
  have upt: "[next_enemy_id a..<N] @ [N..<N'] = [next_enemy_id a..<N']"
    using n1 le by (metis le_Suc_ex upt_add_eq_append)
  have "c = a\<lparr>waves := W', active_enemies := active_enemies a @ [next_enemy_id a..<N'],
               current_wave_index := I', enemies := E', next_enemy_id := N'\<rparr>"
    using upt by (simp add: bc ab)
  moreover have "next_enemy_id a \<le> N'" using n1 le by simp
  moreover have "\<And>e. e < next_enemy_id a \<or> N' \<le> e \<Longrightarrow> E' e = enemies a e"
  proof -
    fix e assume e: "e < next_enemy_id a \<or> N' \<le> e"
    then have "e < N \<or> N' \<le> e" using n1 by auto
    with old2 b have "E' e = E e" by auto
    moreover from e le have "e < next_enemy_id a \<or> N \<le> e" by auto
    with old1 have "E e = enemies a e" by auto
    ultimately show "E' e = enemies a e" by simp
  qed
  moreover have "\<And>e. next_enemy_id a \<le> e \<Longrightarrow> e < N' \<Longrightarrow>
      \<not> is_blocked (E' e) \<and> \<not> has_reached_goal (E' e)"
  proof -
    fix e assume e: "next_enemy_id a \<le> e" "e < N'"
    show "\<not> is_blocked (E' e) \<and> \<not> has_reached_goal (E' e)"
    proof (cases "e < N")
      case True
      with old2 b have "E' e = E e" by auto
      with new1 e(1) True show ?thesis by auto
    next
      case False
      with new2 b e(2) show ?thesis by auto
    qed
  qed
  ultimately show ?thesis by (rule spawn_phaseI)
qed

lemma spawn_enemy_cases:
  assumes "spawn_enemy enemy_id route_idx w = Inr (r, w')"
  shows "w' = w \<or> (\<exists>enemy. \<not> is_blocked enemy \<and> \<not> has_reached_goal enemy
           \<and> w' = w\<lparr>enemies := (enemies w)(next_enemy_id w := enemy),
                     next_enemy_id := Suc (next_enemy_id w),
                     active_enemies := active_enemies w @ [next_enemy_id w]\<rparr>)"
proof (cases "enemy_database w enemy_id")
  case None
  with assms show ?thesis by (simp add: spawn_enemy_def)
next
  case (Some d)
  let ?e = "Enemy_init (next_enemy_id w) enemy_id d"
  have fresh: "\<not> is_blocked ?e \<and> \<not> has_reached_goal ?e"
    by (simp add: Enemy_init_def)
  have fresh_path: "\<And>p. \<not> is_blocked (set_path p ?e) \<and> \<not> has_reached_goal (set_path p ?e)"
    by (simp add: set_path_def Enemy_init_def Let_def split: list.splits)
  from Some assms obtain enemy1 where
    e1: "(if route_idx < int (length (routes w))
          then and_then (py_index (routes w) route_idx) (\<lambda>route. Inr (set_path (path route) ?e))
          else Inr ?e) = Inr enemy1"
    and w': "w' = w\<lparr>enemies := (enemies w)(next_enemy_id w := enemy1),
                     next_enemy_id := Suc (next_enemy_id w),
                     active_enemies := active_enemies w @ [next_enemy_id w]\<rparr>"
    by (auto simp: spawn_enemy_def Let_def and_then_eq_Inr)
  from e1 have "\<not> is_blocked enemy1 \<and> \<not> has_reached_goal enemy1"
    using fresh fresh_path by (auto simp: and_then_eq_Inr split: if_splits)
  with w' show ?thesis by blast
qed

lemma spawn_enemy_phase:
  assumes "spawn_enemy enemy_id route_idx w = Inr (r, w')"
  shows "spawn_phase w w'"
  using spawn_enemy_cases [OF assms]
proof (elim disjE exE conjE)
  assume "w' = w"
  then show ?thesis by (simp add: spawn_phase_refl)
next
  fix enemy
  assume fresh: "\<not> is_blocked enemy" "\<not> has_reached_goal enemy"
    and eq: "w' = w\<lparr>enemies := (enemies w)(next_enemy_id w := enemy),
                     next_enemy_id := Suc (next_enemy_id w),
                     active_enemies := active_enemies w @ [next_enemy_id w]\<rparr>"
  show ?thesis
  proof (rule spawn_phaseI [where W = "waves w" and I = "current_wave_index w"
        and E = "(enemies w)(next_enemy_id w := enemy)" and N = "Suc (next_enemy_id w)"])
    show "w' = w\<lparr>waves := waves w,
              active_enemies := active_enemies w @ [next_enemy_id w..<Suc (next_enemy_id w)],
              current_wave_index := current_wave_index w,
              enemies := (enemies w)(next_enemy_id w := enemy),
              next_enemy_id := Suc (next_enemy_id w)\<rparr>"
      by (simp add: eq)
  qed (use fresh in auto)
qed

lemma action_step_phase:
  assumes "action_step delta_time action w = Inr (a', w')"
  shows "spawn_phase w w'"
proof -
  let ?a1 = "action\<lparr>action_current_time := action_current_time action + delta_time\<rparr>"
  show ?thesis
  proof (cases "\<not> action_is_completed action \<and> action_current_time ?a1 \<ge> action_pre_delay ?a1
                \<and> action_type ?a1 = ''SPAWN'' \<and> spawned_count ?a1 < count ?a1")
    case True
    with assms obtain spawned where
      "spawn_enemy (enemy_key ?a1) (route_index ?a1) w = Inr spawned" "w' = snd spawned"
      by (auto simp: action_step_def Let_def and_then_eq_Inr)
    then have "spawn_enemy (enemy_key ?a1) (route_index ?a1) w = Inr (fst spawned, w')"
      by simp
    then show ?thesis by (rule spawn_enemy_phase)
  next
    case False
    with assms have "w' = w"
      by (auto simp: action_step_def Let_def split: if_splits)
    then show ?thesis by (simp add: spawn_phase_refl)
  qed
qed

lemma actions_loop_phase:
  "for_each_object (action_step delta_time) xs w = Inr (ys, w') \<Longrightarrow> spawn_phase w w'"
  by (rule for_each_object_related [where R = spawn_phase and body = "action_step delta_time" and xs = xs])
     (erule action_step_phase, rule spawn_phase_refl, erule spawn_phase_trans, assumption+)

lemma fragment_step_phase:
  assumes "fragment_step delta_time wave_time fragment w = Inr (f', w')"
  shows "spawn_phase w w'"
proof -
  let ?f1 = "if \<not> fragment_is_active fragment \<and> wave_time \<ge> fragment_pre_delay fragment
             then fragment\<lparr>fragment_is_active := True\<rparr> else fragment"
  show ?thesis
  proof (cases "fragment_is_active ?f1 \<and> \<not> fragment_is_completed ?f1")
    case True
    with assms obtain acted where
      "for_each_object (action_step delta_time)
         (actions (?f1\<lparr>fragment_current_time := fragment_current_time ?f1 + delta_time\<rparr>)) w
       = Inr acted" "w' = snd acted"
      unfolding fragment_step_def Let_def by (auto simp: and_then_eq_Inr split: if_splits)
    then have "for_each_object (action_step delta_time)
         (actions (?f1\<lparr>fragment_current_time := fragment_current_time ?f1 + delta_time\<rparr>)) w
       = Inr (fst acted, w')" by simp
    then show ?thesis by (rule actions_loop_phase)
  next
    case False
    with assms have "w' = w"
      unfolding fragment_step_def Let_def by (auto split: if_splits)
    then show ?thesis by (simp add: spawn_phase_refl)
  qed
qed

lemma fragments_loop_phase:
  "for_each_object (fragment_step delta_time wave_time) xs w = Inr (ys, w') \<Longrightarrow> spawn_phase w w'"
  by (rule for_each_object_related
        [where R = spawn_phase and body = "fragment_step delta_time wave_time" and xs = xs])
     (erule fragment_step_phase, rule spawn_phase_refl, erule spawn_phase_trans, assumption+)

lemma spawn_phase_waves:
  assumes "spawn_phase w w1"
  shows "spawn_phase w (w1\<lparr>waves := W\<rparr>)" "spawn_phase w (w1\<lparr>waves := W, current_wave_index := I\<rparr>)"
proof -
  from assms obtain W1 I1 E N where
    eq: "w1 = w\<lparr>waves := W1, active_enemies := active_enemies w @ [next_enemy_id w..<N],
               current_wave_index := I1, enemies := E, next_enemy_id := N\<rparr>"
    and rest: "next_enemy_id w \<le> N"
      "\<forall>e. e < next_enemy_id w \<or> N \<le> e \<longrightarrow> E e = enemies w e"
      "\<forall>e. next_enemy_id w \<le> e \<and> e < N \<longrightarrow> \<not> is_blocked (E e) \<and> \<not> has_reached_goal (E e)"
    unfolding spawn_phase_def by blast
  have "w1\<lparr>waves := W\<rparr> = w\<lparr>waves := W, active_enemies := active_enemies w @ [next_enemy_id w..<N],
               current_wave_index := I1, enemies := E, next_enemy_id := N\<rparr>"
    by (simp add: eq)
  then show "spawn_phase w (w1\<lparr>waves := W\<rparr>)"
    by (rule spawn_phaseI) (use rest in auto)
  have "w1\<lparr>waves := W, current_wave_index := I\<rparr>
          = w\<lparr>waves := W, active_enemies := active_enemies w @ [next_enemy_id w..<N],
               current_wave_index := I, enemies := E, next_enemy_id := N\<rparr>"
    by (simp add: eq)
  then show "spawn_phase w (w1\<lparr>waves := W, current_wave_index := I\<rparr>)"
    by (rule spawn_phaseI) (use rest in auto)
qed

lemma finish_wave_phase:
  assumes "spawn_phase w w1"
  shows "spawn_phase w (finish_wave k wave frags w1)"
  using spawn_phase_waves [OF assms] by (simp add: finish_wave_def Let_def)

lemma update_waves_phase:
  assumes "update_waves delta_time w = Inr w'"
  shows "spawn_phase w w'"
proof (cases "current_wave_index w \<ge> int (length (waves w))")
  case True
  with assms show ?thesis by (simp add: update_waves_def spawn_phase_refl)
next
  case False
  with assms obtain k scheduled where
    loop: "for_each_object
             (fragment_step delta_time (wave_current_time (advance_wave delta_time (waves w ! k))))
             (fragments (advance_wave delta_time (waves w ! k))) w = Inr scheduled"
    and w': "w' = finish_wave k (advance_wave delta_time (waves w ! k)) (fst scheduled) (snd scheduled)"
    by (auto simp: update_waves_def Let_def and_then_eq_Inr)
  from loop have "for_each_object
             (fragment_step delta_time (wave_current_time (advance_wave delta_time (waves w ! k))))
             (fragments (advance_wave delta_time (waves w ! k))) w
           = Inr (fst scheduled, snd scheduled)" by simp
  then have "spawn_phase w (snd scheduled)" by (rule fragments_loop_phase)
  then show ?thesis unfolding w' by (rule finish_wave_phase)
qed

section \<open>One tick\<close>

lemma operators_phase_fields:
  assumes "operators_phase w w'"
  shows "is_victory w' = is_victory w" "is_defeat w' = is_defeat w"
    "current_life_points w' = current_life_points w" "active_enemies w' = active_enemies w"
    "enemies w' = enemies w" "next_enemy_id w' = next_enemy_id w"
    "waves w' = waves w" "current_wave_index w' = current_wave_index w"
    "ops_step w w'"
proof -
  from assms obtain T D ops where
    eq: "w' = w\<lparr>tiles := T, deployed_operators := D, operators := ops\<rparr>"
    and sh: "ops_shrink (operators w) ops"
    unfolding operators_phase_def by blast
  show "is_victory w' = is_victory w" "is_defeat w' = is_defeat w"
    "current_life_points w' = current_life_points w" "active_enemies w' = active_enemies w"
    "enemies w' = enemies w" "next_enemy_id w' = next_enemy_id w"
    "waves w' = waves w" "current_wave_index w' = current_wave_index w"
    by (simp_all add: eq)
  show "ops_step w w'" using sh by (simp add: ops_step_def eq)
qed

lemma enemies_phase_fields:
  assumes "enemies_phase w w'"
  shows "is_victory w' = is_victory w" "operators w' = operators w"
    "deployed_operators w' = deployed_operators w" "next_enemy_id w' = next_enemy_id w"
    "waves w' = waves w" "current_wave_index w' = current_wave_index w"
    "current_life_points w' \<le> current_life_points w"
    "is_defeat w' \<longleftrightarrow>
       is_defeat w \<or> (current_life_points w' \<le> 0 \<and> current_life_points w' < current_life_points w)"
proof -
  from assms obtain L A F E where
    eq: "w' = w\<lparr>current_life_points := L, active_enemies := A, is_defeat := F, enemies := E\<rparr>"
    and l: "L \<le> current_life_points w"
    and f: "F \<longleftrightarrow> is_defeat w \<or> (L \<le> 0 \<and> L < current_life_points w)"
    unfolding enemies_phase_def by blast
  show "is_victory w' = is_victory w" "operators w' = operators w"
    "deployed_operators w' = deployed_operators w" "next_enemy_id w' = next_enemy_id w"
    "waves w' = waves w" "current_wave_index w' = current_wave_index w"
    by (simp_all add: eq)
  show "current_life_points w' \<le> current_life_points w" using l by (simp add: eq)
  show "is_defeat w' \<longleftrightarrow>
       is_defeat w \<or> (current_life_points w' \<le> 0 \<and> current_life_points w' < current_life_points w)"
    using f by (simp add: eq)
qed

lemma fight_phase_fields:
  assumes "fight_phase w w'"
  shows "is_victory w' = is_victory w" "is_defeat w' = is_defeat w"
    "current_life_points w' = current_life_points w" "active_enemies w' = active_enemies w"
    "deployed_operators w' = deployed_operators w" "next_enemy_id w' = next_enemy_id w"
    "waves w' = waves w" "current_wave_index w' = current_wave_index w"
    "has_reached_goal (enemies w' e) = has_reached_goal (enemies w e)"
proof -
  from assms obtain ops E where
    eq: "w' = w\<lparr>operators := ops, enemies := E\<rparr>"
    and g: "\<forall>e. has_reached_goal (E e) = has_reached_goal (enemies w e)"
    unfolding fight_phase_def by blast
  show "is_victory w' = is_victory w" "is_defeat w' = is_defeat w"
    "current_life_points w' = current_life_points w" "active_enemies w' = active_enemies w"
    "deployed_operators w' = deployed_operators w" "next_enemy_id w' = next_enemy_id w"
    "waves w' = waves w" "current_wave_index w' = current_wave_index w"
    by (simp_all add: eq)
  show "has_reached_goal (enemies w' e) = has_reached_goal (enemies w e)"
    using g by (simp add: eq)
qed

lemma spawn_phase_fields:
  assumes "spawn_phase w w'"
  shows "is_victory w' = is_victory w" "is_defeat w' = is_defeat w"
    "current_life_points w' = current_life_points w"
    "operators w' = operators w" "deployed_operators w' = deployed_operators w"
    "next_enemy_id w \<le> next_enemy_id w'"
    "active_enemies w' = active_enemies w @ [next_enemy_id w..<next_enemy_id w']"
    "e < next_enemy_id w \<or> next_enemy_id w' \<le> e \<Longrightarrow> enemies w' e = enemies w e"
    "next_enemy_id w \<le> e \<Longrightarrow> e < next_enemy_id w' \<Longrightarrow>
       \<not> is_blocked (enemies w' e) \<and> \<not> has_reached_goal (enemies w' e)"
proof -
  from assms obtain W I E N where
    eq: "w' = w\<lparr>waves := W, active_enemies := active_enemies w @ [next_enemy_id w..<N],
                current_wave_index := I, enemies := E, next_enemy_id := N\<rparr>"
    and n: "next_enemy_id w \<le> N"
    and old: "\<forall>e. e < next_enemy_id w \<or> N \<le> e \<longrightarrow> E e = enemies w e"
    and new: "\<forall>e. next_enemy_id w \<le> e \<and> e < N \<longrightarrow> \<not> is_blocked (E e) \<and> \<not> has_reached_goal (E e)"
    unfolding spawn_phase_def by blast
  have N: "next_enemy_id w' = N" "enemies w' = E" by (simp_all add: eq)
  show "is_victory w' = is_victory w" "is_defeat w' = is_defeat w"
    "current_life_points w' = current_life_points w"
    "operators w' = operators w" "deployed_operators w' = deployed_operators w"
    by (simp_all add: eq)
  show "next_enemy_id w \<le> next_enemy_id w'" using n N by simp
  show "active_enemies w' = active_enemies w @ [next_enemy_id w..<next_enemy_id w']"
    by (simp add: eq)
  show "e < next_enemy_id w \<or> next_enemy_id w' \<le> e \<Longrightarrow> enemies w' e = enemies w e"
    using old N by auto
  show "next_enemy_id w \<le> e \<Longrightarrow> e < next_enemy_id w' \<Longrightarrow>
       \<not> is_blocked (enemies w' e) \<and> \<not> has_reached_goal (enemies w' e)"
    using new N by auto
qed

lemma process_blocking_phases:
  assumes "process_blocking w = Inr w'"
  obtains w1 w2 where
    "for_each block_enemy (active_enemies w) w = Inr w1"
    "for_each purge_dead_enemies (deployed_operators w1) w1 = Inr w2"
    "for_each release_orphan (active_enemies w2) w2 = Inr w'"
  using assms by (auto simp: process_blocking_def and_then_eq_Inr)

lemma process_blocking_fight:
  assumes "process_blocking w = Inr w'"
  shows "fight_phase w w'"
  using assms
proof (rule process_blocking_phases)
  fix w1 w2
  assume a: "for_each block_enemy (active_enemies w) w = Inr w1"
    and b: "for_each purge_dead_enemies (deployed_operators w1) w1 = Inr w2"
    and c: "for_each release_orphan (active_enemies w2) w2 = Inr w'"
  have "fight_phase w w1"
    by (rule for_each_related [where R = fight_phase, OF _ _ _ a])
       (erule block_enemy_fight, rule fight_phase_refl, erule fight_phase_trans, assumption)
  moreover have "fight_phase w1 w2"
    by (rule for_each_related [where R = fight_phase, OF _ _ _ b])
       (erule purge_dead_enemies_fight, rule fight_phase_refl, erule fight_phase_trans, assumption)
  moreover have "fight_phase w2 w'"
    by (rule for_each_related [where R = fight_phase, OF _ _ _ c])
       (erule release_orphan_fight, rule fight_phase_refl, erule fight_phase_trans, assumption)
  ultimately show ?thesis using fight_phase_trans by blast
qed

lemma process_blocking_capacity:
  assumes "process_blocking w = Inr w'" and "within_capacity w"
  shows "within_capacity w'"
  using assms(1)
proof (rule process_blocking_phases)
  fix w1 w2
  assume a: "for_each block_enemy (active_enemies w) w = Inr w1"
    and b: "for_each purge_dead_enemies (deployed_operators w1) w1 = Inr w2"
    and c: "for_each release_orphan (active_enemies w2) w2 = Inr w'"
  have "within_capacity w1"
    by (rule for_each_invariant [where P = within_capacity, OF _ assms(2) a])
       (erule block_enemy_capacity, assumption)
  moreover have "ops_step w1 w2"
    by (rule for_each_related [where R = ops_step, OF _ _ _ b])
       (erule purge_dead_enemies_ops, rule ops_step_refl, erule ops_step_trans, assumption)
  ultimately have "within_capacity w2" by (rule within_capacity_ops_step)
  moreover from release_loop_phase [OF c] have "operators w' = operators w2"
    by (simp add: release_phase_def)
  ultimately show ?thesis by (simp add: within_capacity_def)
qed

lemma process_blocking_backrefs:
  assumes "process_blocking w = Inr w'"
  shows "\<forall>eid \<in> set (active_enemies w'). backref_ok w' eid"
  using assms
proof (rule process_blocking_phases)
  fix w1 w2
  assume c: "for_each release_orphan (active_enemies w2) w2 = Inr w'"
  have "fight_phase w2 w'"
    by (rule for_each_related [where R = fight_phase, OF _ _ _ c])
       (erule release_orphan_fight, rule fight_phase_refl, erule fight_phase_trans, assumption)
  then have "active_enemies w' = active_enemies w2" by (rule fight_phase_fields)
  with release_loop_backrefs [OF c] show ?thesis by simp
qed

lemma update_sequence_phases:
  assumes "update_sequence delta_time w = Inr w7"
  obtains gain w3 w4 w5 w6 where
    "for_each (operator_step delta_time) (deployed_operators w)
       (w\<lparr>game_time := game_time w + delta_time,
          current_cost := min (max_cost w) (current_cost w + gain)\<rparr>) = Inr w3"
    "for_each (enemy_step delta_time) (active_enemies w3) w3 = Inr w4"
    "process_combat delta_time w4 = Inr w5"
    "process_blocking w5 = Inr w6"
    "update_waves delta_time w6 = Inr w7"
  using assms by (auto simp: update_sequence_def Let_def and_then_eq_Inr)

lemma update_sequence_flags:
  assumes "update_sequence delta_time w = Inr w7"
  shows "is_victory w7 = is_victory w"
    and "current_life_points w7 \<le> current_life_points w"
    and "is_defeat w7 \<longleftrightarrow>
           is_defeat w \<or> (current_life_points w7 \<le> 0 \<and> current_life_points w7 < current_life_points w)"
proof -
  from assms obtain gain w3 w4 w5 w6 where
    ops: "for_each (operator_step delta_time) (deployed_operators w)
       (w\<lparr>game_time := game_time w + delta_time,
          current_cost := min (max_cost w) (current_cost w + gain)\<rparr>) = Inr w3"
    and ens: "for_each (enemy_step delta_time) (active_enemies w3) w3 = Inr w4"
    and cmb: "process_combat delta_time w4 = Inr w5"
    and blk: "process_blocking w5 = Inr w6"
    and wav: "update_waves delta_time w6 = Inr w7"
    by (rule update_sequence_phases)
  let ?w2 = "w\<lparr>game_time := game_time w + delta_time,
          current_cost := min (max_cost w) (current_cost w + gain)\<rparr>"
  note p1 = operators_phase_fields [OF operators_loop_phase [OF ops]]
  note p2 = enemies_phase_fields [OF enemies_loop_phase [OF ens]]
  note p3 = fight_phase_fields [OF process_combat_fight [OF cmb]]
  note p4 = fight_phase_fields [OF process_blocking_fight [OF blk]]
  note p5 = spawn_phase_fields [OF update_waves_phase [OF wav]]
  show "is_victory w7 = is_victory w"
    using p1(1) p2(1) p3(1) p4(1) p5(1) by simp
  have life: "current_life_points w7 = current_life_points w4"
    using p3(3) p4(3) p5(3) by simp
  have def: "is_defeat w7 = is_defeat w4"
    using p3(2) p4(2) p5(2) by simp
  have l3: "current_life_points w3 = current_life_points w" "is_defeat w3 = is_defeat w"
    using p1(2,3) by simp_all
  show "current_life_points w7 \<le> current_life_points w"
    using life p2(7) l3 by simp
  show "is_defeat w7 \<longleftrightarrow>
           is_defeat w \<or> (current_life_points w7 \<le> 0 \<and> current_life_points w7 < current_life_points w)"
    using life def p2(8) l3 by simp
qed

lemma update_sequence_capacity:
  assumes "update_sequence delta_time w = Inr w7" and "within_capacity w"
  shows "within_capacity w7"
proof -
  from assms(1) obtain gain w3 w4 w5 w6 where
    ops: "for_each (operator_step delta_time) (deployed_operators w)
       (w\<lparr>game_time := game_time w + delta_time,
          current_cost := min (max_cost w) (current_cost w + gain)\<rparr>) = Inr w3"
    and ens: "for_each (enemy_step delta_time) (active_enemies w3) w3 = Inr w4"
    and cmb: "process_combat delta_time w4 = Inr w5"
    and blk: "process_blocking w5 = Inr w6"
    and wav: "update_waves delta_time w6 = Inr w7"
    by (rule update_sequence_phases)
  let ?w2 = "w\<lparr>game_time := game_time w + delta_time,
          current_cost := min (max_cost w) (current_cost w + gain)\<rparr>"
  from assms(2) have "within_capacity ?w2" by (simp add: within_capacity_def)
  then have "within_capacity w3"
    using operators_phase_fields(9) [OF operators_loop_phase [OF ops]]
    by (rule within_capacity_ops_step)
  then have "within_capacity w4"
    using enemies_phase_fields(2) [OF enemies_loop_phase [OF ens]]
    by (simp add: within_capacity_def)
  then have "within_capacity w5"
    using process_combat_ops [OF cmb] by (rule within_capacity_ops_step)
  then have "within_capacity w6"
    using process_blocking_capacity [OF blk] by simp
  then show ?thesis
    using spawn_phase_fields(4) [OF update_waves_phase [OF wav]]
    by (simp add: within_capacity_def)
qed

lemma update_sequence_backrefs:
  assumes "update_sequence delta_time w = Inr w7"
  shows "\<forall>eid \<in> set (active_enemies w7). backref_ok w7 eid"
proof
  fix eid assume eid: "eid \<in> set (active_enemies w7)"
  from assms obtain gain w3 w4 w5 w6 where
    blk: "process_blocking w5 = Inr w6"
    and wav: "update_waves delta_time w6 = Inr w7"
    by (rule update_sequence_phases)
  note p5 = spawn_phase_fields [OF update_waves_phase [OF wav]]
  show "backref_ok w7 eid"
  proof (cases "next_enemy_id w6 \<le> eid \<and> eid < next_enemy_id w7")
    case True
    then have "\<not> is_blocked (enemies w7 eid)" using p5(9) by blast
    then show ?thesis by (simp add: backref_ok_def)
  next
    case False
    then have old: "eid < next_enemy_id w6 \<or> next_enemy_id w7 \<le> eid" by auto
    then have same: "enemies w7 eid = enemies w6 eid" by (rule p5(8))
    from eid p5(7) old have "eid \<in> set (active_enemies w6)" by auto
    with process_blocking_backrefs [OF blk] have "backref_ok w6 eid" by blast
    with same p5(4,5) show ?thesis by (simp add: backref_ok_def)
  qed
qed

lemma update_sequence_count:
  assumes "update_sequence delta_time w = Inr w7" and "roster_ok w"
  shows "current_life_points w7
           = current_life_points w
             - int (length (filter (\<lambda>e. has_reached_goal (enemies w7 e)) (active_enemies w)))"
    and "\<forall>e \<in> set (active_enemies w). has_reached_goal (enemies w7 e) \<longrightarrow> e \<notin> set (active_enemies w7)"
    and "roster_ok w7"
proof -
  from assms(1) obtain gain w3 w4 w5 w6 where
    ops: "for_each (operator_step delta_time) (deployed_operators w)
       (w\<lparr>game_time := game_time w + delta_time,
          current_cost := min (max_cost w) (current_cost w + gain)\<rparr>) = Inr w3"
    and ens: "for_each (enemy_step delta_time) (active_enemies w3) w3 = Inr w4"
    and cmb: "process_combat delta_time w4 = Inr w5"
    and blk: "process_blocking w5 = Inr w6"
    and wav: "update_waves delta_time w6 = Inr w7"
    by (rule update_sequence_phases)
  note p1 = operators_phase_fields [OF operators_loop_phase [OF ops]]
  note p2 = enemies_phase_fields [OF enemies_loop_phase [OF ens]]
  note p3 = fight_phase_fields [OF process_combat_fight [OF cmb]]
  note p4 = fight_phase_fields [OF process_blocking_fight [OF blk]]
  note p5 = spawn_phase_fields [OF update_waves_phase [OF wav]]
  have a3: "active_enemies w3 = active_enemies w" "current_life_points w3 = current_life_points w"
    "next_enemy_id w3 = next_enemy_id w"
    using p1(3,4,6) by simp_all
  have d: "distinct (active_enemies w)" and lt: "\<forall>e \<in> set (active_enemies w). e < next_enemy_id w"
    using assms(2) by (simp_all add: roster_ok_def)
  from enemies_loop_count [OF ens] d a3 have
    c1: "current_life_points w4
           = current_life_points w
             - int (length (filter (\<lambda>e. has_reached_goal (enemies w4 e)) (active_enemies w)))"
    and c3: "active_enemies w4
       = filter (\<lambda>e. e \<notin> set (active_enemies w)
                    \<or> (\<not> has_reached_goal (enemies w4 e) \<and> is_alive (enemies w4 e)))
           (active_enemies w)"
    by simp_all
  have n6: "next_enemy_id w6 = next_enemy_id w"
    using p4(6) p3(6) p2(4) a3(3) by simp
  have flag: "\<And>e. e \<in> set (active_enemies w) \<Longrightarrow>
      has_reached_goal (enemies w7 e) = has_reached_goal (enemies w4 e)"
  proof -
    fix e assume "e \<in> set (active_enemies w)"
    with lt n6 have "e < next_enemy_id w6" by simp
    then have "enemies w7 e = enemies w6 e" using p5(8) by blast
    then show "has_reached_goal (enemies w7 e) = has_reached_goal (enemies w4 e)"
      using p4(9) p3(9) by simp
  qed
  have "filter (\<lambda>e. has_reached_goal (enemies w7 e)) (active_enemies w)
          = filter (\<lambda>e. has_reached_goal (enemies w4 e)) (active_enemies w)"
    by (rule filter_cong) (simp_all add: flag)
  moreover have "current_life_points w7 = current_life_points w4"
    using p3(3) p4(3) p5(3) by simp
  ultimately show "current_life_points w7
           = current_life_points w
             - int (length (filter (\<lambda>e. has_reached_goal (enemies w7 e)) (active_enemies w)))"
    using c1 by simp
  have a7: "active_enemies w7 = active_enemies w4 @ [next_enemy_id w..<next_enemy_id w7]"
    using p5(7) p4(4) p3(4) n6 by simp
  show "\<forall>e \<in> set (active_enemies w). has_reached_goal (enemies w7 e) \<longrightarrow> e \<notin> set (active_enemies w7)"
  proof (intro ballI impI)
    fix e assume e: "e \<in> set (active_enemies w)" and g: "has_reached_goal (enemies w7 e)"
    from e g flag have "has_reached_goal (enemies w4 e)" by simp
    then have "e \<notin> set (active_enemies w4)" using e by (subst c3) simp
    moreover from e lt have "e \<notin> set [next_enemy_id w..<next_enemy_id w7]" by auto
    ultimately show "e \<notin> set (active_enemies w7)" by (simp add: a7)
  qed
  have sub: "set (active_enemies w4) \<subseteq> set (active_enemies w)" by (subst c3) auto
  have "distinct (active_enemies w4)" using d by (subst c3) simp
  moreover have "\<And>x. x \<in> set (active_enemies w4) \<Longrightarrow> x < next_enemy_id w"
    using sub lt by blast
  ultimately have "distinct (active_enemies w7)"
    by (fastforce simp: a7)
  moreover have "\<forall>e \<in> set (active_enemies w7). e < next_enemy_id w7"
  proof
    fix e assume "e \<in> set (active_enemies w7)"
    then have "e \<in> set (active_enemies w4) \<or> e < next_enemy_id w7" by (auto simp: a7)
    moreover have "e \<in> set (active_enemies w4) \<Longrightarrow> e < next_enemy_id w" using sub lt by blast
    moreover have "next_enemy_id w \<le> next_enemy_id w7" using p5(6) n6 by simp
    ultimately show "e < next_enemy_id w7" by auto
  qed
  ultimately show "roster_ok w7" by (simp add: roster_ok_def)
qed

lemma check_victory_fields:
  "is_defeat (check_victory w) = is_defeat w"
  "current_life_points (check_victory w) = current_life_points w"
  "active_enemies (check_victory w) = active_enemies w"
  "enemies (check_victory w) = enemies w"
  "operators (check_victory w) = operators w"
  "deployed_operators (check_victory w) = deployed_operators w"
  "next_enemy_id (check_victory w) = next_enemy_id w"
  "waves (check_victory w) = waves w"
  "current_wave_index (check_victory w) = current_wave_index w"
  by (simp_all add: check_victory_def)

lemma check_victory_flag:
  "is_victory (check_victory w) \<longleftrightarrow>
     is_victory w \<or> (current_wave_index w \<ge> int (length (waves w)) \<and> active_enemies w = []
        \<and> current_life_points w > 0 \<and> \<not> is_defeat w)"
  by (auto simp: check_victory_def)

lemma update_split:
  assumes "update delta_time w = Inr w'"
  obtains w7 where "update_sequence delta_time w = Inr w7" "w' = check_victory w7"
  using assms by (auto simp: update_def and_then_eq_Inr)



section \<open>Who blocks whom across a tick\<close>
lemma keeps_blocks_refl: "keeps_blocks w w"
  by (simp add: keeps_blocks_def)

lemma keeps_blocks_trans: "keeps_blocks a b \<Longrightarrow> keeps_blocks b c \<Longrightarrow> keeps_blocks a c"
  by (simp add: keeps_blocks_def)

lemma loosens_blocks_refl: "loosens_blocks w w"
  by (simp add: loosens_blocks_def)

lemma loosens_blocks_trans: "loosens_blocks a b \<Longrightarrow> loosens_blocks b c \<Longrightarrow> loosens_blocks a c"
  by (simp add: loosens_blocks_def)

lemma move_loop_block:
  "move_loop e = Inr (b, e') \<Longrightarrow> is_blocked e' = is_blocked e \<and> blocked_by e' = blocked_by e"
proof (induction e rule: move_loop.induct)
  case (1 e)
  show ?case
  proof (cases "move_progress e \<ge> 1 \<and> path_index e < int (length (enemy_path e)) - 1")
    case False
    with "1.prems" show ?thesis by (simp add: move_loop.simps)
  next
    case True
    let ?e1 = "e\<lparr>move_progress := move_progress e - 1, path_index := path_index e + 1\<rparr>"
    show ?thesis
    proof (cases "py_index (enemy_path ?e1) (path_index ?e1)")
      case (Inl err)
      with True "1.prems" show ?thesis
        by (subst (asm) move_loop.simps) (simp add: Let_def)
    next
      case (Inr p)
      let ?e2 = "?e1\<lparr>position := AtPosition p\<rparr>"
      show ?thesis
      proof (cases "path_index ?e2 = int (length (enemy_path ?e2)) - 1")
        case at_goal: True
        with True Inr "1.prems" have "e' = ?e2\<lparr>has_reached_goal := True\<rparr>"
          by (subst (asm) move_loop.simps) (simp add: Let_def)
        then show ?thesis by simp
      next
        case False
        with True Inr "1.prems" have "move_loop ?e2 = Inr (b, e')"
          by (subst (asm) move_loop.simps) (simp add: Let_def)
        from "1.IH" [OF True refl Inr refl False this] show ?thesis by simp
      qed
    qed
  qed
qed

lemma enemy_update_block:
  assumes "enemy_update delta_time e = Inr e'"
  shows "is_blocked e' = is_blocked e \<and> blocked_by e' = blocked_by e"
proof -
  let ?e1 = "update_buffs delta_time e"
  let ?e2 = "if attack_cooldown ?e1 > 0
             then ?e1\<lparr>attack_cooldown := attack_cooldown ?e1 - delta_time\<rparr> else ?e1"
  have e2: "is_blocked ?e2 = is_blocked e \<and> blocked_by ?e2 = blocked_by e"
    by (simp add: update_buffs_def)
  show ?thesis
  proof (cases "is_blocked ?e2")
    case True
    with assms have "e' = ?e2" by (simp add: enemy_update_def Let_def)
    with e2 show ?thesis by simp
  next
    case False
    with assms obtain r where r: "move delta_time ?e2 = Inr r" "e' = snd r"
      by (auto simp: enemy_update_def Let_def and_then_eq_Inr)
    then have m: "move delta_time ?e2 = Inr (fst r, e')" by simp
    have "is_blocked e' = is_blocked ?e2 \<and> blocked_by e' = blocked_by ?e2"
    proof (cases "is_blocked ?e2 \<or> enemy_path ?e2 = []
                   \<or> path_index ?e2 \<ge> int (length (enemy_path ?e2)) - 1")
      case True
      with m show ?thesis by (simp add: move_def)
    next
      case False
      with m have "move_loop (?e2\<lparr>move_progress := move_progress ?e2 + move_speed ?e2 * delta_time\<rparr>)
                     = Inr (fst r, e')"
        by (simp add: move_def)
      from move_loop_block [OF this] show ?thesis by simp
    qed
    with e2 show ?thesis by simp
  qed
qed

lemma enemy_step_blocks:
  assumes "enemy_step delta_time eid w = Inr w'"
  shows "keeps_blocks w w'"
  using assms
proof (cases rule: enemy_step_cases)
  case (goal enemy)
  from enemy_update_block [OF goal(1)] show ?thesis
    by (simp add: keeps_blocks_def blocks_def goal(4))
next
  case (dead enemy)
  from enemy_update_block [OF dead(1)] show ?thesis
    by (simp add: keeps_blocks_def blocks_def dead(5))
next
  case (alive enemy)
  from enemy_update_block [OF alive(1)] show ?thesis
    by (simp add: keeps_blocks_def blocks_def alive(4))
qed

lemma operator_attack_blocks:
  assumes "operator_attack oid w = Inr w'"
  shows "keeps_blocks w w'"
  using operator_attack_cases [OF assms]
  by (auto simp: keeps_blocks_def blocks_def)

lemma enemy_attack_blocks:
  assumes "enemy_attack eid w = Inr w'"
  shows "keeps_blocks w w'"
  using enemy_attack_cases [OF assms]
  by (auto simp: keeps_blocks_def blocks_def)

lemma block_enemy_blocks:
  assumes "block_enemy eid w = Inr w'"
  shows "keeps_blocks w w'"
  using block_enemy_cases [OF assms]
  by (auto simp: keeps_blocks_def blocks_def)

lemma purge_dead_enemies_blocks:
  assumes "purge_dead_enemies oid w = Inr w'"
  shows "keeps_blocks w w'"
  using purge_dead_enemies_shape [OF assms]
  by (auto simp: keeps_blocks_def blocks_def)

lemma release_phase_loosens: "release_phase w w' \<Longrightarrow> loosens_blocks w w'"
  unfolding release_phase_def loosens_blocks_def blocks_def by metis

lemma spawn_phase_loosens:
  assumes "spawn_phase w w'"
  shows "loosens_blocks w w'"
  unfolding loosens_blocks_def blocks_def
proof (intro allI impI)
  fix oid eid
  assume b: "is_blocked (enemies w' eid) \<and> blocked_by (enemies w' eid) = Some oid"
  note p = spawn_phase_fields [OF assms]
  have "\<not> (next_enemy_id w \<le> eid \<and> eid < next_enemy_id w')"
    using p(9) [of eid] b by blast
  then have "eid < next_enemy_id w \<or> next_enemy_id w' \<le> eid" by auto
  then have "enemies w' eid = enemies w eid" by (rule p(8))
  with b show "is_blocked (enemies w eid) \<and> blocked_by (enemies w eid) = Some oid" by simp
qed

lemma update_sequence_blocks:
  assumes "update_sequence delta_time w = Inr w7"
    and "blocks w oid eid" and "blocks w7 oid' eid"
  shows "oid' = oid"
proof -
  from assms(1) obtain gain w3 w4 w5 w6 where
    ops: "for_each (operator_step delta_time) (deployed_operators w)
       (w\<lparr>game_time := game_time w + delta_time,
          current_cost := min (max_cost w) (current_cost w + gain)\<rparr>) = Inr w3"
    and ens: "for_each (enemy_step delta_time) (active_enemies w3) w3 = Inr w4"
    and cmb: "process_combat delta_time w4 = Inr w5"
    and blk: "process_blocking w5 = Inr w6"
    and wav: "update_waves delta_time w6 = Inr w7"
    by (rule update_sequence_phases)
  from blk obtain wa wb where
    a: "for_each block_enemy (active_enemies w5) w5 = Inr wa"
    and b: "for_each purge_dead_enemies (deployed_operators wa) wa = Inr wb"
    and c: "for_each release_orphan (active_enemies wb) wb = Inr w6"
    by (rule process_blocking_phases)
  from cmb obtain wc where
    ca: "for_each operator_attack (deployed_operators w4) w4 = Inr wc"
    and cb: "for_each enemy_attack (active_enemies wc) wc = Inr w5"
    by (auto simp: process_combat_def and_then_eq_Inr)
  have "enemies w3 = enemies w"
    using operators_phase_fields(5) [OF operators_loop_phase [OF ops]] by simp
  with assms(2) have "blocks w3 oid eid" by (simp add: blocks_def)
  moreover have "keeps_blocks w3 w4"
    by (rule for_each_related [where R = keeps_blocks, OF _ _ _ ens])
       (erule enemy_step_blocks, rule keeps_blocks_refl, erule keeps_blocks_trans, assumption)
  moreover have "keeps_blocks w4 wc"
    by (rule for_each_related [where R = keeps_blocks, OF _ _ _ ca])
       (erule operator_attack_blocks, rule keeps_blocks_refl, erule keeps_blocks_trans, assumption)
  moreover have "keeps_blocks wc w5"
    by (rule for_each_related [where R = keeps_blocks, OF _ _ _ cb])
       (erule enemy_attack_blocks, rule keeps_blocks_refl, erule keeps_blocks_trans, assumption)
  moreover have "keeps_blocks w5 wa"
    by (rule for_each_related [where R = keeps_blocks, OF _ _ _ a])
       (erule block_enemy_blocks, rule keeps_blocks_refl, erule keeps_blocks_trans, assumption)
  moreover have "keeps_blocks wa wb"
    by (rule for_each_related [where R = keeps_blocks, OF _ _ _ b])
       (erule purge_dead_enemies_blocks, rule keeps_blocks_refl, erule keeps_blocks_trans, assumption)
  ultimately have before: "blocks wb oid eid"
    by (simp add: keeps_blocks_def)
  have "loosens_blocks wb w6"
    using release_loop_phase [OF c] by (rule release_phase_loosens)
  moreover have "loosens_blocks w6 w7"
    using update_waves_phase [OF wav] by (rule spawn_phase_loosens)
  ultimately have "blocks wb oid' eid"
    using assms(3) by (simp add: loosens_blocks_def)
  with before show ?thesis by (simp add: blocks_def)
qed

lemma blocks_unique: "blocks w oid eid \<Longrightarrow> blocks w oid' eid \<Longrightarrow> oid' = oid"
  by (simp add: blocks_def)


section \<open>The lists of blocked enemies\<close>

lemma lives_kept_refl: "lives_kept w w"
  by (simp add: lives_kept_def)

lemma lives_kept_trans: "lives_kept a b \<Longrightarrow> lives_kept b c \<Longrightarrow> lives_kept a c"
  by (simp add: lives_kept_def)

lemma lists_follow_refl: "lists_follow w w"
  by (simp add: lists_follow_def)

lemma lists_follow_trans:
  assumes "lists_follow a b" and "lists_follow b c"
  shows "lists_follow a c"
  unfolding lists_follow_def
proof (intro conjI allI impI)
  fix oid
  show "set (blocked_enemies (operators a oid)) \<subseteq> set (blocked_enemies (operators c oid))"
    using assms unfolding lists_follow_def by blast
next
  fix oid eid
  assume "blocks c oid eid"
  with assms(2) have "blocks b oid eid \<or> eid \<in> set (blocked_enemies (operators c oid))"
    unfolding lists_follow_def by blast
  moreover have "blocks b oid eid \<Longrightarrow>
      blocks a oid eid \<or> eid \<in> set (blocked_enemies (operators c oid))"
    using assms unfolding lists_follow_def by blast
  ultimately show "blocks a oid eid \<or> eid \<in> set (blocked_enemies (operators c oid))"
    by blast
qed

lemma block_enemy_lists:
  assumes "block_enemy eid w = Inr w'"
  shows "lists_follow w w'"
  using block_enemy_cases [OF assms]
proof (elim disjE exE conjE)
  assume "w' = w"
  then show ?thesis by (simp add: lists_follow_refl)
next
  fix oid
  assume eq: "w' = w\<lparr>operators := (operators w)
                     (oid := (operators w oid)
                        \<lparr>blocked_enemies := blocked_enemies (operators w oid) @ [eid]\<rparr>),
                   enemies := (enemies w)(eid := get_blocked_by oid (enemies w eid))\<rparr>"
  show ?thesis
    unfolding lists_follow_def
  proof (intro conjI allI impI)
    fix o'
    show "set (blocked_enemies (operators w o')) \<subseteq> set (blocked_enemies (operators w' o'))"
      by (auto simp: eq)
  next
    fix o' e
    assume b: "blocks w' o' e"
    show "blocks w o' e \<or> e \<in> set (blocked_enemies (operators w' o'))"
    proof (cases "e = eid")
      case True
      with b have "o' = oid" by (simp add: blocks_def eq get_blocked_by_def)
      with True show ?thesis by (simp add: eq)
    next
      case False
      with b show ?thesis by (simp add: blocks_def eq)
    qed
  qed
qed

lemma block_loop_lists:
  "for_each block_enemy xs w = Inr w' \<Longrightarrow> lists_follow w w'"
  by (rule for_each_related [where R = lists_follow and body = block_enemy and xs = xs])
     (erule block_enemy_lists, rule lists_follow_refl, erule lists_follow_trans, assumption+)

lemma purge_loop_shape:
  "for_each purge_dead_enemies xs w = Inr w' \<Longrightarrow>
   enemies w' = enemies w \<and> deployed_operators w' = deployed_operators w
   \<and> (\<forall>oid. blocked_enemies (operators w' oid)
          = (if oid \<in> set xs
             then filter (\<lambda>e. is_alive (enemies w e)) (blocked_enemies (operators w oid))
             else blocked_enemies (operators w oid)))"
proof (induction xs arbitrary: w)
  case Nil
  then show ?case by simp
next
  case (Cons x xs)
  from Cons.prems obtain w1 where
    first: "purge_dead_enemies x w = Inr w1" and rest: "for_each purge_dead_enemies xs w1 = Inr w'"
    by (auto simp: and_then_eq_Inr)
  note s = purge_dead_enemies_shape [OF first]
  have w1: "enemies w1 = enemies w" "deployed_operators w1 = deployed_operators w"
    "\<And>oid. blocked_enemies (operators w1 oid)
       = (if oid = x then filter (\<lambda>e. is_alive (enemies w e)) (blocked_enemies (operators w oid))
          else blocked_enemies (operators w oid))"
    by (subst s, simp)+
  from Cons.IH [OF rest] w1 show ?case by auto
qed

lemma release_orphan_lives:
  assumes "release_orphan eid w = Inr w'"
  shows "lives_kept w w'"
  using release_orphan_cases [OF assms]
  by (auto simp: lives_kept_def release_block_def)

lemma release_loop_lives:
  "for_each release_orphan xs w = Inr w' \<Longrightarrow> lives_kept w w'"
  by (rule for_each_related [where R = lives_kept and body = release_orphan and xs = xs])
     (erule release_orphan_lives, rule lives_kept_refl, erule lives_kept_trans, assumption+)

lemma spawn_enemy_lives:
  assumes "spawn_enemy enemy_id route_idx w = Inr (r, w')"
  shows "lives_kept w w'"
proof (cases "enemy_database w enemy_id")
  case None
  with assms show ?thesis by (simp add: spawn_enemy_def lives_kept_refl)
next
  case (Some d)
  let ?e = "Enemy_init (next_enemy_id w) enemy_id d"
  have fresh: "is_alive ?e" by (simp add: Enemy_init_def)
  have fresh_path: "\<And>p. is_alive (set_path p ?e)"
    by (simp add: set_path_def Enemy_init_def Let_def split: list.splits)
  from Some assms obtain enemy1 where
    e1: "(if route_idx < int (length (routes w))
          then and_then (py_index (routes w) route_idx) (\<lambda>route. Inr (set_path (path route) ?e))
          else Inr ?e) = Inr enemy1"
    and w': "w' = w\<lparr>enemies := (enemies w)(next_enemy_id w := enemy1),
                     next_enemy_id := Suc (next_enemy_id w),
                     active_enemies := active_enemies w @ [next_enemy_id w]\<rparr>"
    by (auto simp: spawn_enemy_def Let_def and_then_eq_Inr)
  from e1 have "is_alive enemy1"
    using fresh fresh_path by (auto simp: and_then_eq_Inr split: if_splits)
  with w' show ?thesis by (simp add: lives_kept_def)
qed

lemma action_step_lives:
  assumes "action_step delta_time action w = Inr (a', w')"
  shows "lives_kept w w'"
proof -
  let ?a1 = "action\<lparr>action_current_time := action_current_time action + delta_time\<rparr>"
  show ?thesis
  proof (cases "\<not> action_is_completed action \<and> action_current_time ?a1 \<ge> action_pre_delay ?a1
                \<and> action_type ?a1 = ''SPAWN'' \<and> spawned_count ?a1 < count ?a1")
    case True
    with assms obtain spawned where
      "spawn_enemy (enemy_key ?a1) (route_index ?a1) w = Inr spawned" "w' = snd spawned"
      by (auto simp: action_step_def Let_def and_then_eq_Inr)
    then have "spawn_enemy (enemy_key ?a1) (route_index ?a1) w = Inr (fst spawned, w')"
      by simp
    then show ?thesis by (rule spawn_enemy_lives)
  next
    case False
    with assms have "w' = w"
      by (auto simp: action_step_def Let_def split: if_splits)
    then show ?thesis by (simp add: lives_kept_refl)
  qed
qed

lemma actions_loop_lives:
  "for_each_object (action_step delta_time) xs w = Inr (ys, w') \<Longrightarrow> lives_kept w w'"
  by (rule for_each_object_related [where R = lives_kept and body = "action_step delta_time" and xs = xs])
     (erule action_step_lives, rule lives_kept_refl, erule lives_kept_trans, assumption+)

lemma fragment_step_lives:
  assumes "fragment_step delta_time wave_time fragment w = Inr (f', w')"
  shows "lives_kept w w'"
proof -
  let ?f1 = "if \<not> fragment_is_active fragment \<and> wave_time \<ge> fragment_pre_delay fragment
             then fragment\<lparr>fragment_is_active := True\<rparr> else fragment"
  show ?thesis
  proof (cases "fragment_is_active ?f1 \<and> \<not> fragment_is_completed ?f1")
    case True
    with assms obtain acted where
      "for_each_object (action_step delta_time)
         (actions (?f1\<lparr>fragment_current_time := fragment_current_time ?f1 + delta_time\<rparr>)) w
       = Inr acted" "w' = snd acted"
      unfolding fragment_step_def Let_def by (auto simp: and_then_eq_Inr split: if_splits)
    then have "for_each_object (action_step delta_time)
         (actions (?f1\<lparr>fragment_current_time := fragment_current_time ?f1 + delta_time\<rparr>)) w
       = Inr (fst acted, w')" by simp
    then show ?thesis by (rule actions_loop_lives)
  next
    case False
    with assms have "w' = w"
      unfolding fragment_step_def Let_def by (auto split: if_splits)
    then show ?thesis by (simp add: lives_kept_refl)
  qed
qed

lemma fragments_loop_lives:
  "for_each_object (fragment_step delta_time wave_time) xs w = Inr (ys, w') \<Longrightarrow> lives_kept w w'"
  by (rule for_each_object_related
        [where R = lives_kept and body = "fragment_step delta_time wave_time" and xs = xs])
     (erule fragment_step_lives, rule lives_kept_refl, erule lives_kept_trans, assumption+)

lemma update_waves_lives:
  assumes "update_waves delta_time w = Inr w'"
  shows "lives_kept w w'"
proof (cases "current_wave_index w \<ge> int (length (waves w))")
  case True
  with assms show ?thesis by (simp add: update_waves_def lives_kept_refl)
next
  case False
  with assms obtain k scheduled where
    loop: "for_each_object
             (fragment_step delta_time (wave_current_time (advance_wave delta_time (waves w ! k))))
             (fragments (advance_wave delta_time (waves w ! k))) w = Inr scheduled"
    and w': "w' = finish_wave k (advance_wave delta_time (waves w ! k)) (fst scheduled) (snd scheduled)"
    by (auto simp: update_waves_def Let_def and_then_eq_Inr)
  from loop have "for_each_object
             (fragment_step delta_time (wave_current_time (advance_wave delta_time (waves w ! k))))
             (fragments (advance_wave delta_time (waves w ! k))) w
           = Inr (fst scheduled, snd scheduled)" by simp
  then have "lives_kept w (snd scheduled)" by (rule fragments_loop_lives)
  then show ?thesis by (simp add: w' finish_wave_def Let_def lives_kept_def)
qed

lemma enemy_step_loosens:
  assumes "enemy_step delta_time eid w = Inr w'"
  shows "loosens_blocks w w'"
  using assms
proof (cases rule: enemy_step_cases)
  case (goal enemy)
  from enemy_update_block [OF goal(1)] show ?thesis
    by (simp add: loosens_blocks_def blocks_def goal(4))
next
  case (dead enemy)
  from enemy_update_block [OF dead(1)] show ?thesis
    by (simp add: loosens_blocks_def blocks_def dead(5))
next
  case (alive enemy)
  from enemy_update_block [OF alive(1)] show ?thesis
    by (simp add: loosens_blocks_def blocks_def alive(4))
qed

lemma operator_attack_loosens:
  assumes "operator_attack oid w = Inr w'"
  shows "loosens_blocks w w'"
  using operator_attack_cases [OF assms]
  by (auto simp: loosens_blocks_def blocks_def split: if_splits)

lemma enemy_attack_loosens:
  assumes "enemy_attack eid w = Inr w'"
  shows "loosens_blocks w w'"
  using enemy_attack_cases [OF assms]
  by (auto simp: loosens_blocks_def blocks_def split: if_splits)

lemma process_blocking_lists:
  assumes "process_blocking w = Inr w'"
  shows "\<forall>oid \<in> set (deployed_operators w').
            \<forall>eid \<in> set (blocked_enemies (operators w' oid)). is_alive (enemies w' eid)"
    and "\<forall>oid eid. blocks w' oid eid \<and> is_alive (enemies w' eid) \<longrightarrow>
            blocks w oid eid \<or> eid \<in> set (blocked_enemies (operators w' oid))"
proof -
  from assms obtain wa wb where
    a: "for_each block_enemy (active_enemies w) w = Inr wa"
    and b: "for_each purge_dead_enemies (deployed_operators wa) wa = Inr wb"
    and c: "for_each release_orphan (active_enemies wb) wb = Inr w'"
    by (rule process_blocking_phases)
  note p = purge_loop_shape [OF b]
  note r = release_loop_phase [OF c]
  from r have ops: "operators w' = operators wb" "deployed_operators w' = deployed_operators wb"
    and ens: "\<And>e. enemies w' e = enemies wb e \<or> \<not> is_blocked (enemies w' e)"
    unfolding release_phase_def by blast+
  note l = release_loop_lives [OF c]
  show "\<forall>oid \<in> set (deployed_operators w').
            \<forall>eid \<in> set (blocked_enemies (operators w' oid)). is_alive (enemies w' eid)"
  proof (intro ballI)
    fix oid eid
    assume "oid \<in> set (deployed_operators w')"
      and "eid \<in> set (blocked_enemies (operators w' oid))"
    with ops p have "is_alive (enemies wb eid)" by auto
    with l show "is_alive (enemies w' eid)" by (simp add: lives_kept_def)
  qed
  show "\<forall>oid eid. blocks w' oid eid \<and> is_alive (enemies w' eid) \<longrightarrow>
            blocks w oid eid \<or> eid \<in> set (blocked_enemies (operators w' oid))"
  proof (intro allI impI)
    fix oid eid
    assume h: "blocks w' oid eid \<and> is_alive (enemies w' eid)"
    then have same: "enemies w' eid = enemies wb eid"
      using ens [of eid] by (simp add: blocks_def)
    with h p have ba: "blocks wa oid eid" and alive: "is_alive (enemies wa eid)"
      by (simp_all add: blocks_def)
    from block_loop_lists [OF a] ba
    have "blocks w oid eid \<or> eid \<in> set (blocked_enemies (operators wa oid))"
      unfolding lists_follow_def by blast
    moreover have "eid \<in> set (blocked_enemies (operators wa oid)) \<Longrightarrow>
        eid \<in> set (blocked_enemies (operators w' oid))"
      using p alive ops by auto
    ultimately show "blocks w oid eid \<or> eid \<in> set (blocked_enemies (operators w' oid))"
      by blast
  qed
qed

lemma update_sequence_lists:
  assumes "update_sequence delta_time w = Inr w7"
  shows "\<forall>oid \<in> set (deployed_operators w7).
            \<forall>eid \<in> set (blocked_enemies (operators w7 oid)). is_alive (enemies w7 eid)"
    and "\<forall>oid eid. \<not> is_blocked (enemies w eid) \<and> blocks w7 oid eid \<and> is_alive (enemies w7 eid) \<longrightarrow>
            eid \<in> set (blocked_enemies (operators w7 oid))"
proof -
  from assms obtain gain w3 w4 w5 w6 where
    ops: "for_each (operator_step delta_time) (deployed_operators w)
       (w\<lparr>game_time := game_time w + delta_time,
          current_cost := min (max_cost w) (current_cost w + gain)\<rparr>) = Inr w3"
    and ens: "for_each (enemy_step delta_time) (active_enemies w3) w3 = Inr w4"
    and cmb: "process_combat delta_time w4 = Inr w5"
    and blk: "process_blocking w5 = Inr w6"
    and wav: "update_waves delta_time w6 = Inr w7"
    by (rule update_sequence_phases)
  from cmb obtain wc where
    ca: "for_each operator_attack (deployed_operators w4) w4 = Inr wc"
    and cb: "for_each enemy_attack (active_enemies wc) wc = Inr w5"
    by (auto simp: process_combat_def and_then_eq_Inr)
  note s = spawn_phase_fields [OF update_waves_phase [OF wav]]
  note l = update_waves_lives [OF wav]
  note b = process_blocking_lists [OF blk]
  show "\<forall>oid \<in> set (deployed_operators w7).
            \<forall>eid \<in> set (blocked_enemies (operators w7 oid)). is_alive (enemies w7 eid)"
    using b(1) l s(4,5) by (simp add: lives_kept_def)
  have "enemies w3 = enemies w"
    using operators_phase_fields(5) [OF operators_loop_phase [OF ops]] by simp
  then have l3: "loosens_blocks w w3" by (simp add: loosens_blocks_def blocks_def)
  have l4: "loosens_blocks w3 w4"
    by (rule for_each_related [where R = loosens_blocks, OF _ _ _ ens])
       (erule enemy_step_loosens, rule loosens_blocks_refl, erule loosens_blocks_trans, assumption)
  have lc: "loosens_blocks w4 wc"
    by (rule for_each_related [where R = loosens_blocks, OF _ _ _ ca])
       (erule operator_attack_loosens, rule loosens_blocks_refl, erule loosens_blocks_trans, assumption)
  have l5: "loosens_blocks wc w5"
    by (rule for_each_related [where R = loosens_blocks, OF _ _ _ cb])
       (erule enemy_attack_loosens, rule loosens_blocks_refl, erule loosens_blocks_trans, assumption)
  from l3 l4 lc l5 have before: "\<And>oid eid. blocks w5 oid eid \<Longrightarrow> blocks w oid eid"
    by (simp add: loosens_blocks_def)
  show "\<forall>oid eid. \<not> is_blocked (enemies w eid) \<and> blocks w7 oid eid \<and> is_alive (enemies w7 eid) \<longrightarrow>
            eid \<in> set (blocked_enemies (operators w7 oid))"
  proof (intro allI impI)
    fix oid eid
    assume h: "\<not> is_blocked (enemies w eid) \<and> blocks w7 oid eid \<and> is_alive (enemies w7 eid)"
    then have "\<not> (next_enemy_id w6 \<le> eid \<and> eid < next_enemy_id w7)"
      using s(9) [of eid] by (auto simp: blocks_def)
    then have "eid < next_enemy_id w6 \<or> next_enemy_id w7 \<le> eid" by auto
    then have same: "enemies w7 eid = enemies w6 eid" by (rule s(8))
    with h have "blocks w6 oid eid \<and> is_alive (enemies w6 eid)"
      by (simp add: blocks_def)
    with b(2) have "blocks w5 oid eid \<or> eid \<in> set (blocked_enemies (operators w6 oid))"
      by blast
    moreover have "\<not> blocks w5 oid eid"
      using before [of oid eid] h by (auto simp: blocks_def)
    ultimately show "eid \<in> set (blocked_enemies (operators w7 oid))"
      using s(4) by simp
  qed
qed

section \<open>The calls between the ticks\<close>
lemma deploy_operator_frame:
  assumes "deploy_operator oid pos dir w = Inr (res, w')"
  shows "is_victory w' = is_victory w" "is_defeat w' = is_defeat w"
    "active_enemies w' = active_enemies w" "next_enemy_id w' = next_enemy_id w"
    "ops_step w w'"
proof -
  have "is_victory w' = is_victory w \<and> is_defeat w' = is_defeat w
      \<and> active_enemies w' = active_enemies w \<and> next_enemy_id w' = next_enemy_id w
      \<and> ops_step w w'"
  proof (cases "success res")
    case True
    from deploy_operator_success_world [OF assms True] obtain i where
      "w' = w\<lparr>tiles := (tiles w)[i := (tiles w ! i)\<lparr>deployed_operator := Some oid\<rparr>],
              operators := (operators w)(oid := deploy pos dir (operators w oid)),
              deployed_operators := deployed_operators w @ [oid],
              current_cost := current_cost w - real_of_int (deploy_cost (operators w oid))\<rparr>"
      by blast
    then show ?thesis by (simp add: ops_step_def ops_shrink_def deploy_def)
  next
    case False
    from deploy_operator_failure_world [OF assms False] show ?thesis
      by (simp add: ops_step_refl)
  qed
  then show "is_victory w' = is_victory w" "is_defeat w' = is_defeat w"
    "active_enemies w' = active_enemies w" "next_enemy_id w' = next_enemy_id w"
    "ops_step w w'"
    by simp_all
qed

lemma roster_ok_spawn_phase:
  assumes "roster_ok w" and "spawn_phase w w'"
  shows "roster_ok w'"
proof -
  note p = spawn_phase_fields [OF assms(2)]
  from assms(1) have d: "distinct (active_enemies w)"
    and b: "\<forall>e \<in> set (active_enemies w). e < next_enemy_id w"
    by (simp_all add: roster_ok_def)
  from d b have "distinct (active_enemies w @ [next_enemy_id w..<next_enemy_id w'])"
    by auto
  moreover from b p(6) have "\<forall>e \<in> set (active_enemies w @ [next_enemy_id w..<next_enemy_id w']).
      e < next_enemy_id w'"
    by auto
  ultimately show ?thesis by (simp add: roster_ok_def p(7))
qed

lemma update_defeat_terminal:
  assumes "update delta_time w = Inr w'" and "is_defeat w"
  shows "is_defeat w' \<and> is_victory w' = is_victory w"
proof -
  from assms(1) obtain w7 where
    w7: "update_sequence delta_time w = Inr w7" and w': "w' = check_victory w7"
    by (rule update_split)
  from update_sequence_flags [OF w7] assms(2) have "is_defeat w7" "is_victory w7 = is_victory w"
    by simp_all
  then show ?thesis by (simp add: w' check_victory_def)
qed

lemma execute_defeat_terminal:
  assumes "execute c s = Inr s'" and "is_defeat s"
  shows "is_defeat s' \<and> is_victory s' = is_victory s"
proof (cases c)
  case (Tick delta_time)
  with assms(1) have "update delta_time s = Inr s'" by (simp add: execute_def)
  from update_defeat_terminal [OF this assms(2)] show ?thesis .
next
  case (Deploy oid pos dir)
  with assms(1) obtain r where "deploy_operator oid pos dir s = Inr (r, s')"
    by (auto simp: execute_def and_then_eq_Inr)
  from deploy_operator_frame(1,2) [OF this] assms(2) show ?thesis by simp
next
  case (Retreat oid)
  with assms(1) obtain r where "retreat_operator oid s = Inr (r, s')"
    by (auto simp: execute_def and_then_eq_Inr)
  from operators_phase_fields(1,2) [OF retreat_operator_phase [OF this]] assms(2)
  show ?thesis by simp
next
  case (Spawn enemy_id route_idx)
  with assms(1) obtain r where "spawn_enemy enemy_id route_idx s = Inr (r, s')"
    by (auto simp: execute_def and_then_eq_Inr)
  from spawn_phase_fields(1,2) [OF spawn_enemy_phase [OF this]] assms(2)
  show ?thesis by simp
qed

lemma run_defeat_terminal:
  assumes "run cs w = Inr w'" and "is_defeat w"
  shows "is_defeat w' \<and> is_victory w' = is_victory w"
proof -
  have "for_each execute cs w = Inr w'"
    using assms(1) by (simp add: run_def)
  then show ?thesis
    by (rule for_each_invariant
          [where P = "\<lambda>s. is_defeat s \<and> is_victory s = is_victory w", rotated 2])
       (use assms(2) execute_defeat_terminal in auto)
qed

lemma update_capacity:
  assumes "update delta_time w = Inr w'" and "within_capacity w"
  shows "within_capacity w'"
proof -
  from assms(1) obtain w7 where
    w7: "update_sequence delta_time w = Inr w7" and w': "w' = check_victory w7"
    by (rule update_split)
  from update_sequence_capacity [OF w7 assms(2)] show ?thesis
    by (simp add: w' within_capacity_def check_victory_fields)
qed

lemma execute_capacity:
  assumes "execute c s = Inr s'" and "within_capacity s"
  shows "within_capacity s'"
proof (cases c)
  case (Tick delta_time)
  with assms(1) have "update delta_time s = Inr s'" by (simp add: execute_def)
  from update_capacity [OF this assms(2)] show ?thesis .
next
  case (Deploy oid pos dir)
  with assms(1) obtain r where "deploy_operator oid pos dir s = Inr (r, s')"
    by (auto simp: execute_def and_then_eq_Inr)
  from within_capacity_ops_step [OF assms(2) deploy_operator_frame(5) [OF this]]
  show ?thesis .
next
  case (Retreat oid)
  with assms(1) obtain r where "retreat_operator oid s = Inr (r, s')"
    by (auto simp: execute_def and_then_eq_Inr)
  from within_capacity_ops_step
    [OF assms(2) operators_phase_fields(9) [OF retreat_operator_phase [OF this]]]
  show ?thesis .
next
  case (Spawn enemy_id route_idx)
  with assms(1) obtain r where "spawn_enemy enemy_id route_idx s = Inr (r, s')"
    by (auto simp: execute_def and_then_eq_Inr)
  from spawn_phase_fields(4) [OF spawn_enemy_phase [OF this]] assms(2)
  show ?thesis by (simp add: within_capacity_def)
qed

lemma run_capacity:
  assumes "run cs w = Inr w'" and "within_capacity w"
  shows "within_capacity w'"
proof -
  have "for_each execute cs w = Inr w'"
    using assms(1) by (simp add: run_def)
  then show ?thesis
    by (rule for_each_invariant [where P = within_capacity, rotated 2])
       (use assms(2) execute_capacity in auto)
qed

lemma update_roster:
  assumes "update delta_time w = Inr w'" and "roster_ok w"
  shows "roster_ok w'"
proof -
  from assms(1) obtain w7 where
    w7: "update_sequence delta_time w = Inr w7" and w': "w' = check_victory w7"
    by (rule update_split)
  from update_sequence_count(3) [OF w7 assms(2)] show ?thesis
    by (simp add: w' roster_ok_def check_victory_fields)
qed

lemma execute_roster:
  assumes "execute c s = Inr s'" and "roster_ok s"
  shows "roster_ok s'"
proof (cases c)
  case (Tick delta_time)
  with assms(1) have "update delta_time s = Inr s'" by (simp add: execute_def)
  from update_roster [OF this assms(2)] show ?thesis .
next
  case (Deploy oid pos dir)
  with assms(1) obtain r where "deploy_operator oid pos dir s = Inr (r, s')"
    by (auto simp: execute_def and_then_eq_Inr)
  from deploy_operator_frame(3,4) [OF this] assms(2) show ?thesis
    by (simp add: roster_ok_def)
next
  case (Retreat oid)
  with assms(1) obtain r where "retreat_operator oid s = Inr (r, s')"
    by (auto simp: execute_def and_then_eq_Inr)
  from operators_phase_fields(4,6) [OF retreat_operator_phase [OF this]] assms(2)
  show ?thesis by (simp add: roster_ok_def)
next
  case (Spawn enemy_id route_idx)
  with assms(1) obtain r where "spawn_enemy enemy_id route_idx s = Inr (r, s')"
    by (auto simp: execute_def and_then_eq_Inr)
  from roster_ok_spawn_phase [OF assms(2) spawn_enemy_phase [OF this]] show ?thesis .
qed

lemma run_roster:
  assumes "run cs w = Inr w'" and "roster_ok w"
  shows "roster_ok w'"
proof -
  have "for_each execute cs w = Inr w'"
    using assms(1) by (simp add: run_def)
  then show ?thesis
    by (rule for_each_invariant [where P = roster_ok, rotated 2])
       (use assms(2) execute_roster in auto)
qed

lemma update_defeat_flag:
  assumes "update delta_time w = Inr w'"
  shows "is_defeat w' \<longleftrightarrow>
           is_defeat w \<or> (current_life_points w' \<le> 0 \<and> current_life_points w' < current_life_points w)"
    and "is_defeat w' \<longrightarrow> is_victory w' = is_victory w"
proof -
  from assms obtain w7 where
    w7: "update_sequence delta_time w = Inr w7" and w': "w' = check_victory w7"
    by (rule update_split)
  note f = update_sequence_flags [OF w7]
  show "is_defeat w' \<longleftrightarrow>
           is_defeat w \<or> (current_life_points w' \<le> 0 \<and> current_life_points w' < current_life_points w)"
    using f(3) by (simp add: w' check_victory_fields)
  show "is_defeat w' \<longrightarrow> is_victory w' = is_victory w"
    using f(1) by (simp add: w' check_victory_def)
qed

lemma update_life_count:
  assumes "update delta_time w = Inr w'" and "roster_ok w"
  shows "current_life_points w'
           = current_life_points w
             - int (length (filter (\<lambda>e. has_reached_goal (enemies w' e)) (active_enemies w)))"
    and "\<forall>e \<in> set (active_enemies w). has_reached_goal (enemies w' e) \<longrightarrow> e \<notin> set (active_enemies w')"
proof -
  from assms(1) obtain w7 where
    w7: "update_sequence delta_time w = Inr w7" and w': "w' = check_victory w7"
    by (rule update_split)
  show "current_life_points w'
           = current_life_points w
             - int (length (filter (\<lambda>e. has_reached_goal (enemies w' e)) (active_enemies w)))"
    using update_sequence_count(1) [OF w7 assms(2)] by (simp add: w' check_victory_fields)
  show "\<forall>e \<in> set (active_enemies w). has_reached_goal (enemies w' e) \<longrightarrow> e \<notin> set (active_enemies w')"
    using update_sequence_count(2) [OF w7 assms(2)] by (simp add: w' check_victory_fields)
qed

lemma update_backrefs:
  assumes "update delta_time w = Inr w'" and "eid \<in> set (active_enemies w')" and "blocks w' oid eid"
  shows "oid \<in> set (deployed_operators w') \<and> is_alive (operators w' oid)"
proof -
  from assms(1) obtain w7 where
    w7: "update_sequence delta_time w = Inr w7" and w': "w' = check_victory w7"
    by (rule update_split)
  from assms(2) have "eid \<in> set (active_enemies w7)"
    by (simp add: w' check_victory_fields)
  with update_sequence_backrefs [OF w7] have "backref_ok w7 eid" by blast
  with assms(3) show ?thesis
    by (simp add: w' check_victory_fields backref_ok_def blocks_def)
qed

lemma update_blocks:
  assumes "update delta_time w = Inr w'" and "blocks w oid eid" and "blocks w' oid' eid"
  shows "oid' = oid"
proof -
  from assms(1) obtain w7 where
    w7: "update_sequence delta_time w = Inr w7" and w': "w' = check_victory w7"
    by (rule update_split)
  from assms(3) have "blocks w7 oid' eid"
    by (simp add: w' blocks_def check_victory_fields)
  with w7 assms(2) show ?thesis by (rule update_sequence_blocks)
qed


lemma deploy_operator_waves:
  assumes "deploy_operator oid pos dir w = Inr (res, w')"
  shows "current_life_points w' = current_life_points w" "waves w' = waves w"
    "current_wave_index w' = current_wave_index w"
proof -
  have "current_life_points w' = current_life_points w \<and> waves w' = waves w
      \<and> current_wave_index w' = current_wave_index w"
  proof (cases "success res")
    case True
    from deploy_operator_success_world [OF assms True] obtain i where
      "w' = w\<lparr>tiles := (tiles w)[i := (tiles w ! i)\<lparr>deployed_operator := Some oid\<rparr>],
              operators := (operators w)(oid := deploy pos dir (operators w oid)),
              deployed_operators := deployed_operators w @ [oid],
              current_cost := current_cost w - real_of_int (deploy_cost (operators w oid))\<rparr>"
      by blast
    then show ?thesis by simp
  next
    case False
    from deploy_operator_failure_world [OF assms False] show ?thesis by simp
  qed
  then show "current_life_points w' = current_life_points w" "waves w' = waves w"
    "current_wave_index w' = current_wave_index w"
    by simp_all
qed

lemma update_sequence_after_victory:
  assumes "update_sequence delta_time w = Inr w7" and "victory_conditions w"
  shows "victory_conditions w7"
proof -
  from assms(1) obtain gain w3 w4 w5 w6 where
    ops: "for_each (operator_step delta_time) (deployed_operators w)
       (w\<lparr>game_time := game_time w + delta_time,
          current_cost := min (max_cost w) (current_cost w + gain)\<rparr>) = Inr w3"
    and ens: "for_each (enemy_step delta_time) (active_enemies w3) w3 = Inr w4"
    and cmb: "process_combat delta_time w4 = Inr w5"
    and blk: "process_blocking w5 = Inr w6"
    and wav: "update_waves delta_time w6 = Inr w7"
    by (rule update_sequence_phases)
  note o = operators_phase_fields [OF operators_loop_phase [OF ops]]
  from assms(2) o have c3: "victory_conditions w3"
    by (simp add: victory_conditions_def)
  then have "active_enemies w3 = []" by (simp add: victory_conditions_def)
  with ens have "w4 = w3" by simp
  note c = fight_phase_fields [OF process_combat_fight [OF cmb]]
  note b = fight_phase_fields [OF process_blocking_fight [OF blk]]
  from c3 \<open>w4 = w3\<close> c b have c6: "victory_conditions w6"
    by (simp add: victory_conditions_def)
  then have "w7 = w6"
    using wav by (simp add: update_waves_def victory_conditions_def)
  with c6 show ?thesis by simp
qed

lemma update_victory_flag:
  assumes "update delta_time w = Inr w'"
  shows "is_victory w' \<longleftrightarrow> is_victory w \<or> victory_conditions w'"
proof -
  from assms obtain w7 where
    w7: "update_sequence delta_time w = Inr w7" and w': "w' = check_victory w7"
    by (rule update_split)
  from update_sequence_flags(1) [OF w7] show ?thesis
    by (simp add: w' check_victory_flag check_victory_fields victory_conditions_def)
qed

lemma update_after_victory:
  assumes "update delta_time w = Inr w'" and "victory_conditions w"
  shows "victory_conditions w'"
proof -
  from assms(1) obtain w7 where
    w7: "update_sequence delta_time w = Inr w7" and w': "w' = check_victory w7"
    by (rule update_split)
  from update_sequence_after_victory [OF w7 assms(2)] show ?thesis
    by (simp add: w' victory_conditions_def check_victory_fields)
qed

lemma update_settled:
  assumes "update delta_time w = Inr w'" and "is_victory w \<longrightarrow> victory_conditions w"
  shows "is_victory w' \<longleftrightarrow> victory_conditions w'"
  using update_victory_flag [OF assms(1)] update_after_victory [OF assms(1)] assms(2)
  by blast

lemma execute_settled:
  assumes "execute c s = Inr s'" and "scripted c" and "is_victory s \<longrightarrow> victory_conditions s"
  shows "is_victory s' \<longrightarrow> victory_conditions s'"
proof (cases c)
  case (Tick delta_time)
  with assms(1) have "update delta_time s = Inr s'" by (simp add: execute_def)
  from update_settled [OF this assms(3)] show ?thesis by simp
next
  case (Deploy oid pos dir)
  with assms(1) obtain r where d: "deploy_operator oid pos dir s = Inr (r, s')"
    by (auto simp: execute_def and_then_eq_Inr)
  from deploy_operator_frame(1,2,3) [OF d] deploy_operator_waves [OF d] assms(3)
  show ?thesis by (simp add: victory_conditions_def)
next
  case (Retreat oid)
  with assms(1) obtain r where "retreat_operator oid s = Inr (r, s')"
    by (auto simp: execute_def and_then_eq_Inr)
  from operators_phase_fields [OF retreat_operator_phase [OF this]] assms(3)
  show ?thesis by (simp add: victory_conditions_def)
next
  case (Spawn enemy_id route_idx)
  with assms(2) show ?thesis by (simp add: scripted_def)
qed

lemma run_settled:
  assumes "run cs w = Inr w'" and "list_all scripted cs"
    and "is_victory w \<longrightarrow> victory_conditions w"
  shows "is_victory w' \<longrightarrow> victory_conditions w'"
proof -
  have "for_each execute cs w = Inr w'"
    using assms(1) by (simp add: run_def)
  then show ?thesis
    by (rule for_each_invariant
          [where P = "\<lambda>s. is_victory s \<longrightarrow> victory_conditions s", rotated 2])
       (use assms(2,3) execute_settled in \<open>auto simp: list_all_iff\<close>)
qed

lemma update_lists:
  assumes "update delta_time w = Inr w'"
  shows "\<forall>oid \<in> set (deployed_operators w').
            \<forall>eid \<in> set (blocked_enemies (operators w' oid)). is_alive (enemies w' eid)"
    and "\<forall>oid eid. \<not> is_blocked (enemies w eid) \<and> blocks w' oid eid \<and> is_alive (enemies w' eid) \<longrightarrow>
            eid \<in> set (blocked_enemies (operators w' oid))"
proof -
  from assms obtain w7 where
    w7: "update_sequence delta_time w = Inr w7" and w': "w' = check_victory w7"
    by (rule update_split)
  have f: "blocks w' = blocks w7"
    by (intro ext) (simp add: w' blocks_def check_victory_fields)
  show "\<forall>oid \<in> set (deployed_operators w').
            \<forall>eid \<in> set (blocked_enemies (operators w' oid)). is_alive (enemies w' eid)"
    using update_sequence_lists(1) [OF w7] by (simp add: w' check_victory_fields)
  show "\<forall>oid eid. \<not> is_blocked (enemies w eid) \<and> blocks w' oid eid \<and> is_alive (enemies w' eid) \<longrightarrow>
            eid \<in> set (blocked_enemies (operators w' oid))"
    using update_sequence_lists(2) [OF w7] by (simp add: f) (simp add: w' check_victory_fields)
qed

section \<open>Ticks of the example worlds\<close>
lemma update_by_phases:
  assumes "cost_increase_time w \<noteq> 0"
    and "for_each (operator_step delta_time) (deployed_operators w)
           (w\<lparr>game_time := game_time w + delta_time,
              current_cost := min (max_cost w) (current_cost w + delta_time / cost_increase_time w)\<rparr>)
         = Inr w3"
    and "for_each (enemy_step delta_time) (active_enemies w3) w3 = Inr w4"
    and "process_combat delta_time w4 = Inr w5"
    and "process_blocking w5 = Inr w6"
    and "update_waves delta_time w6 = Inr w7"
  shows "update delta_time w = Inr (check_victory w7)"
  using assms by (simp add: update_def update_sequence_def py_div_def Let_def)

lemma py_index_0 [simp]: "py_index (x # xs) 0 = Inr x"
  by (simp add: py_index_def)

lemma stationed_update:
  assumes "is_deployed op" and "skills op = []" and "buffs op = []" and "debuffs op = []"
    and "attack_cooldown op \<le> 0"
  shows "operator_update delta_time op = Inr (op\<lparr>deploy_time := deploy_time op + delta_time\<rparr>)"
  using assms by (simp add: operator_update_def update_buffs_def Let_def)

lemma blocked_enemy_update:
  assumes "is_blocked e" and "buffs e = []" and "debuffs e = []" and "attack_cooldown e \<le> 0"
  shows "enemy_update delta_time e = Inr e"
proof -
  have "update_buffs delta_time e = e\<lparr>buffs := buffs e, debuffs := debuffs e\<rparr>"
    unfolding update_buffs_def by (simp add: assms(2,3))
  then have "update_buffs delta_time e = e" by simp
  with assms(1,4) show ?thesis by (simp add: enemy_update_def Let_def)
qed

lemma enemy_step_idle:
  assumes "enemy_update delta_time (enemies w eid) = Inr (enemies w eid)"
    and "\<not> has_reached_goal (enemies w eid)" and "is_alive (enemies w eid)"
  shows "enemy_step delta_time eid w = Inr w"
  using assms by (simp add: enemy_step_def Let_def)

lemma out_of_reach:
  assumes "position op = AtPosition p" and "row q = row p" and "col q \<le> col p"
  shows "can_attack op (AtPosition q) = Inr False"
  using assms by (auto simp: can_attack_def truthy_def get_rotated_attack_range_def Let_def)

lemma purge_all_alive:
  assumes "\<forall>e \<in> set (blocked_enemies (operators w oid)). is_alive (enemies w e)"
  shows "purge_dead_enemies oid w = Inr w"
  using assms by (simp add: purge_dead_enemies_def)

lemma demo_first_tick:
  "update 1 demo_world = Inr (demo_world\<lparr>game_time := 1, current_cost := 11, is_victory := True\<rparr>)"
  by (simp add: update_def update_sequence_def py_div_def demo_world_def process_combat_def
        process_blocking_def update_waves_def check_victory_def Let_def)

lemma demo_slug_fields:
  "position demo_slug = AtPosition \<lparr>row = 0, col = 0\<rparr>" "is_blocked demo_slug = False"
  "blocked_by demo_slug = None" "is_alive demo_slug = True" "has_reached_goal demo_slug = False"
  "attack_cooldown demo_slug = 0" "buffs demo_slug = []" "debuffs demo_slug = []"
  "enemy_path demo_slug = [\<lparr>row = 0, col = 0\<rparr>, \<lparr>row = 0, col = 1\<rparr>, \<lparr>row = 0, col = 2\<rparr>]"
  "path_index demo_slug = 0" "move_progress demo_slug = 0" "move_speed demo_slug = 1"
  by (simp_all add: demo_slug_def set_path_def demo_route_def Enemy_init_def demo_data_def)

lemma slug_enemy_update:
  "enemy_update (1/10) demo_slug = Inr (demo_slug\<lparr>move_progress := 1/10\<rparr>)"
  by (simp add: enemy_update_def update_buffs_def demo_slug_fields move_def move_loop.simps Let_def)

lemma slug_reaches_goal:
  "enemy_update 2 demo_slug
     = Inr (demo_slug\<lparr>path_index := 2, position := AtPosition \<lparr>row = 0, col = 2\<rparr>,
                      has_reached_goal := True\<rparr>)"
  by (simp add: enemy_update_def update_buffs_def demo_slug_fields move_def move_loop.simps
        py_index_def Let_def)

lemma slug_world_tile: "get_tile_at \<lparr>row = 0, col = 0\<rparr> (slug_world\<lparr>game_time := t, current_cost := c, enemies := E\<rparr>) = Inr (Some 0)"
  by (simp add: get_tile_at_def is_valid_position_def slug_world_def demo_world_def tiles_get_def Let_def)

lemma slug_world_fields:
  "cost_increase_time slug_world = 1" "game_time slug_world = 1" "max_cost slug_world = 99"
  "current_cost slug_world = 11" "deployed_operators slug_world = []"
  "active_enemies slug_world = [0]" "enemies slug_world 0 = demo_slug"
  "waves slug_world = []" "current_wave_index slug_world = 0" "is_victory slug_world"
  by (simp_all add: slug_world_def demo_world_def)

lemma slug_world_reached:
  "spawn_enemy ''slug'' 0 (demo_world\<lparr>game_time := 1, current_cost := 11, is_victory := True\<rparr>)
     = Inr (Some 0, slug_world)"
  by (simp add: spawn_enemy_def demo_world_def slug_world_def demo_slug_def Let_def)

lemma slug_tick:
  "update (1/10) slug_world
     = Inr (slug_world\<lparr>game_time := 11/10, current_cost := 111/10,
              enemies := (enemies slug_world)(0 := demo_slug\<lparr>move_progress := 1/10\<rparr>)\<rparr>)"
proof -
  define w2 where "w2 = slug_world\<lparr>game_time := 11/10, current_cost := 111/10\<rparr>"
  define w4 where "w4 = slug_world\<lparr>game_time := 11/10, current_cost := 111/10,
              enemies := (enemies slug_world)(0 := demo_slug\<lparr>move_progress := 1/10\<rparr>)\<rparr>"
  have f2: "deployed_operators w2 = []" "active_enemies w2 = [0]" "enemies w2 0 = demo_slug"
    by (simp_all add: w2_def slug_world_fields)
  have f4: "deployed_operators w4 = []" "active_enemies w4 = [0]"
    "enemies w4 0 = demo_slug\<lparr>move_progress := 1/10\<rparr>"
    "waves w4 = []" "current_wave_index w4 = 0"
    by (simp_all add: w4_def slug_world_fields)
  have s0: "for_each (operator_step (1/10)) (deployed_operators slug_world)
           (slug_world\<lparr>game_time := game_time slug_world + 1/10,
              current_cost := min (max_cost slug_world)
                (current_cost slug_world + (1/10) / cost_increase_time slug_world)\<rparr>)
         = Inr w2"
    by (simp add: slug_world_fields w2_def)
  have "enemy_step (1/10) 0 w2 = Inr w4"
    by (simp add: enemy_step_def f2 slug_enemy_update demo_slug_fields Let_def)
       (simp add: w2_def w4_def)
  then have s1: "for_each (enemy_step (1/10)) (active_enemies w2) w2 = Inr w4"
    by (simp add: f2)
  have s2: "process_combat (1/10) w4 = Inr w4"
    by (simp add: process_combat_def f4 enemy_attack_def demo_slug_fields)
  have t4: "get_tile_at \<lparr>row = 0, col = 0\<rparr> w4 = Inr (Some 0)"
    "deployed_operator (tiles w4 ! 0) = None"
    by (simp_all add: w4_def slug_world_tile) (simp add: slug_world_def demo_world_def)
  have s3: "block_enemy 0 w4 = Inr w4"
    by (simp add: block_enemy_def f4 demo_slug_fields truthy_def t4)
  have s4: "process_blocking w4 = Inr w4"
    by (simp add: process_blocking_def f4 s3 release_orphan_def demo_slug_fields)
  have s5: "update_waves (1/10) w4 = Inr w4"
    by (simp add: update_waves_def f4)
  have s6: "check_victory w4 = w4"
    by (simp add: check_victory_def f4)
  have "cost_increase_time slug_world \<noteq> 0"
    by (simp add: slug_world_fields)
  from update_by_phases [OF this s0 s1 s2 s4 s5] have "update (1/10) slug_world = Inr w4"
    by (simp add: s6)
  then show ?thesis by (simp add: w4_def)
qed

lemma last_life_world_fields:
  "cost_increase_time last_life_world = 1" "game_time last_life_world = 0"
  "max_cost last_life_world = 99" "current_cost last_life_world = 10"
  "deployed_operators last_life_world = []" "active_enemies last_life_world = [0]"
  "enemies last_life_world 0 = demo_slug" "waves last_life_world = []"
  "current_wave_index last_life_world = 0" "\<not> is_victory last_life_world"
  "\<not> is_defeat last_life_world" "current_life_points last_life_world = 1"
  "next_enemy_id last_life_world = 1"
  by (simp_all add: last_life_world_def demo_world_def)

lemma breached_world_fields:
  "cost_increase_time breached_world = 1" "game_time breached_world = 2"
  "max_cost breached_world = 99" "current_cost breached_world = 12"
  "deployed_operators breached_world = []" "active_enemies breached_world = []"
  "waves breached_world = []"
  "current_wave_index breached_world = 0" "\<not> is_victory breached_world"
  "is_defeat breached_world" "current_life_points breached_world = 0"
  "has_reached_goal (enemies breached_world 0)"
  by (simp_all add: breached_world_def last_life_world_fields)

lemma last_life_world_reached:
  "spawn_enemy ''slug'' 0 (demo_world\<lparr>current_life_points := 1\<rparr>) = Inr (Some 0, last_life_world)"
  by (simp add: spawn_enemy_def demo_world_def last_life_world_def demo_slug_def Let_def)

lemma last_life_tick: "update 2 last_life_world = Inr breached_world"
proof -
  define w2 where "w2 = last_life_world\<lparr>game_time := 2, current_cost := 12\<rparr>"
  have f2: "deployed_operators w2 = []" "active_enemies w2 = [0]" "enemies w2 0 = demo_slug"
    by (simp_all add: w2_def last_life_world_fields)
  have s0: "for_each (operator_step 2) (deployed_operators last_life_world)
           (last_life_world\<lparr>game_time := game_time last_life_world + 2,
              current_cost := min (max_cost last_life_world)
                (current_cost last_life_world + 2 / cost_increase_time last_life_world)\<rparr>)
         = Inr w2"
    by (simp add: last_life_world_fields w2_def)
  have "enemy_step 2 0 w2 = Inr breached_world"
    by (simp add: enemy_step_def f2 slug_reaches_goal list_remove_def Let_def)
       (simp add: w2_def breached_world_def last_life_world_fields)
  then have s1: "for_each (enemy_step 2) (active_enemies w2) w2 = Inr breached_world"
    by (simp add: f2)
  have s2: "process_combat 2 breached_world = Inr breached_world"
    by (simp add: process_combat_def breached_world_fields)
  have s4: "process_blocking breached_world = Inr breached_world"
    by (simp add: process_blocking_def breached_world_fields)
  have s5: "update_waves 2 breached_world = Inr breached_world"
    by (simp add: update_waves_def breached_world_fields)
  have s6: "check_victory breached_world = breached_world"
    by (simp add: check_victory_def breached_world_fields)
  have "cost_increase_time last_life_world \<noteq> 0"
    by (simp add: last_life_world_fields)
  from update_by_phases [OF this s0 s1 s2 s4 s5] show ?thesis
    by (simp add: s6)
qed

lemma breached_tick:
  "update 1 breached_world = Inr (breached_world\<lparr>game_time := 3, current_cost := 13\<rparr>)"
proof -
  define w2 where "w2 = breached_world\<lparr>game_time := 3, current_cost := 13\<rparr>"
  have f2: "deployed_operators w2 = []" "active_enemies w2 = []" "waves w2 = []"
    "current_wave_index w2 = 0" "current_life_points w2 = 0"
    by (simp_all add: w2_def breached_world_fields)
  have s0: "for_each (operator_step 1) (deployed_operators breached_world)
           (breached_world\<lparr>game_time := game_time breached_world + 1,
              current_cost := min (max_cost breached_world)
                (current_cost breached_world + 1 / cost_increase_time breached_world)\<rparr>)
         = Inr w2"
    by (simp add: breached_world_fields w2_def)
  have s1: "for_each (enemy_step 1) (active_enemies w2) w2 = Inr w2"
    by (simp add: f2)
  have s2: "process_combat 1 w2 = Inr w2"
    by (simp add: process_combat_def f2)
  have s4: "process_blocking w2 = Inr w2"
    by (simp add: process_blocking_def f2)
  have s5: "update_waves 1 w2 = Inr w2"
    by (simp add: update_waves_def f2)
  have s6: "check_victory w2 = w2"
    by (simp add: check_victory_def f2)
  have "cost_increase_time breached_world \<noteq> 0"
    by (simp add: breached_world_fields)
  from update_by_phases [OF this s0 s1 s2 s4 s5] have "update 1 breached_world = Inr w2"
    by (simp add: s6)
  then show ?thesis by (simp add: w2_def)
qed

lemma demo_operator_fields:
  "is_deployed (deploy pos dir demo_melee)" "skills (deploy pos dir demo_melee) = []"
  "buffs (deploy pos dir demo_melee) = []" "debuffs (deploy pos dir demo_melee) = []"
  "attack_cooldown (deploy pos dir demo_melee) = 0" "deploy_time (deploy pos dir demo_melee) = 0"
  "is_alive (deploy pos dir demo_melee)" "position (deploy pos dir demo_melee) = AtPosition pos"
  "blocked_enemies (deploy pos dir demo_melee) = []" "max_block_count (deploy pos dir demo_melee) = 1"
  "atk (deploy pos dir demo_melee) = 30" "defense (deploy pos dir demo_melee) = 10"
  "current_hp (deploy pos dir demo_melee) = 100"
  "base_attack_time (deploy pos dir demo_melee) = 1" "attack_speed (deploy pos dir demo_melee) = 100"
  "is_deployed (deploy pos dir demo_ranged)" "skills (deploy pos dir demo_ranged) = []"
  "buffs (deploy pos dir demo_ranged) = []" "debuffs (deploy pos dir demo_ranged) = []"
  "attack_cooldown (deploy pos dir demo_ranged) = 0" "deploy_time (deploy pos dir demo_ranged) = 0"
  "is_alive (deploy pos dir demo_ranged)" "position (deploy pos dir demo_ranged) = AtPosition pos"
  "blocked_enemies (deploy pos dir demo_ranged) = []" "max_block_count (deploy pos dir demo_ranged) = 0"
  by (simp_all add: deploy_def demo_melee_def demo_ranged_def)

lemma guarded_world_reached:
  "spawn_enemy ''slug'' 0 crowded_world = Inr (Some 0, guarded_world)"
  by (simp add: spawn_enemy_def crowded_world_def demo_world_def guarded_world_def demo_slug_def Let_def)

lemma guarded_world_fields:
  "cost_increase_time guarded_world = 1" "game_time guarded_world = 0"
  "max_cost guarded_world = 99" "current_cost guarded_world = 4"
  "deployed_operators guarded_world = [0, 2]" "active_enemies guarded_world = [0]"
  "enemies guarded_world 0 = demo_slug" "waves guarded_world = []"
  "current_wave_index guarded_world = 0"
  "operators guarded_world 0 = deploy \<lparr>row = 0, col = 0\<rparr> RIGHT demo_melee"
  "operators guarded_world 2 = deploy \<lparr>row = 0, col = 2\<rparr> LEFT demo_ranged"
  "rows guarded_world = 1" "cols guarded_world = 3" "map_layout guarded_world = [[0, 1, 2]]"
  "tiles guarded_world = [\<lparr>buildable_type = Buildable_MELEE, deployed_operator = Some 0\<rparr>,
                  \<lparr>buildable_type = Buildable_ALL, deployed_operator = None\<rparr>,
                  \<lparr>buildable_type = Buildable_RANGED, deployed_operator = Some 2\<rparr>]"
  by (simp_all add: guarded_world_def crowded_world_def demo_world_def)

lemma guarded_world_capacity: "within_capacity guarded_world"
  unfolding within_capacity_def
proof
  fix oid
  show "int (length (blocked_enemies (operators guarded_world oid)))
          \<le> max_block_count (operators guarded_world oid)"
    by (cases "oid = 0"; cases "oid = 2")
       (simp_all add: guarded_world_def crowded_world_def demo_world_def
          deploy_def demo_melee_def demo_ranged_def demo_costly_def)
qed

lemma guarded_tick: "update (1/10) guarded_world = Inr engaged_world"
proof -
  define w2 where "w2 = guarded_world\<lparr>game_time := 1/10, current_cost := 41/10\<rparr>"
  define w3 where "w3 = w2\<lparr>operators := (operators w2)
          (0 := (operators w2 0)\<lparr>deploy_time := 1/10\<rparr>,
           2 := (operators w2 2)\<lparr>deploy_time := 1/10\<rparr>)\<rparr>"
  define w4 where "w4 = w3\<lparr>enemies := (enemies w3)(0 := demo_slug\<lparr>move_progress := 1/10\<rparr>)\<rparr>"
  have f2: "deployed_operators w2 = [0, 2]"
    "operators w2 0 = deploy \<lparr>row = 0, col = 0\<rparr> RIGHT demo_melee"
    "operators w2 2 = deploy \<lparr>row = 0, col = 2\<rparr> LEFT demo_ranged"
    by (simp_all add: w2_def guarded_world_fields)
  have s0: "for_each (operator_step (1/10)) (deployed_operators guarded_world)
           (guarded_world\<lparr>game_time := game_time guarded_world + 1/10,
              current_cost := min (max_cost guarded_world)
                (current_cost guarded_world + (1/10) / cost_increase_time guarded_world)\<rparr>)
         = Inr w3"
    by (simp add: guarded_world_fields w2_def [symmetric])
       (simp add: operator_step_def f2 stationed_update demo_operator_fields Let_def w3_def
          fun_upd_twist)
  have f3: "active_enemies w3 = [0]" "enemies w3 0 = demo_slug"
    by (simp_all add: w3_def w2_def guarded_world_fields)
  have "enemy_step (1/10) 0 w3 = Inr w4"
    by (simp add: enemy_step_def f3 slug_enemy_update demo_slug_fields Let_def w4_def)
  then have s1: "for_each (enemy_step (1/10)) (active_enemies w3) w3 = Inr w4"
    by (simp add: f3)
  have f4: "deployed_operators w4 = [0, 2]" "active_enemies w4 = [0]"
    "enemies w4 0 = demo_slug\<lparr>move_progress := 1/10\<rparr>"
    "operators w4 0 = (deploy \<lparr>row = 0, col = 0\<rparr> RIGHT demo_melee)\<lparr>deploy_time := 1/10\<rparr>"
    "operators w4 2 = (deploy \<lparr>row = 0, col = 2\<rparr> LEFT demo_ranged)\<lparr>deploy_time := 1/10\<rparr>"
    "waves w4 = []" "current_wave_index w4 = 0"
    by (simp_all add: w4_def w3_def w2_def guarded_world_fields)
  have a0: "operator_attack 0 w4 = Inr w4"
    by (simp add: operator_attack_def find_attack_target_def f4 demo_operator_fields truthy_def
          demo_slug_fields out_of_reach Let_def)
  have a2: "operator_attack 2 w4 = Inr w4"
    by (simp add: operator_attack_def find_attack_target_def f4 demo_operator_fields truthy_def
          demo_slug_fields out_of_reach Let_def)
  have s2: "process_combat (1/10) w4 = Inr w4"
    by (simp add: process_combat_def f4 a0 a2 enemy_attack_def demo_slug_fields)
  have t4: "get_tile_at \<lparr>row = 0, col = 0\<rparr> w4 = Inr (Some 0)"
    "deployed_operator (tiles w4 ! 0) = Some 0"
    by (simp_all add: w4_def w3_def w2_def get_tile_at_def is_valid_position_def tiles_get_def
          guarded_world_fields)
  define w5 where "w5 = w4\<lparr>enemies := (enemies w4)(0 := get_blocked_by 0 (enemies w4 0)),
                         operators := (operators w4)
                           (0 := (operators w4 0)\<lparr>blocked_enemies := blocked_enemies (operators w4 0) @ [0]\<rparr>)\<rparr>"
  have b: "block_enemy 0 w4 = Inr w5"
    by (simp add: block_enemy_def f4 demo_slug_fields truthy_def t4 demo_operator_fields w5_def)
  have f5: "deployed_operators w5 = [0, 2]" "active_enemies w5 = [0]"
    "enemies w5 0 = get_blocked_by 0 (demo_slug\<lparr>move_progress := 1/10\<rparr>)"
    "operators w5 0 = (deploy \<lparr>row = 0, col = 0\<rparr> RIGHT demo_melee)\<lparr>deploy_time := 1/10, blocked_enemies := [0]\<rparr>"
    "operators w5 2 = (deploy \<lparr>row = 0, col = 2\<rparr> LEFT demo_ranged)\<lparr>deploy_time := 1/10\<rparr>"
    "waves w5 = []" "current_wave_index w5 = 0"
    by (simp_all add: w5_def f4 demo_operator_fields)
  have p0: "purge_dead_enemies 0 w5 = Inr w5"
    by (rule purge_all_alive) (simp add: f5 get_blocked_by_def demo_slug_fields)
  have p2: "purge_dead_enemies 2 w5 = Inr w5"
    by (rule purge_all_alive) (simp add: f5 demo_operator_fields)
  have r: "release_orphan 0 w5 = Inr w5"
    by (simp add: release_orphan_def f5 get_blocked_by_def demo_operator_fields)
  have s4: "process_blocking w4 = Inr w5"
    by (simp add: process_blocking_def f4 b f5 p0 p2 r)
  have s5: "update_waves (1/10) w5 = Inr w5"
    by (simp add: update_waves_def f5)
  have s6: "check_victory w5 = w5"
    by (simp add: check_victory_def f5)
  have "cost_increase_time guarded_world \<noteq> 0"
    by (simp add: guarded_world_fields)
  from update_by_phases [OF this s0 s1 s2 s4 s5] have "update (1/10) guarded_world = Inr w5"
    by (simp add: s6)
  moreover have "w5 = engaged_world"
    by (simp add: w5_def w4_def w3_def w2_def engaged_world_def guarded_world_fields
          demo_operator_fields fun_upd_twist)
  ultimately show ?thesis by simp
qed

lemma engaged_world_fields:
  "cost_increase_time engaged_world = 1" "game_time engaged_world = 1/10"
  "max_cost engaged_world = 99" "current_cost engaged_world = 41/10"
  "deployed_operators engaged_world = [0, 2]" "active_enemies engaged_world = [0]"
  "enemies engaged_world 0 = get_blocked_by 0 (demo_slug\<lparr>move_progress := 1/10\<rparr>)"
  "waves engaged_world = []" "current_wave_index engaged_world = 0"
  "operators engaged_world 0
     = (deploy \<lparr>row = 0, col = 0\<rparr> RIGHT demo_melee)\<lparr>deploy_time := 1/10, blocked_enemies := [0]\<rparr>"
  "operators engaged_world 2 = (deploy \<lparr>row = 0, col = 2\<rparr> LEFT demo_ranged)\<lparr>deploy_time := 1/10\<rparr>"
  by (simp_all add: engaged_world_def guarded_world_fields)

lemma engaged_world_blocks: "blocks engaged_world 0 0"
  by (simp add: blocks_def engaged_world_fields get_blocked_by_def)

lemma engaged_tick:
  "\<exists>w'. update (1/10) engaged_world = Inr w' \<and> blocks w' 0 0 \<and> active_enemies w' = [0]
      \<and> deployed_operators w' = [0, 2]
      \<and> current_hp (enemies w' 0) = 20 \<and> current_hp (operators w' 0) = 90
      \<and> blocked_enemies (operators w' 0) = [0]"
proof -
  define slug1 where "slug1 = get_blocked_by 0 (demo_slug\<lparr>move_progress := 1/10\<rparr>)"
  define op0 where "op0 = (deploy \<lparr>row = 0, col = 0\<rparr> RIGHT demo_melee)\<lparr>blocked_enemies := [0], deploy_time := 1/5\<rparr>"
  define op2 where "op2 = (deploy \<lparr>row = 0, col = 2\<rparr> LEFT demo_ranged)\<lparr>deploy_time := 1/5\<rparr>"
  define w2 where "w2 = engaged_world\<lparr>game_time := 1/5, current_cost := 21/5\<rparr>"
  define w3 where "w3 = w2\<lparr>operators := (operators w2)(0 := op0, 2 := op2)\<rparr>"
  have slug1: "is_blocked slug1" "blocked_by slug1 = Some 0" "is_alive slug1"
    "\<not> has_reached_goal slug1" "attack_cooldown slug1 = 0" "buffs slug1 = []" "debuffs slug1 = []"
    "position slug1 = AtPosition \<lparr>row = 0, col = 0\<rparr>" "current_hp slug1 = 50" "defense slug1 = 0"
    "atk slug1 = 20" "base_attack_time slug1 = 1" "attack_speed slug1 = 1"
    by (simp_all add: slug1_def get_blocked_by_def demo_slug_fields)
       (simp_all add: demo_slug_def set_path_def demo_route_def Enemy_init_def demo_data_def)
  have op0: "is_deployed op0" "skills op0 = []" "buffs op0 = []" "debuffs op0 = []"
    "attack_cooldown op0 = 0" "is_alive op0" "position op0 = AtPosition \<lparr>row = 0, col = 0\<rparr>"
    "blocked_enemies op0 = [0]" "max_block_count op0 = 1" "atk op0 = 30" "defense op0 = 10"
    "current_hp op0 = 100" "base_attack_time op0 = 1" "attack_speed op0 = 100"
    by (simp_all add: op0_def demo_operator_fields)
  have op2: "is_deployed op2" "skills op2 = []" "buffs op2 = []" "debuffs op2 = []"
    "attack_cooldown op2 = 0" "is_alive op2" "position op2 = AtPosition \<lparr>row = 0, col = 2\<rparr>"
    "blocked_enemies op2 = []" "max_block_count op2 = 0"
    by (simp_all add: op2_def demo_operator_fields)
  have f2: "deployed_operators w2 = [0, 2]"
    "operators w2 0 = (deploy \<lparr>row = 0, col = 0\<rparr> RIGHT demo_melee)\<lparr>deploy_time := 1/10, blocked_enemies := [0]\<rparr>"
    "operators w2 2 = (deploy \<lparr>row = 0, col = 2\<rparr> LEFT demo_ranged)\<lparr>deploy_time := 1/10\<rparr>"
    by (simp_all add: w2_def engaged_world_fields)
  have s0: "for_each (operator_step (1/10)) (deployed_operators engaged_world)
           (engaged_world\<lparr>game_time := game_time engaged_world + 1/10,
              current_cost := min (max_cost engaged_world)
                (current_cost engaged_world + (1/10) / cost_increase_time engaged_world)\<rparr>)
         = Inr w3"
    by (simp add: engaged_world_fields w2_def [symmetric])
       (simp add: operator_step_def f2 stationed_update demo_operator_fields Let_def w3_def
          op0_def op2_def fun_upd_twist)
  have f3: "deployed_operators w3 = [0, 2]" "active_enemies w3 = [0]" "enemies w3 0 = slug1"
    "operators w3 0 = op0" "operators w3 2 = op2" "waves w3 = []" "current_wave_index w3 = 0"
    by (simp_all add: w3_def w2_def engaged_world_fields slug1_def)
  have "enemy_step (1/10) 0 w3 = Inr w3"
    by (rule enemy_step_idle, rule blocked_enemy_update) (simp_all add: f3 slug1)
  then have s1: "for_each (enemy_step (1/10)) (active_enemies w3) w3 = Inr w3"
    by (simp add: f3)
  define slug2 where "slug2 = slug1\<lparr>current_hp := 20\<rparr>"
  define wa where "wa = w3\<lparr>enemies := (enemies w3)(0 := slug2),
                          operators := (operators w3)(0 := op0\<lparr>attack_cooldown := 1/100\<rparr>)\<rparr>"
  have hit: "lose_hp 30 slug1 = slug2"
    by (simp add: lose_hp_def slug1 slug2_def Let_def)
  have a0: "operator_attack 0 w3 = Inr wa"
    by (simp add: operator_attack_def find_attack_target_def f3 op0 slug1 truthy_def hit
          py_div_def Let_def wa_def)
  have fa: "deployed_operators wa = [0, 2]" "active_enemies wa = [0]" "enemies wa 0 = slug2"
    "operators wa 0 = op0\<lparr>attack_cooldown := 1/100\<rparr>" "operators wa 2 = op2"
    "waves wa = []" "current_wave_index wa = 0"
    by (simp_all add: wa_def f3)
  have slug2: "is_blocked slug2" "blocked_by slug2 = Some 0" "is_alive slug2"
    "attack_cooldown slug2 = 0" "position slug2 = AtPosition \<lparr>row = 0, col = 0\<rparr>"
    "atk slug2 = 20" "base_attack_time slug2 = 1" "attack_speed slug2 = 1"
    by (simp_all add: slug2_def slug1)
  have a2: "operator_attack 2 wa = Inr wa"
    by (simp add: operator_attack_def find_attack_target_def fa op2 truthy_def
          slug2 out_of_reach Let_def)
  define op0b where "op0b = op0\<lparr>attack_cooldown := 1/100, current_hp := 90\<rparr>"
  define wb where "wb = wa\<lparr>operators := (operators wa)(0 := op0b),
                          enemies := (enemies wa)(0 := slug2\<lparr>attack_cooldown := 1\<rparr>)\<rparr>"
  have hurt: "lose_hp 10 (op0\<lparr>attack_cooldown := 1/100\<rparr>) = op0b"
    by (simp add: lose_hp_def op0 op0b_def Let_def)
  have e0: "enemy_attack 0 wa = Inr wb"
    by (simp add: enemy_attack_def fa slug2 op0 hurt py_div_def Let_def wb_def)
  have s2: "process_combat (1/10) w3 = Inr wb"
    by (simp add: process_combat_def f3 a0 fa a2 e0)
  have fb: "deployed_operators wb = [0, 2]" "active_enemies wb = [0]"
    "enemies wb 0 = slug2\<lparr>attack_cooldown := 1\<rparr>"
    "operators wb 0 = op0b" "operators wb 2 = op2"
    "waves wb = []" "current_wave_index wb = 0"
    by (simp_all add: wb_def fa)
  have op0b: "is_alive op0b" "blocked_enemies op0b = [0]" "current_hp op0b = 90"
    by (simp_all add: op0b_def op0)
  have b: "block_enemy 0 wb = Inr wb"
    by (simp add: block_enemy_def fb slug2)
  have p0: "purge_dead_enemies 0 wb = Inr wb"
    by (rule purge_all_alive) (simp add: fb op0b slug2)
  have p2: "purge_dead_enemies 2 wb = Inr wb"
    by (rule purge_all_alive) (simp add: fb op2)
  have r: "release_orphan 0 wb = Inr wb"
    by (simp add: release_orphan_def fb slug2 op0b)
  have s4: "process_blocking wb = Inr wb"
    by (simp add: process_blocking_def fb b p0 p2 r)
  have s5: "update_waves (1/10) wb = Inr wb"
    by (simp add: update_waves_def fb)
  have s6: "check_victory wb = wb"
    by (simp add: check_victory_def fb)
  have "cost_increase_time engaged_world \<noteq> 0"
    by (simp add: engaged_world_fields)
  from update_by_phases [OF this s0 s1 s2 s4 s5] have "update (1/10) engaged_world = Inr wb"
    by (simp add: s6)
  moreover have "blocks wb 0 0"
    by (simp add: blocks_def fb slug2)
  moreover have "current_hp (enemies wb 0) = 20"
    by (simp add: fb slug2_def)
  ultimately show ?thesis
    using fb op0b by auto
qed


lemma demo_recruit_fields:
  "is_deployed (deploy pos dir demo_recruit)" "skills (deploy pos dir demo_recruit) = []"
  "buffs (deploy pos dir demo_recruit) = []" "debuffs (deploy pos dir demo_recruit) = []"
  "attack_cooldown (deploy pos dir demo_recruit) = 0" "deploy_time (deploy pos dir demo_recruit) = 0"
  "is_alive (deploy pos dir demo_recruit)" "position (deploy pos dir demo_recruit) = AtPosition pos"
  "blocked_enemies (deploy pos dir demo_recruit) = []" "max_block_count (deploy pos dir demo_recruit) = 1"
  "atk (deploy pos dir demo_recruit) = 30" "defense (deploy pos dir demo_recruit) = 10"
  "current_hp (deploy pos dir demo_recruit) = 10"
  "base_attack_time (deploy pos dir demo_recruit) = 1" "attack_speed (deploy pos dir demo_recruit) = 100"
  by (simp_all add: deploy_def demo_recruit_def demo_melee_def)

lemma outpost_deploy:
  "deploy_operator 3 \<lparr>row = 0, col = 0\<rparr> RIGHT outpost_world
     = Inr (success_result,
            outpost_world\<lparr>tiles := (tiles outpost_world)
                          [0 := \<lparr>buildable_type = Buildable_MELEE, deployed_operator = Some 3\<rparr>],
                       operators := (operators outpost_world)
                          (3 := deploy \<lparr>row = 0, col = 0\<rparr> RIGHT demo_recruit),
                       deployed_operators := [3], current_cost := 7\<rparr>)"
proof -
  have tile: "get_tile_at \<lparr>row = 0, col = 0\<rparr> outpost_world = Inr (Some 0)"
    using demo_tile_at(1) get_tile_at_cong [of outpost_world demo_world "\<lparr>row = 0, col = 0\<rparr>"]
    by (simp add: outpost_world_def)
  have valid: "is_valid_position \<lparr>row = 0, col = 0\<rparr> outpost_world"
    using tile get_tile_at_Some_valid by blast
  show ?thesis
    by (simp add: deploy_operator_def valid tile Let_def)
       (simp add: outpost_world_def demo_world_def check_operator_tile_compatibility_def
          demo_recruit_def demo_melee_def tile_deploy_operator_def can_deploy_operator_def)
qed

lemma outpost_manned_reached:
  "deploy_operator 3 \<lparr>row = 0, col = 0\<rparr> RIGHT outpost_world = Inr (success_result, outpost_manned)"
  by (simp add: outpost_deploy outpost_manned_def)

lemma outpost_tiles:
  "get_tile_at \<lparr>row = 0, col = 0\<rparr> outpost_manned = Inr (Some 0)"
  "deployed_operator (tiles outpost_manned ! 0) = Some 3"
  "tiles outpost_reached = tiles outpost_manned" "tiles outpost_engaged = tiles outpost_manned"
  "get_tile_at \<lparr>row = 0, col = 0\<rparr> outpost_reached = Inr (Some 0)"
  "get_tile_at \<lparr>row = 0, col = 0\<rparr> outpost_engaged = Inr (Some 0)"
proof -
  show a: "get_tile_at \<lparr>row = 0, col = 0\<rparr> outpost_manned = Inr (Some 0)"
    using demo_tile_at(1) get_tile_at_cong [of outpost_manned demo_world "\<lparr>row = 0, col = 0\<rparr>"]
    by (simp add: outpost_manned_def outpost_world_def)
  show "deployed_operator (tiles outpost_manned ! 0) = Some 3"
    by (simp add: outpost_manned_def outpost_world_def demo_world_def)
  show "tiles outpost_reached = tiles outpost_manned" "tiles outpost_engaged = tiles outpost_manned"
    by (simp_all add: outpost_engaged_def outpost_reached_def)
  show "get_tile_at \<lparr>row = 0, col = 0\<rparr> outpost_reached = Inr (Some 0)"
    using a get_tile_at_cong [of outpost_reached outpost_manned "\<lparr>row = 0, col = 0\<rparr>"]
    by (simp add: outpost_reached_def)
  show "get_tile_at \<lparr>row = 0, col = 0\<rparr> outpost_engaged = Inr (Some 0)"
    using a get_tile_at_cong [of outpost_engaged outpost_manned "\<lparr>row = 0, col = 0\<rparr>"]
    by (simp add: outpost_engaged_def outpost_reached_def)
qed

lemma outpost_manned_fields:
  "cost_increase_time outpost_manned = 1" "game_time outpost_manned = 0"
  "max_cost outpost_manned = 99" "current_cost outpost_manned = 7"
  "deployed_operators outpost_manned = [3]" "active_enemies outpost_manned = []"
  "operators outpost_manned 3 = deploy \<lparr>row = 0, col = 0\<rparr> RIGHT demo_recruit"
  "waves outpost_manned = [demo_wave]" "current_wave_index outpost_manned = 0"
  "enemy_database outpost_manned ''slug'' = Some demo_data" "routes outpost_manned = [demo_route]"
  "next_enemy_id outpost_manned = 0"
  by (simp_all add: outpost_manned_def outpost_world_def demo_world_def)

lemma outpost_reached_fields:
  "cost_increase_time outpost_reached = 1" "game_time outpost_reached = 1/10"
  "max_cost outpost_reached = 99" "current_cost outpost_reached = 71/10"
  "deployed_operators outpost_reached = [3]" "active_enemies outpost_reached = [0]"
  "operators outpost_reached 3
     = (deploy \<lparr>row = 0, col = 0\<rparr> RIGHT demo_recruit)\<lparr>deploy_time := 1/10\<rparr>"
  "enemies outpost_reached 0 = demo_slug"
  "length (waves outpost_reached) = 1" "current_wave_index outpost_reached = 1"
  by (simp_all add: outpost_reached_def outpost_manned_fields)

lemma outpost_engaged_fields:
  "cost_increase_time outpost_engaged = 1" "game_time outpost_engaged = 1/5"
  "max_cost outpost_engaged = 99" "current_cost outpost_engaged = 36/5"
  "deployed_operators outpost_engaged = [3]" "active_enemies outpost_engaged = [0]"
  "operators outpost_engaged 3
     = (deploy \<lparr>row = 0, col = 0\<rparr> RIGHT demo_recruit)\<lparr>deploy_time := 1/5, blocked_enemies := [0]\<rparr>"
  "enemies outpost_engaged 0 = get_blocked_by 3 (demo_slug\<lparr>move_progress := 1/10\<rparr>)"
  "length (waves outpost_engaged) = 1" "current_wave_index outpost_engaged = 1"
  by (simp_all add: outpost_engaged_def outpost_reached_fields)

lemma outpost_first_tick: "update (1/10) outpost_manned = Inr outpost_reached"
proof -
  note fA = outpost_manned_fields
  define w2 where "w2 = outpost_manned\<lparr>game_time := 1/10, current_cost := 71/10\<rparr>"
  define w3 where "w3 = w2\<lparr>operators := (operators w2)
          (3 := (deploy \<lparr>row = 0, col = 0\<rparr> RIGHT demo_recruit)\<lparr>deploy_time := 1/10\<rparr>)\<rparr>"
  have f2: "deployed_operators w2 = [3]"
    "operators w2 3 = deploy \<lparr>row = 0, col = 0\<rparr> RIGHT demo_recruit"
    by (simp_all add: w2_def fA)
  have s0: "for_each (operator_step (1/10)) (deployed_operators outpost_manned)
           (outpost_manned\<lparr>game_time := game_time outpost_manned + 1/10,
              current_cost := min (max_cost outpost_manned)
                (current_cost outpost_manned + (1/10) / cost_increase_time outpost_manned)\<rparr>)
         = Inr w3"
    by (simp add: fA w2_def [symmetric])
       (simp add: operator_step_def f2 stationed_update demo_recruit_fields Let_def w3_def)
  have f3: "deployed_operators w3 = [3]" "active_enemies w3 = []"
    "operators w3 3 = (deploy \<lparr>row = 0, col = 0\<rparr> RIGHT demo_recruit)\<lparr>deploy_time := 1/10\<rparr>"
    "waves w3 = [demo_wave]" "current_wave_index w3 = 0"
    "enemy_database w3 ''slug'' = Some demo_data" "routes w3 = [demo_route]"
    "next_enemy_id w3 = 0"
    by (simp_all add: w3_def w2_def fA)
  have s1: "for_each (enemy_step (1/10)) (active_enemies w3) w3 = Inr w3"
    by (simp add: f3)
  have a3: "operator_attack 3 w3 = Inr w3"
    by (simp add: operator_attack_def find_attack_target_def f3 demo_recruit_fields truthy_def Let_def)
  have s2: "process_combat (1/10) w3 = Inr w3"
    by (simp add: process_combat_def f3 a3)
  have p3: "purge_dead_enemies 3 w3 = Inr w3"
    by (rule purge_all_alive) (simp add: f3 demo_recruit_fields)
  have s4: "process_blocking w3 = Inr w3"
    by (simp add: process_blocking_def f3 p3)
  have spawn: "spawn_enemy ''slug'' 0 w3
      = Inr (Some 0, w3\<lparr>enemies := (enemies w3)(0 := demo_slug), next_enemy_id := 1,
                       active_enemies := [0]\<rparr>)"
    by (simp add: spawn_enemy_def f3 demo_slug_def Let_def)
  have s5: "update_waves (1/10) w3 = Inr outpost_reached"
    by (simp add: update_waves_def f3 py_place_def advance_wave_def demo_wave_def
          fragment_step_def action_step_def spawn finish_wave_def Let_def)
       (simp add: w3_def w2_def outpost_reached_def demo_wave_def)
  have s6: "check_victory outpost_reached = outpost_reached"
    by (simp add: check_victory_def outpost_reached_fields)
  have "cost_increase_time outpost_manned \<noteq> 0" by (simp add: fA)
  from update_by_phases [OF this s0 s1 s2 s4 s5] show ?thesis
    by (simp only: s6)
qed

lemma outpost_second_tick: "update (1/10) outpost_reached = Inr outpost_engaged"
proof -
  note fB = outpost_reached_fields
  define w2 where "w2 = outpost_reached\<lparr>game_time := 1/5, current_cost := 36/5\<rparr>"
  define w3 where "w3 = w2\<lparr>operators := (operators w2)
          (3 := (deploy \<lparr>row = 0, col = 0\<rparr> RIGHT demo_recruit)\<lparr>deploy_time := 1/5\<rparr>)\<rparr>"
  define w4 where "w4 = w3\<lparr>enemies := (enemies w3)(0 := demo_slug\<lparr>move_progress := 1/10\<rparr>)\<rparr>"
  have f2: "deployed_operators w2 = [3]"
    "operators w2 3 = (deploy \<lparr>row = 0, col = 0\<rparr> RIGHT demo_recruit)\<lparr>deploy_time := 1/10\<rparr>"
    by (simp_all add: w2_def fB)
  have s0: "for_each (operator_step (1/10)) (deployed_operators outpost_reached)
           (outpost_reached\<lparr>game_time := game_time outpost_reached + 1/10,
              current_cost := min (max_cost outpost_reached)
                (current_cost outpost_reached + (1/10) / cost_increase_time outpost_reached)\<rparr>)
         = Inr w3"
    by (simp add: fB w2_def [symmetric])
       (simp add: operator_step_def f2 stationed_update demo_recruit_fields Let_def w3_def)
  have f3: "active_enemies w3 = [0]" "enemies w3 0 = demo_slug"
    by (simp_all add: w3_def w2_def fB)
  have "enemy_step (1/10) 0 w3 = Inr w4"
    by (simp add: enemy_step_def f3 slug_enemy_update demo_slug_fields Let_def w4_def)
  then have s1: "for_each (enemy_step (1/10)) (active_enemies w3) w3 = Inr w4"
    by (simp add: f3)
  have f4: "deployed_operators w4 = [3]" "active_enemies w4 = [0]"
    "enemies w4 0 = demo_slug\<lparr>move_progress := 1/10\<rparr>"
    "operators w4 3 = (deploy \<lparr>row = 0, col = 0\<rparr> RIGHT demo_recruit)\<lparr>deploy_time := 1/5\<rparr>"
    "length (waves w4) = 1" "current_wave_index w4 = 1"
    by (simp_all add: w4_def w3_def w2_def fB)
  have a3: "operator_attack 3 w4 = Inr w4"
    by (simp add: operator_attack_def find_attack_target_def f4 demo_recruit_fields truthy_def
          demo_slug_fields out_of_reach Let_def)
  have s2: "process_combat (1/10) w4 = Inr w4"
    by (simp add: process_combat_def f4 a3 enemy_attack_def demo_slug_fields)
  have t4: "get_tile_at \<lparr>row = 0, col = 0\<rparr> w4 = Inr (Some 0)"
    "deployed_operator (tiles w4 ! 0) = Some 3"
    using outpost_tiles(5) get_tile_at_cong [of w4 outpost_reached "\<lparr>row = 0, col = 0\<rparr>"]
    by (simp_all add: w4_def w3_def w2_def outpost_tiles)
  have b: "block_enemy 0 w4 = Inr outpost_engaged"
    by (simp add: block_enemy_def f4 demo_slug_fields truthy_def t4 demo_recruit_fields)
       (simp add: w4_def w3_def w2_def outpost_engaged_def)
  note fC = outpost_engaged_fields
  have p3: "purge_dead_enemies 3 outpost_engaged = Inr outpost_engaged"
    by (rule purge_all_alive) (simp add: fC get_blocked_by_def demo_slug_fields)
  have r: "release_orphan 0 outpost_engaged = Inr outpost_engaged"
    by (simp add: release_orphan_def fC get_blocked_by_def demo_recruit_fields)
  have s4: "process_blocking w4 = Inr outpost_engaged"
    by (simp add: process_blocking_def f4 b fC p3 r)
  have s5: "update_waves (1/10) outpost_engaged = Inr outpost_engaged"
    by (simp add: update_waves_def fC)
  have s6: "check_victory outpost_engaged = outpost_engaged"
    by (simp add: check_victory_def fC)
  have "cost_increase_time outpost_reached \<noteq> 0" by (simp add: fB)
  from update_by_phases [OF this s0 s1 s2 s4 s5] show ?thesis
    by (simp only: s6)
qed

lemma outpost_third_tick: "update (1/10) outpost_engaged = Inr outpost_fallen"
proof -
  note fC = outpost_engaged_fields
  define slug1 where "slug1 = get_blocked_by 3 (demo_slug\<lparr>move_progress := 1/10\<rparr>)"
  define op0 where "op0 = (deploy \<lparr>row = 0, col = 0\<rparr> RIGHT demo_recruit)
                            \<lparr>blocked_enemies := [0], deploy_time := 3/10\<rparr>"
  define w2 where "w2 = outpost_engaged\<lparr>game_time := 3/10, current_cost := 73/10\<rparr>"
  define w3 where "w3 = w2\<lparr>operators := (operators w2)(3 := op0)\<rparr>"
  have slug1: "is_blocked slug1" "blocked_by slug1 = Some 3" "is_alive slug1"
    "\<not> has_reached_goal slug1" "attack_cooldown slug1 = 0" "buffs slug1 = []" "debuffs slug1 = []"
    "position slug1 = AtPosition \<lparr>row = 0, col = 0\<rparr>" "current_hp slug1 = 50" "defense slug1 = 0"
    "atk slug1 = 20" "base_attack_time slug1 = 1" "attack_speed slug1 = 1"
    by (simp_all add: slug1_def get_blocked_by_def demo_slug_fields)
       (simp_all add: demo_slug_def set_path_def demo_route_def Enemy_init_def demo_data_def)
  have op0: "is_deployed op0" "skills op0 = []" "buffs op0 = []" "debuffs op0 = []"
    "attack_cooldown op0 = 0" "is_alive op0" "position op0 = AtPosition \<lparr>row = 0, col = 0\<rparr>"
    "blocked_enemies op0 = [0]" "max_block_count op0 = 1" "atk op0 = 30" "defense op0 = 10"
    "current_hp op0 = 10" "base_attack_time op0 = 1" "attack_speed op0 = 100"
    by (simp_all add: op0_def demo_recruit_fields)
  have f2: "deployed_operators w2 = [3]"
    "operators w2 3 = (deploy \<lparr>row = 0, col = 0\<rparr> RIGHT demo_recruit)\<lparr>deploy_time := 1/5, blocked_enemies := [0]\<rparr>"
    by (simp_all add: w2_def fC)
  have s0: "for_each (operator_step (1/10)) (deployed_operators outpost_engaged)
           (outpost_engaged\<lparr>game_time := game_time outpost_engaged + 1/10,
              current_cost := min (max_cost outpost_engaged)
                (current_cost outpost_engaged + (1/10) / cost_increase_time outpost_engaged)\<rparr>)
         = Inr w3"
    by (simp add: fC w2_def [symmetric])
       (simp add: operator_step_def f2 stationed_update demo_recruit_fields Let_def w3_def op0_def)
  have f3: "deployed_operators w3 = [3]" "active_enemies w3 = [0]" "enemies w3 0 = slug1"
    "operators w3 3 = op0" "length (waves w3) = 1" "current_wave_index w3 = 1"
    by (simp_all add: w3_def w2_def fC slug1_def)
  have "enemy_step (1/10) 0 w3 = Inr w3"
    by (rule enemy_step_idle, rule blocked_enemy_update) (simp_all add: f3 slug1)
  then have s1: "for_each (enemy_step (1/10)) (active_enemies w3) w3 = Inr w3"
    by (simp add: f3)
  define slug2 where "slug2 = slug1\<lparr>current_hp := 20\<rparr>"
  define wa where "wa = w3\<lparr>enemies := (enemies w3)(0 := slug2),
                          operators := (operators w3)(3 := op0\<lparr>attack_cooldown := 1/100\<rparr>)\<rparr>"
  have hit: "lose_hp 30 slug1 = slug2"
    by (simp add: lose_hp_def slug1 slug2_def Let_def)
  have a0: "operator_attack 3 w3 = Inr wa"
    by (simp add: operator_attack_def find_attack_target_def f3 op0 slug1 truthy_def hit
          py_div_def Let_def wa_def)
  have fa: "deployed_operators wa = [3]" "active_enemies wa = [0]" "enemies wa 0 = slug2"
    "operators wa 3 = op0\<lparr>attack_cooldown := 1/100\<rparr>"
    "length (waves wa) = 1" "current_wave_index wa = 1"
    by (simp_all add: wa_def f3)
  have slug2: "is_blocked slug2" "blocked_by slug2 = Some 3" "is_alive slug2"
    "attack_cooldown slug2 = 0" "position slug2 = AtPosition \<lparr>row = 0, col = 0\<rparr>"
    "atk slug2 = 20" "base_attack_time slug2 = 1" "attack_speed slug2 = 1"
    by (simp_all add: slug2_def slug1)
  define op0b where "op0b = op0\<lparr>attack_cooldown := 1/100, current_hp := 0, is_alive := False\<rparr>"
  define wb where "wb = wa\<lparr>operators := (operators wa)(3 := op0b),
                          enemies := (enemies wa)(0 := slug2\<lparr>attack_cooldown := 1\<rparr>)\<rparr>"
  have hurt: "lose_hp 10 (op0\<lparr>attack_cooldown := 1/100\<rparr>) = op0b"
    by (simp add: lose_hp_def op0 op0b_def Let_def)
  have e0: "enemy_attack 0 wa = Inr wb"
    by (simp add: enemy_attack_def fa slug2 op0 hurt py_div_def Let_def wb_def)
  have s2: "process_combat (1/10) w3 = Inr wb"
    by (simp add: process_combat_def f3 a0 fa e0)
  have fb: "deployed_operators wb = [3]" "active_enemies wb = [0]"
    "enemies wb 0 = slug2\<lparr>attack_cooldown := 1\<rparr>"
    "operators wb 3 = op0b"
    "length (waves wb) = 1" "current_wave_index wb = 1"
    by (simp_all add: wb_def fa)
  have op0b: "\<not> is_alive op0b" "blocked_enemies op0b = [0]"
    by (simp_all add: op0b_def op0)
  have b: "block_enemy 0 wb = Inr wb"
    by (simp add: block_enemy_def fb slug2)
  have p0: "purge_dead_enemies 3 wb = Inr wb"
    by (rule purge_all_alive) (simp add: fb op0b slug2)
  have r: "release_orphan 0 wb
      = Inr (wb\<lparr>enemies := (enemies wb)(0 := release_block (slug2\<lparr>attack_cooldown := 1\<rparr>))\<rparr>)"
    by (simp add: release_orphan_def fb slug2 op0b)
  have fallen: "wb\<lparr>enemies := (enemies wb)(0 := release_block (slug2\<lparr>attack_cooldown := 1\<rparr>))\<rparr>
      = outpost_fallen"
    by (simp add: wb_def wa_def w3_def w2_def outpost_fallen_def op0b_def op0_def slug2_def slug1_def
          deploy_def fun_upd_twist)
  have s4: "process_blocking wb = Inr outpost_fallen"
    by (simp add: process_blocking_def fb b p0 r fallen)
  have ff: "active_enemies outpost_fallen = [0]" "length (waves outpost_fallen) = 1"
    "current_wave_index outpost_fallen = 1"
    by (simp_all add: outpost_fallen_def fC)
  have s5: "update_waves (1/10) outpost_fallen = Inr outpost_fallen"
    by (simp add: update_waves_def ff)
  have s6: "check_victory outpost_fallen = outpost_fallen"
    by (simp add: check_victory_def ff)
  have "cost_increase_time outpost_engaged \<noteq> 0" by (simp add: fC)
  from update_by_phases [OF this s0 s1 s2 s4 s5] show ?thesis
    by (simp only: s6)
qed

lemma outpost_fallen_fields:
  "deployed_operators outpost_fallen = [3]" "active_enemies outpost_fallen = [0]"
  "is_alive (operators outpost_fallen 3) = False"
  "blocked_enemies (operators outpost_fallen 3) = [0]"
  "is_alive (enemies outpost_fallen 0) = True" "is_blocked (enemies outpost_fallen 0) = False"
  "blocked_by (enemies outpost_fallen 0) = None"
  by (simp_all add: outpost_fallen_def outpost_engaged_fields release_block_def get_blocked_by_def
        demo_slug_fields)

section \<open>The victory flag\<close>

text \<open>
  Claim C1. A map starts with the victory flag not set, and what the simulator does to it
  is ticks and the deploys and retreats of the battle plan. In every world that such a run
  reaches, after \<^verbatim>\<open>update\<close> returns the victory flag is set exactly when, at the end of
  the tick, the wave index has reached the number of waves, no enemy is active, the life
  points are positive and the defeat flag is not set. The tick that sets the flag finds the
  condition true, and the later ticks keep it true: the waves are over, so no enemy comes.
\<close>

theorem victory_flag_after_update:
  assumes "is_victory w0 \<longrightarrow> victory_conditions w0"
    and "list_all scripted cs" and "run cs w0 = Inr w"
    and "update delta_time w = Inr w'"
  shows "is_victory w' \<longleftrightarrow>
           current_wave_index w' \<ge> int (length (waves w')) \<and> active_enemies w' = []
           \<and> current_life_points w' > 0 \<and> \<not> is_defeat w'"
proof -
  from run_settled [OF assms(3,2,1)] have "is_victory w \<longrightarrow> victory_conditions w" .
  from update_settled [OF assms(4) this] show ?thesis
    by (simp add: victory_conditions_def)
qed

lemma won_tick:
  "update 1 (demo_world\<lparr>game_time := 1, current_cost := 11, is_victory := True\<rparr>)
     = Inr (demo_world\<lparr>game_time := 2, current_cost := 12, is_victory := True\<rparr>)"
  by (simp add: update_def update_sequence_def py_div_def demo_world_def process_combat_def
        process_blocking_def update_waves_def check_victory_def Let_def)

theorem victory_flag_after_update_witness:
  "\<not> is_victory demo_world \<and> list_all scripted [Tick 1]
   \<and> run [Tick 1] demo_world
       = Inr (demo_world\<lparr>game_time := 1, current_cost := 11, is_victory := True\<rparr>)
   \<and> update 1 (demo_world\<lparr>game_time := 1, current_cost := 11, is_victory := True\<rparr>)
       = Inr (demo_world\<lparr>game_time := 2, current_cost := 12, is_victory := True\<rparr>)
   \<and> active_enemies (demo_world\<lparr>game_time := 2, current_cost := 12, is_victory := True\<rparr>) = []
   \<and> 0 < current_life_points (demo_world\<lparr>game_time := 2, current_cost := 12, is_victory := True\<rparr>)"
proof -
  have a: "is_victory demo_world \<longrightarrow> victory_conditions demo_world"
    "\<not> is_victory demo_world"
    by (simp_all add: demo_world_def)
  have b: "list_all scripted [Tick 1]" by (simp add: scripted_def)
  have c: "run [Tick 1] demo_world
       = Inr (demo_world\<lparr>game_time := 1, current_cost := 11, is_victory := True\<rparr>)"
    by (simp add: run_def execute_def demo_first_tick)
  from victory_flag_after_update [OF a(1) b c won_tick] a(2) b c won_tick
  show ?thesis by simp
qed

text \<open>
  The restriction to ticks, deploys and retreats is needed: \<^verbatim>\<open>update\<close> only ever sets the
  flag, so a \<^verbatim>\<open>spawn_enemy\<close> call made from outside after the victory leaves the flag set
  with an enemy active. The waves make no such call.
\<close>

lemma victory_flag_with_outside_spawn:
  "\<exists>w1 w2 w3. update 1 demo_world = Inr w1
      \<and> spawn_enemy ''slug'' 0 w1 = Inr (Some 0, w2)
      \<and> update (1/10) w2 = Inr w3
      \<and> is_victory w3 \<and> active_enemies w3 = [0]"
  using demo_first_tick slug_world_reached slug_tick
  by (simp add: slug_world_fields)

section \<open>The defeat flag\<close>

text \<open>
  Claim C2. For a tick that returns: the defeat flag is set after it exactly when it was set
  before or the life points fell during the tick to zero or below, so from positive life
  points and no defeat it is set exactly when the life points are at most zero afterwards.
  When the enemies of the roster are distinct and were spawned by the world, the life
  points fall by the number of enemies of the roster whose reached-goal flag is set, and
  none of these is in the roster afterwards. On the tick that ends with the defeat flag
  set the victory flag does not change, and after every later sequence of ticks, deploys,
  retreats and spawns the defeat flag is still set and the victory flag is what it was.
\<close>

theorem defeat_on_first_exhausting_tick_and_terminal:
  assumes "update delta_time w = Inr w'"
  shows "(is_defeat w' \<longleftrightarrow>
            is_defeat w \<or> (current_life_points w' \<le> 0 \<and> current_life_points w' < current_life_points w))
       \<and> (0 < current_life_points w \<and> \<not> is_defeat w \<longrightarrow>
            (is_defeat w' \<longleftrightarrow> current_life_points w' \<le> 0))
       \<and> (roster_ok w \<longrightarrow>
            current_life_points w'
              = current_life_points w
                - int (length (filter (\<lambda>e. has_reached_goal (enemies w' e)) (active_enemies w)))
            \<and> (\<forall>e \<in> set (active_enemies w).
                  has_reached_goal (enemies w' e) \<longrightarrow> e \<notin> set (active_enemies w')))
       \<and> (is_defeat w' \<longrightarrow> is_victory w' = is_victory w)
       \<and> (is_defeat w' \<and> run cs w' = Inr w'' \<longrightarrow> is_defeat w'' \<and> is_victory w'' = is_victory w)"
proof -
  note d = update_defeat_flag [OF assms]
  have first: "0 < current_life_points w \<and> \<not> is_defeat w \<longrightarrow>
            (is_defeat w' \<longleftrightarrow> current_life_points w' \<le> 0)"
    using d(1) by auto
  have count: "roster_ok w \<longrightarrow>
            current_life_points w'
              = current_life_points w
                - int (length (filter (\<lambda>e. has_reached_goal (enemies w' e)) (active_enemies w)))
            \<and> (\<forall>e \<in> set (active_enemies w).
                  has_reached_goal (enemies w' e) \<longrightarrow> e \<notin> set (active_enemies w'))"
    using update_life_count [OF assms] by blast
  have later: "is_defeat w' \<and> run cs w' = Inr w'' \<longrightarrow> is_defeat w'' \<and> is_victory w'' = is_victory w"
    using d(2) run_defeat_terminal [of cs w' w''] by auto
  from d first count later show ?thesis by blast
qed

theorem defeat_on_first_exhausting_tick_and_terminal_witness:
  "update 2 last_life_world = Inr breached_world
   \<and> roster_ok last_life_world \<and> 0 < current_life_points last_life_world
   \<and> \<not> is_defeat last_life_world \<and> active_enemies last_life_world = [0]
   \<and> has_reached_goal (enemies breached_world 0)
   \<and> current_life_points breached_world = 0 \<and> is_defeat breached_world
   \<and> active_enemies breached_world = [] \<and> \<not> is_victory breached_world
   \<and> (\<exists>w''. run [Tick 1] breached_world = Inr w'' \<and> is_defeat w'' \<and> \<not> is_victory w'')"
proof -
  have r: "roster_ok last_life_world"
    by (simp add: roster_ok_def last_life_world_fields)
  have t: "run [Tick 1] breached_world = Inr (breached_world\<lparr>game_time := 3, current_cost := 13\<rparr>)"
    by (simp add: run_def execute_def breached_tick)
  from defeat_on_first_exhausting_tick_and_terminal [OF last_life_tick,
      of "[Tick 1]" "breached_world\<lparr>game_time := 3, current_cost := 13\<rparr>"] r t last_life_tick
  show ?thesis
    by (simp add: last_life_world_fields breached_world_fields)
qed


section \<open>The blocking relation\<close>

text \<open>
  Claim C7, amended. For a tick that returns: when no operator's list of blocked enemies
  was longer than its block capacity before, none is afterwards, nor after any later
  sequence of ticks, deploys, retreats and spawns. An enemy refers to one blocker, and an
  enemy that was blocked before the tick is not blocked by another operator after it. After
  the cleanup pass of the tick the operator that an active enemy is blocked by is in the
  deployed roster and alive, every enemy in the list of an operator of the roster is alive,
  and a living enemy that became blocked during the tick is in the list of its blocker.
\<close>

theorem blocking_relation_at_tick_boundary:
  assumes "update delta_time w = Inr w'"
  shows "(within_capacity w \<longrightarrow> within_capacity w')
       \<and> (within_capacity w \<and> run cs w' = Inr w'' \<longrightarrow> within_capacity w'')
       \<and> (\<forall>eid oid oid'. blocks w oid eid \<and> blocks w' oid' eid \<longrightarrow> oid' = oid)
       \<and> (\<forall>eid \<in> set (active_enemies w'). \<forall>oid. blocks w' oid eid \<longrightarrow>
            oid \<in> set (deployed_operators w') \<and> is_alive (operators w' oid))
       \<and> (\<forall>oid \<in> set (deployed_operators w').
            \<forall>eid \<in> set (blocked_enemies (operators w' oid)). is_alive (enemies w' eid))
       \<and> (\<forall>oid eid. \<not> is_blocked (enemies w eid) \<and> blocks w' oid eid \<and> is_alive (enemies w' eid) \<longrightarrow>
            eid \<in> set (blocked_enemies (operators w' oid)))"
proof -
  have c: "within_capacity w \<longrightarrow> within_capacity w'"
    using update_capacity [OF assms] by simp
  have r: "within_capacity w \<and> run cs w' = Inr w'' \<longrightarrow> within_capacity w''"
    using c run_capacity [of cs w' w''] by auto
  have s: "\<forall>eid oid oid'. blocks w oid eid \<and> blocks w' oid' eid \<longrightarrow> oid' = oid"
    using update_blocks [OF assms] by blast
  have b: "\<forall>eid \<in> set (active_enemies w'). \<forall>oid. blocks w' oid eid \<longrightarrow>
            oid \<in> set (deployed_operators w') \<and> is_alive (operators w' oid)"
    using update_backrefs [OF assms] by blast
  note l = update_lists [OF assms]
  from c r s b l show ?thesis by blast
qed

theorem blocking_relation_at_tick_boundary_witness:
  "update (1/10) guarded_world = Inr engaged_world
   \<and> within_capacity guarded_world \<and> within_capacity engaged_world
   \<and> \<not> is_blocked (enemies guarded_world 0)
   \<and> 0 \<in> set (active_enemies engaged_world) \<and> blocks engaged_world 0 0
   \<and> is_alive (enemies engaged_world 0)
   \<and> 0 \<in> set (deployed_operators engaged_world) \<and> is_alive (operators engaged_world 0)
   \<and> 0 \<in> set (blocked_enemies (operators engaged_world 0))
   \<and> (\<exists>w''. update (1/10) engaged_world = Inr w'' \<and> run [Tick (1/10)] engaged_world = Inr w''
          \<and> within_capacity w'' \<and> blocks w'' 0 0)"
proof -
  from engaged_tick obtain w'' where
    t: "update (1/10) engaged_world = Inr w''" and b: "blocks w'' 0 0"
    by blast
  have r: "run [Tick (1/10)] engaged_world = Inr w''"
    by (simp add: run_def execute_def t)
  have a: "0 \<in> set (active_enemies engaged_world)" "\<not> is_blocked (enemies guarded_world 0)"
    "is_alive (enemies engaged_world 0)"
    by (simp_all add: engaged_world_fields guarded_world_fields demo_slug_fields get_blocked_by_def)
  from blocking_relation_at_tick_boundary [OF guarded_tick, of "[Tick (1/10)]" w'']
    blocking_relation_at_tick_boundary [OF t, of "[]" w'']
    guarded_world_capacity guarded_tick engaged_world_blocks a t r b
  show ?thesis by blast
qed

text \<open>
  The claim as stated fails where it calls the relation mutually consistent: the lists and
  the back-references are not kept in step beyond this. At the outpost the enemy kills the
  operator that blocks it, in the third tick after the deploy. The cleanup pass of that
  tick releases the enemy, and the dead operator, which stays in the roster until the next
  tick retreats it, keeps the enemy in its list: at the end of the tick the list of a
  deployed operator holds an active, living enemy that no operator blocks.
\<close>

theorem dead_operator_lists_released_enemy:
  "run [Deploy 3 \<lparr>row = 0, col = 0\<rparr> RIGHT, Tick (1/10), Tick (1/10), Tick (1/10)] outpost_world
     = Inr outpost_fallen
   \<and> 3 \<in> set (deployed_operators outpost_fallen)
   \<and> 0 \<in> set (blocked_enemies (operators outpost_fallen 3))
   \<and> 0 \<in> set (active_enemies outpost_fallen)
   \<and> is_alive (enemies outpost_fallen 0)
   \<and> \<not> is_blocked (enemies outpost_fallen 0)
   \<and> \<not> blocks outpost_fallen 3 0"
  by (simp add: run_def execute_def outpost_manned_reached outpost_first_tick outpost_second_tick
        outpost_third_tick outpost_fallen_fields blocks_def)

end
